(* ===== verification/Prelude.thy ===== *)
theory Prelude
  imports Main "HOL-Library.Word"
begin

text \<open>
  Shared vocabulary of the development: the machine integer types of the Rust sources, the
  three ways a Rust call can end (a value, an error value, a panic), checked arithmetic, and
  the generic facts on words, lists and byte ranges that the component theories use.

  A plain \<open>+\<close>, \<open>-\<close> or \<open>*\<close> of the source that would leave the range of its type is modelled
  as a panic, which is what a build with overflow checks does; the theorems that exclude
  \<open>Panic\<close> therefore also show that a build without these checks never wraps there.
  Casts written \<open>as u32\<close> truncate, as in Rust.
\<close>

section \<open>Machine integers\<close>

type_synonym u8 = "8 word"
type_synonym u32 = "32 word"
type_synonym i32 = "32 word"
type_synonym u64 = "64 word"
type_synonym i64 = "64 word"
type_synonym usize = nat

text \<open>The flat address space of the process: one byte per address.\<close>

type_synonym heap = "nat \<Rightarrow> u8"

abbreviation usize_limit :: nat where
  "usize_limit \<equiv> 2 ^ 64"

abbreviation u32_max :: u32 where
  "u32_max \<equiv> 4294967295"

named_theorems outcome_simps \<open>equations that evaluate the result type of Rust calls\<close>
named_theorems arith_simps \<open>checked arithmetic in terms of natural numbers\<close>

section \<open>Outcomes of a Rust call\<close>

datatype ('a, 'e) outcome = Ok 'a | Err 'e | Panic

fun bind_ok :: "('a, 'e) outcome \<Rightarrow> ('a \<Rightarrow> ('b, 'e) outcome) \<Rightarrow> ('b, 'e) outcome" where
  "bind_ok (Ok x) f = f x"
| "bind_ok (Err e) f = Err e"
| "bind_ok Panic f = Panic"

fun map_err :: "('e \<Rightarrow> 'f) \<Rightarrow> ('a, 'e) outcome \<Rightarrow> ('a, 'f) outcome" where
  "map_err g (Ok x) = Ok x"
| "map_err g (Err e) = Err (g e)"
| "map_err g Panic = Panic"

fun ok_or :: "'e \<Rightarrow> 'a option \<Rightarrow> ('a, 'e) outcome" where
  "ok_or e None = Err e"
| "ok_or e (Some x) = Ok x"

text \<open>\<open>Option::unwrap\<close>, \<open>Option::expect\<close> and indexing out of range panic.\<close>

fun unwrap :: "'a option \<Rightarrow> ('a, 'e) outcome" where
  "unwrap None = Panic"
| "unwrap (Some x) = Ok x"

text \<open>\<open>Result::unwrap\<close> and \<open>Result::expect\<close>: an error value becomes a panic.\<close>

fun unwrap_res :: "('a, 'e) outcome \<Rightarrow> ('a, 'f) outcome" where
  "unwrap_res (Ok x) = Ok x"
| "unwrap_res (Err e) = Panic"
| "unwrap_res Panic = Panic"

text \<open>An early return with \<open>?\<close> that first runs the destructor of a local value.\<close>

fun on_err :: "('a, 'e) outcome \<Rightarrow> ('b, 'e) outcome \<Rightarrow> ('a, 'e) outcome" where
  "on_err (Ok x) cleanup = Ok x"
| "on_err (Err e) cleanup = bind_ok cleanup (\<lambda>_. Err e)"
| "on_err Panic cleanup = Panic"

definition assert_that :: "bool \<Rightarrow> (unit, 'e) outcome" where
  "assert_that b = (if b then Ok () else Panic)"

definition is_ok :: "('a, 'e) outcome \<Rightarrow> bool" where
  "is_ok r = (case r of Ok _ \<Rightarrow> True | _ \<Rightarrow> False)"

text \<open>The loop \<open>iter.map(f).collect::<Result<_, _>>()\<close>: it stops at the first failure.\<close>

fun map_ok :: "('a \<Rightarrow> ('b, 'e) outcome) \<Rightarrow> 'a list \<Rightarrow> ('b list, 'e) outcome" where
  "map_ok f [] = Ok []"
| "map_ok f (x # xs) = bind_ok (f x) (\<lambda>y. bind_ok (map_ok f xs) (\<lambda>ys. Ok (y # ys)))"

definition nth_opt :: "'a list \<Rightarrow> nat \<Rightarrow> 'a option" where
  "nth_opt xs i = (if i < length xs then Some (xs ! i) else None)"

lemma bind_ok_eq_Ok [outcome_simps]:
  "(bind_ok m f = Ok y) = (\<exists>x. m = Ok x \<and> f x = Ok y)"
  by (cases m) auto

lemma bind_ok_eq_Err [outcome_simps]:
  "(bind_ok m f = Err e) = (m = Err e \<or> (\<exists>x. m = Ok x \<and> f x = Err e))"
  by (cases m) auto

lemma bind_ok_eq_Panic [outcome_simps]:
  "(bind_ok m f = Panic) = (m = Panic \<or> (\<exists>x. m = Ok x \<and> f x = Panic))"
  by (cases m) auto

lemma bind_ok_assoc: "bind_ok (bind_ok m f) g = bind_ok m (\<lambda>x. bind_ok (f x) g)"
  by (cases m) auto

lemma map_err_eq_Ok [outcome_simps]: "(map_err g m = Ok x) = (m = Ok x)"
  by (cases m) auto

lemma map_err_eq_Err [outcome_simps]: "(map_err g m = Err e) = (\<exists>e'. m = Err e' \<and> e = g e')"
  by (cases m) auto

lemma map_err_eq_Panic [outcome_simps]: "(map_err g m = Panic) = (m = Panic)"
  by (cases m) auto

lemma ok_or_eq [outcome_simps]:
  "(ok_or e v = Ok x) = (v = Some x)"
  "(ok_or e v = Err e') = (v = None \<and> e' = e)"
  "ok_or e v \<noteq> Panic"
  by (cases v; auto)+

lemma unwrap_eq [outcome_simps]:
  "(unwrap v = Ok x) = (v = Some x)"
  "(unwrap v = Panic) = (v = None)"
  "unwrap v \<noteq> Err e"
  by (cases v; auto)+

lemma unwrap_res_eq [outcome_simps]:
  "(unwrap_res m = Ok x) = (m = Ok x)"
  "(unwrap_res m = Panic) = (\<forall>x. m \<noteq> Ok x)"
  "unwrap_res m \<noteq> Err e"
  by (cases m; auto)+

lemma on_err_eq [outcome_simps]:
  "(on_err m c = Ok x) = (m = Ok x)"
  "(on_err m c = Panic) = (m = Panic \<or> (\<exists>e. m = Err e \<and> c = Panic))"
  by (cases m; auto simp: outcome_simps)+

lemma assert_that_eq [outcome_simps]:
  "(assert_that b = Ok u) = b"
  "(assert_that b = Panic) = (\<not> b)"
  "assert_that b \<noteq> Err e"
  by (auto simp: assert_that_def)

lemma assert_that_simps [simp]:
  "assert_that True = Ok ()" "assert_that False = Panic"
  by (simp_all add: assert_that_def)

lemma nth_opt_eq [outcome_simps]:
  "(nth_opt xs i = Some x) = (i < length xs \<and> xs ! i = x)"
  "(nth_opt xs i = None) = (length xs \<le> i)"
  by (auto simp: nth_opt_def)

lemma is_ok_simps [simp]:
  "is_ok (Ok x)" "\<not> is_ok (Err e)" "\<not> is_ok Panic"
  by (simp_all add: is_ok_def)

lemma map_ok_eq_Ok [outcome_simps]:
  "(map_ok f xs = Ok ys) = list_all2 (\<lambda>x y. f x = Ok y) xs ys"
  by (induction xs arbitrary: ys) (auto simp: outcome_simps list_all2_Cons1)

lemma map_ok_total: "(\<And>x. x \<in> set xs \<Longrightarrow> f x = Ok (g x)) \<Longrightarrow> map_ok f xs = Ok (map g xs)"
  by (induction xs) auto

lemma map_ok_cong [fundef_cong]:
  "xs = ys \<Longrightarrow> (\<And>x. x \<in> set ys \<Longrightarrow> f x = g x) \<Longrightarrow> map_ok f xs = map_ok g ys"
  by (induction ys arbitrary: xs) auto

lemma bind_ok_cong [fundef_cong]:
  "m = m' \<Longrightarrow> (\<And>x. m' = Ok x \<Longrightarrow> f x = g x) \<Longrightarrow> bind_ok m f = bind_ok m' g"
  by (cases m') auto

section \<open>Checked arithmetic\<close>

definition checked_add :: "'a::len word \<Rightarrow> 'a word \<Rightarrow> 'a word option" where
  "checked_add a b = (if unat a + unat b < 2 ^ LENGTH('a) then Some (a + b) else None)"

definition checked_mul :: "'a::len word \<Rightarrow> 'a word \<Rightarrow> 'a word option" where
  "checked_mul a b = (if unat a * unat b < 2 ^ LENGTH('a) then Some (a * b) else None)"

definition usize_checked_add :: "usize \<Rightarrow> usize \<Rightarrow> usize option" where
  "usize_checked_add a b = (if a + b < usize_limit then Some (a + b) else None)"

definition usize_add :: "usize \<Rightarrow> usize \<Rightarrow> (usize, 'e) outcome" where
  "usize_add a b = unwrap (usize_checked_add a b)"

definition usize_sub :: "usize \<Rightarrow> usize \<Rightarrow> (usize, 'e) outcome" where
  "usize_sub a b = (if b \<le> a then Ok (a - b) else Panic)"

definition usize_checked_sub :: "usize \<Rightarrow> usize \<Rightarrow> usize option" where
  "usize_checked_sub a b = (if b \<le> a then Some (a - b) else None)"

text \<open>\<open>x as u32\<close> of a \<open>usize\<close> and \<open>u32::try_from\<close>.\<close>

definition as_u32 :: "usize \<Rightarrow> u32" where
  "as_u32 n = of_nat n"

definition u32_try_from :: "usize \<Rightarrow> u32 option" where
  "u32_try_from n = (if n < 2 ^ 32 then Some (of_nat n) else None)"

lemma checked_add_Some [arith_simps]:
  "(checked_add a b = Some c) = (unat c = unat a + unat b)"
proof
  assume "checked_add a b = Some c"
  then show "unat c = unat a + unat b"
    by (auto simp: checked_add_def unat_word_ariths split: if_splits)
next
  assume h: "unat c = unat a + unat b"
  then have "unat a + unat b < 2 ^ LENGTH('a)"
    by (metis unsigned_less)
  moreover from h this have "c = a + b"
    by (metis unat_add_lem unsigned_word_eqI)
  ultimately show "checked_add a b = Some c"
    by (simp add: checked_add_def)
qed

lemma checked_add_None [arith_simps]:
  "(checked_add a b = None) = (2 ^ LENGTH('a) \<le> unat (a :: 'a::len word) + unat b)"
  by (auto simp: checked_add_def)

lemma checked_mul_Some [arith_simps]:
  "(checked_mul a b = Some c) = (unat c = unat a * unat b)"
proof
  assume "checked_mul a b = Some c"
  then show "unat c = unat a * unat b"
    by (auto simp: checked_mul_def unat_word_ariths split: if_splits)
next
  assume h: "unat c = unat a * unat b"
  then have "unat a * unat b < 2 ^ LENGTH('a)"
    by (metis unsigned_less)
  moreover from h this have "c = a * b"
    by (metis unat_mult_lem unsigned_word_eqI)
  ultimately show "checked_mul a b = Some c"
    by (simp add: checked_mul_def)
qed

lemma unat_as_u32 [arith_simps]: "unat (as_u32 n) = n mod 2 ^ 32"
  by (simp add: as_u32_def unat_of_nat)

lemma unat_as_u32_small: "n < 2 ^ 32 \<Longrightarrow> unat (as_u32 n) = n"
  by (simp add: unat_as_u32)

lemma as_u32_unat [simp]: "as_u32 (unat (w :: u32)) = w"
  by (simp add: as_u32_def)

lemma unat_u32_less [simp]: "unat (w :: u32) < 4294967296"
  using unsigned_less [of w, where ?'a = nat] by simp

lemma u32_try_from_Some [arith_simps]: "(u32_try_from n = Some w) = (n = unat w)"
  using unat_u32_less [of w]
  by (auto simp: u32_try_from_def unat_of_nat)

lemma unat_u32_max [simp]: "unat (u32_max) = 4294967295"
  by simp

lemma usize_add_eq [outcome_simps]:
  "(usize_add a b = Ok c) = (c = a + b \<and> a + b < usize_limit)"
  "(usize_add a b = Panic) = (usize_limit \<le> a + b)"
  "usize_add a b \<noteq> Err e"
  by (auto simp: usize_add_def usize_checked_add_def)

lemma usize_sub_eq [outcome_simps]:
  "(usize_sub a b = Ok c) = (c = a - b \<and> b \<le> a)"
  "(usize_sub a b = Panic) = (a < b)"
  "usize_sub a b \<noteq> Err e"
  by (auto simp: usize_sub_def)

text \<open>\<open>format!("{n}")\<close> of an unsigned number.\<close>

fun decimal :: "nat \<Rightarrow> string" where
  "decimal n =
     (if n < 10 then [char_of (48 + n)] else decimal (n div 10) @ [char_of (48 + n mod 10)])"

section \<open>Byte ranges of the address space\<close>

text \<open>
  \<open>heap_write h p bs\<close> stores the bytes \<open>bs\<close> from address \<open>p\<close> on (\<open>copy_from_slice\<close>),
  \<open>heap_fill\<close> is \<open>ptr::write_bytes\<close> and \<open>heap_move\<close> is \<open>ptr::copy\<close>, which reads the whole
  source range before it writes (\<open>memmove\<close>).
\<close>

definition heap_write :: "heap \<Rightarrow> nat \<Rightarrow> u8 list \<Rightarrow> heap" where
  "heap_write h p bs = (\<lambda>a. if p \<le> a \<and> a < p + length bs then bs ! (a - p) else h a)"

definition heap_fill :: "heap \<Rightarrow> nat \<Rightarrow> u8 \<Rightarrow> nat \<Rightarrow> heap" where
  "heap_fill h p v n = (\<lambda>a. if p \<le> a \<and> a < p + n then v else h a)"

definition heap_move :: "heap \<Rightarrow> nat \<Rightarrow> nat \<Rightarrow> nat \<Rightarrow> heap" where
  "heap_move h src dst n = (\<lambda>a. if dst \<le> a \<and> a < dst + n then h (src + (a - dst)) else h a)"

definition heap_read :: "heap \<Rightarrow> nat \<Rightarrow> nat \<Rightarrow> u8 list" where
  "heap_read h p n = map (\<lambda>i. h (p + i)) [0..<n]"

lemma length_heap_read [simp]: "length (heap_read h p n) = n"
  by (simp add: heap_read_def)

lemma nth_heap_read [simp]: "i < n \<Longrightarrow> heap_read h p n ! i = h (p + i)"
  by (simp add: heap_read_def)

lemma heap_read_write [simp]: "heap_read (heap_write h p bs) p (length bs) = bs"
  by (rule nth_equalityI) (simp_all add: heap_write_def)

lemma heap_move_read: "heap_read (heap_move h src dst n) dst n = heap_read h src n"
  by (rule nth_equalityI) (simp_all add: heap_move_def)

lemma heap_move_write: "heap_move h src dst n = heap_write h dst (heap_read h src n)"
  by (rule ext) (auto simp: heap_move_def heap_write_def)

text \<open>Two ranges of addresses that do not meet.\<close>

definition disjoint_ranges :: "nat \<Rightarrow> nat \<Rightarrow> nat \<Rightarrow> nat \<Rightarrow> bool" where
  "disjoint_ranges p m q n = (p + m \<le> q \<or> q + n \<le> p)"

section \<open>Lists\<close>

lemma nth_opt_append_last [simp]: "nth_opt (xs @ [x]) (length xs) = Some x"
  by (simp add: nth_opt_def)

lemma nth_opt_append_old: "i < length xs \<Longrightarrow> nth_opt (xs @ [x]) i = nth_opt xs i"
  by (simp add: nth_opt_def nth_append)

lemma list_all_drop:
  "list_all P (drop n xs) = (\<forall>i. n \<le> i \<and> i < length xs \<longrightarrow> P (xs ! i))"
proof
  assume all: "list_all P (drop n xs)"
  show "\<forall>i. n \<le> i \<and> i < length xs \<longrightarrow> P (xs ! i)"
  proof (intro allI impI)
    fix i assume i: "n \<le> i \<and> i < length xs"
    with all have "P (drop n xs ! (i - n))"
      unfolding list_all_length by (metis diff_less_mono length_drop)
    with i show "P (xs ! i)" by simp
  qed
next
  assume "\<forall>i. n \<le> i \<and> i < length xs \<longrightarrow> P (xs ! i)"
  then show "list_all P (drop n xs)" by (auto simp: list_all_length)
qed

lemma take_eq_iff:
  "n \<le> length xs \<Longrightarrow> n \<le> length ys \<Longrightarrow>
   (take n xs = take n ys) = (\<forall>i < n. xs ! i = ys ! i)"
  by (auto simp: list_eq_iff_nth_eq)

lemma nth_opt_update:
  "nth_opt (xs[i := x]) j = (if i = j \<and> i < length xs then Some x else nth_opt xs j)"
  by (auto simp: nth_opt_def)

section \<open>Blocks of a list\<close>

text \<open>\<open>n\<close> elements of \<open>xs\<close> from \<open>src\<close> on, written over those of \<open>ys\<close> from \<open>dst\<close> on.\<close>

definition list_blit :: "'a list \<Rightarrow> nat \<Rightarrow> 'a list \<Rightarrow> nat \<Rightarrow> nat \<Rightarrow> 'a list" where
  "list_blit ys dst xs src n = take dst ys @ take n (drop src xs) @ drop (dst + n) ys"

lemma length_list_blit [simp]:
  "src + n \<le> length xs \<Longrightarrow> dst + n \<le> length ys \<Longrightarrow> length (list_blit ys dst xs src n) = length ys"
  by (simp add: list_blit_def)

lemma nth_list_blit:
  assumes "src + n \<le> length xs" and "dst + n \<le> length ys" and "j < length ys"
  shows "list_blit ys dst xs src n ! j =
    (if dst \<le> j \<and> j < dst + n then xs ! (src + (j - dst)) else ys ! j)"
proof -
  have "length (take n (drop src xs)) = n" "length (take dst ys) = dst" using assms by simp_all
  with assms show ?thesis by (auto simp: list_blit_def nth_append)
qed

lemma list_blit_eqI:
  assumes "src + n \<le> length xs" and "dst + n \<le> length ys" and "length zs = length ys"
    and "\<And>j. j < length ys \<Longrightarrow>
      zs ! j = (if dst \<le> j \<and> j < dst + n then xs ! (src + (j - dst)) else ys ! j)"
  shows "zs = list_blit ys dst xs src n"
  using assms by (intro nth_equalityI) (simp_all add: nth_list_blit)

text \<open>A block of the address space as a list.\<close>

lemma heap_read_write_at:
  assumes "d + length bs \<le> n"
  shows "heap_read (heap_write h (p + d) bs) p n = list_blit (heap_read h p n) d bs 0 (length bs)"
  using assms by (intro list_blit_eqI) (auto simp: heap_write_def)

lemma heap_read_part: "s + k \<le> n \<Longrightarrow> heap_read h (p + s) k = take k (drop s (heap_read h p n))"
  by (intro nth_equalityI) (auto simp: ac_simps)

lemma list_blit_part:
  "src + n \<le> length xs \<Longrightarrow> list_blit ys d (take n (drop src xs)) 0 n = list_blit ys d xs src n"
  by (simp add: list_blit_def)

end
