(* ===== verification/Traps.thy ===== *)
theory Traps
  imports Prelude
begin

text \<open>
  The reasons a program traps (\<open>lib/types/src/trapcode.rs\<close>), with their messages and the
  textual form that is written out and read back, and the trap value that the runtime raises
  (\<open>lib/vm/src/trap/trap.rs\<close>) without its native backtrace.
\<close>

section \<open>Trap codes\<close>

datatype TrapCode =
    StackOverflow
  | HeapAccessOutOfBounds
  | HeapMisaligned
  | TableAccessOutOfBounds
  | IndirectCallToNull
  | BadSignature
  | IntegerOverflow
  | IntegerDivisionByZero
  | BadConversionToInteger
  | UnreachableCodeReached
  | UnalignedAtomic
  | UncaughtException
  | UninitializedExnRef
  | YieldOutsideAsyncContext

fun trap_message :: "TrapCode \<Rightarrow> string" where
  "trap_message StackOverflow = ''call stack exhausted''"
| "trap_message HeapAccessOutOfBounds = ''out of bounds memory access''"
| "trap_message HeapMisaligned = ''misaligned heap''"
| "trap_message TableAccessOutOfBounds = ''undefined element: out of bounds table access''"
| "trap_message IndirectCallToNull = ''uninitialized element''"
| "trap_message BadSignature = ''indirect call type mismatch''"
| "trap_message IntegerOverflow = ''integer overflow''"
| "trap_message IntegerDivisionByZero = ''integer divide by zero''"
| "trap_message BadConversionToInteger = ''invalid conversion to integer''"
| "trap_message UnreachableCodeReached = ''unreachable''"
| "trap_message UnalignedAtomic = ''unaligned atomic access''"
| "trap_message UncaughtException = ''uncaught exception''"
| "trap_message UninitializedExnRef = ''uninitialized exnref''"
| "trap_message YieldOutsideAsyncContext = ''async imported function yielded when not called via `Function::call_async`''"

fun trap_display :: "TrapCode \<Rightarrow> string" where
  "trap_display StackOverflow = ''stk_ovf''"
| "trap_display HeapAccessOutOfBounds = ''heap_get_oob''"
| "trap_display HeapMisaligned = ''heap_misaligned''"
| "trap_display TableAccessOutOfBounds = ''table_get_oob''"
| "trap_display IndirectCallToNull = ''icall_null''"
| "trap_display BadSignature = ''bad_sig''"
| "trap_display IntegerOverflow = ''int_ovf''"
| "trap_display IntegerDivisionByZero = ''int_divz''"
| "trap_display BadConversionToInteger = ''bad_toint''"
| "trap_display UnreachableCodeReached = ''unreachable''"
| "trap_display UnalignedAtomic = ''unalign_atom''"
| "trap_display UncaughtException = ''uncaught_exception''"
| "trap_display UninitializedExnRef = ''uninitialized_exnref''"
| "trap_display YieldOutsideAsyncContext = ''yield_outside_async_context''"

definition trap_from_str :: "string \<Rightarrow> (TrapCode, unit) outcome" where
  "trap_from_str s =
     (if s = ''stk_ovf'' then Ok StackOverflow
      else if s = ''heap_get_oob'' then Ok HeapAccessOutOfBounds
      else if s = ''heap_misaligned'' then Ok HeapMisaligned
      else if s = ''table_get_oob'' then Ok TableAccessOutOfBounds
      else if s = ''icall_null'' then Ok IndirectCallToNull
      else if s = ''bad_sig'' then Ok BadSignature
      else if s = ''int_ovf'' then Ok IntegerOverflow
      else if s = ''int_divz'' then Ok IntegerDivisionByZero
      else if s = ''bad_toint'' then Ok BadConversionToInteger
      else if s = ''unreachable'' then Ok UnreachableCodeReached
      else if s = ''unalign_atom'' then Ok UnalignedAtomic
      else if s = ''uncaught_exception'' then Ok UncaughtException
      else if s = ''uninitialized_exnref'' then Ok UninitializedExnRef
      else if s = ''yield_outside_async_context'' then Ok YieldOutsideAsyncContext
      else Err ())"

text \<open>The discriminants that \<open>repr(u32)\<close> fixes, as the runtime passes them to compiled code.\<close>

fun trap_discriminant :: "TrapCode \<Rightarrow> u32" where
  "trap_discriminant StackOverflow = 0"
| "trap_discriminant HeapAccessOutOfBounds = 1"
| "trap_discriminant HeapMisaligned = 2"
| "trap_discriminant TableAccessOutOfBounds = 3"
| "trap_discriminant IndirectCallToNull = 4"
| "trap_discriminant BadSignature = 5"
| "trap_discriminant IntegerOverflow = 6"
| "trap_discriminant IntegerDivisionByZero = 7"
| "trap_discriminant BadConversionToInteger = 8"
| "trap_discriminant UnreachableCodeReached = 9"
| "trap_discriminant UnalignedAtomic = 10"
| "trap_discriminant UncaughtException = 11"
| "trap_discriminant UninitializedExnRef = 12"
| "trap_discriminant YieldOutsideAsyncContext = 13"

section \<open>Trap values\<close>

text \<open>\<open>'err\<close> is the type of a user error, \<open>'exn\<close> that of an exception reference.\<close>

datatype ('err, 'exn) Trap =
    TrapUser 'err
  | TrapWasm usize "TrapCode option"
  | TrapLib TrapCode
  | TrapOOM
  | TrapUncaught 'exn

definition trap_lib :: "TrapCode \<Rightarrow> ('err, 'exn) Trap" where
  "trap_lib trap_code = TrapLib trap_code"

text \<open>\<open>is_t\<close> decides whether a user error has the type asked for.\<close>

definition trap_downcast ::
  "('err \<Rightarrow> bool) \<Rightarrow> ('err, 'exn) Trap \<Rightarrow> ('err, ('err, 'exn) Trap) outcome" where
  "trap_downcast is_t t =
     (case t of TrapUser err \<Rightarrow> if is_t err then Ok err else Err t | _ \<Rightarrow> Err t)"

definition trap_is :: "('err \<Rightarrow> bool) \<Rightarrow> ('err, 'exn) Trap \<Rightarrow> bool" where
  "trap_is is_t t = (case t of TrapUser err \<Rightarrow> is_t err | _ \<Rightarrow> False)"

definition trap_is_exception :: "('err, 'exn) Trap \<Rightarrow> bool" where
  "trap_is_exception t = (case t of TrapUncaught _ \<Rightarrow> True | _ \<Rightarrow> False)"

definition to_exception_ref :: "('err, 'exn) Trap \<Rightarrow> 'exn option" where
  "to_exception_ref t = (case t of TrapUncaught exnref \<Rightarrow> Some exnref | _ \<Rightarrow> None)"

definition trap_show :: "('err \<Rightarrow> string) \<Rightarrow> ('err, 'exn) Trap \<Rightarrow> string" where
  "trap_show err_show t =
     (case t of
        TrapUser e \<Rightarrow> err_show e
      | TrapLib _ \<Rightarrow> ''lib''
      | TrapWasm _ _ \<Rightarrow> ''wasm''
      | TrapOOM \<Rightarrow> ''Wasmer VM out of memory''
      | TrapUncaught _ \<Rightarrow> ''Uncaught wasm exception'')"

section \<open>Facts\<close>

lemma to_exception_ref_iff: "trap_is_exception t \<longleftrightarrow> to_exception_ref t \<noteq> None"
  by (cases t) (simp_all add: trap_is_exception_def to_exception_ref_def)

lemma trap_downcast_iff: "is_ok (trap_downcast is_t t) = trap_is is_t t"
  by (cases t) (simp_all add: trap_downcast_def trap_is_def)

lemma trap_exception_not_user: "trap_is_exception t \<Longrightarrow> \<not> trap_is is_t t"
  by (cases t) (simp_all add: trap_is_exception_def trap_is_def)

lemma trap_discriminant_inj: "trap_discriminant a = trap_discriminant b \<longleftrightarrow> a = b"
  by (cases a; cases b; simp)

lemma trap_read_written: "trap_from_str (trap_display a) = Ok a"
  by (cases a) (simp_all add: trap_from_str_def)

lemma trap_read_other:
  assumes "\<And>a. s \<noteq> trap_display a"
  shows "trap_from_str s = Err ()"
  using assms unfolding trap_from_str_def
  by (simp only: trap_display.simps [symmetric] if_False)

text \<open>
  C40: reading a trap code from text. A text is accepted exactly when it is the written form of
  some code, and then that code is the result; so no two codes are written alike.
\<close>

theorem trap_code_roundtrip:
  "(trap_from_str s = Ok c \<longleftrightarrow> s = trap_display c) \<and>
   (trap_from_str s = Err () \<longleftrightarrow> s \<notin> range trap_display) \<and>
   (trap_display a = trap_display b \<longleftrightarrow> a = b)"
proof (intro conjI)
  have inj: "x = y" if "trap_display x = trap_display y" for x y
    using trap_read_written [of x] trap_read_written [of y] unfolding that by (simp only: outcome.inject)
  then show "trap_display a = trap_display b \<longleftrightarrow> a = b" by iprover
  show "trap_from_str s = Ok c \<longleftrightarrow> s = trap_display c"
  proof (cases "\<exists>d. s = trap_display d")
    case True
    then obtain d where "s = trap_display d" ..
    then show ?thesis using inj [of d c] by (auto simp only: trap_read_written outcome.inject)
  next
    case False
    then have "trap_from_str s = Err ()" by (intro trap_read_other) iprover
    with False show ?thesis by (auto simp only: outcome.distinct)
  qed
  show "trap_from_str s = Err () \<longleftrightarrow> s \<notin> range trap_display"
  proof (cases "\<exists>d. s = trap_display d")
    case True
    then obtain d where "s = trap_display d" ..
    then show ?thesis by (simp only: trap_read_written outcome.distinct rangeI simp_thms)
  next
    case False
    then have "trap_from_str s = Err ()" by (intro trap_read_other) iprover
    with False show ?thesis by (auto simp only: image_iff)
  qed
qed

end
