(* ===== verification/Wasm_Types.thy ===== *)
theory Wasm_Types
  imports Traps
begin

text \<open>
  The type language of the runtime: page and byte units (\<open>lib/types/src/units.rs\<close>), value,
  function, global, table, memory and tag types with the import compatibility relation
  (\<open>lib/types/src/types.rs\<close>), the implementation styles of memories and tables
  (\<open>lib/types/src/memory.rs\<close>, \<open>table.rs\<close>), and the error types of \<open>lib/types/src/error.rs\<close>
  that the runtime returns.
\<close>

section \<open>Units\<close>

definition WASM_PAGE_SIZE :: usize where
  "WASM_PAGE_SIZE = 65536"

definition WASM_MAX_PAGES :: u32 where
  "WASM_MAX_PAGES = 65536"

type_synonym Pages = u32
type_synonym Bytes = usize

definition pages_max_value :: Pages where
  "pages_max_value = WASM_MAX_PAGES"

definition pages_checked_add :: "Pages \<Rightarrow> Pages \<Rightarrow> Pages option" where
  "pages_checked_add a rhs =
     (let added = unat a + unat rhs
      in if added \<le> unat WASM_MAX_PAGES then Some (as_u32 added) else None)"

definition bytes_from_pages :: "Pages \<Rightarrow> Bytes" where
  "bytes_from_pages p = unat p * WASM_PAGE_SIZE"

definition pages_bytes :: "Pages \<Rightarrow> Bytes" where
  "pages_bytes p = bytes_from_pages p"

datatype PageCountOutOfRange = PageCountOutOfRange

definition pages_try_from_bytes :: "Bytes \<Rightarrow> (Pages, PageCountOutOfRange) outcome" where
  "pages_try_from_bytes b = ok_or PageCountOutOfRange (u32_try_from (b div WASM_PAGE_SIZE))"

section \<open>Value and external types\<close>

datatype wtype = I32 | I64 | F32 | F64 | V128 | ExternRef | FuncRef | ExceptionRef

definition is_num :: "wtype \<Rightarrow> bool" where
  "is_num t = (t \<in> {I32, I64, F32, F64, V128})"

definition is_ref :: "wtype \<Rightarrow> bool" where
  "is_ref t = (t \<in> {ExternRef, FuncRef, ExceptionRef})"

record FunctionType =
  ft_params :: "wtype list"
  ft_results :: "wtype list"

datatype Mutability = Const | Var

definition is_mutable :: "Mutability \<Rightarrow> bool" where
  "is_mutable m = (case m of Var \<Rightarrow> True | Const \<Rightarrow> False)"

definition mutability_from_bool :: "bool \<Rightarrow> Mutability" where
  "mutability_from_bool b = (if b then Var else Const)"

record GlobalType =
  gt_ty :: wtype
  gt_mutability :: Mutability

datatype TagKind = Exception

record TagType =
  tag_kind :: TagKind
  tag_params :: "wtype list"

definition tag_from_fn_type :: "TagKind \<Rightarrow> FunctionType \<Rightarrow> TagType" where
  "tag_from_fn_type k ty = \<lparr>tag_kind = k, tag_params = ft_params ty\<rparr>"

record TableType =
  tt_ty :: wtype
  tt_minimum :: u32
  tt_maximum :: "u32 option"

record MemoryType =
  mt_minimum :: Pages
  mt_maximum :: "Pages option"
  mt_shared :: bool

datatype ExternType =
    EFunction FunctionType
  | EGlobal GlobalType
  | ETable TableType
  | EMemory MemoryType
  | ETag TagType

section \<open>Import compatibility\<close>

definition is_global_compatible :: "GlobalType \<Rightarrow> GlobalType \<Rightarrow> bool" where
  "is_global_compatible exported imported =
     (gt_ty exported = gt_ty imported \<and> gt_mutability imported = gt_mutability exported)"

definition is_table_element_type_compatible :: "wtype \<Rightarrow> wtype \<Rightarrow> bool" where
  "is_table_element_type_compatible exported_type imported_type =
     (case exported_type of FuncRef \<Rightarrow> True | _ \<Rightarrow> imported_type = exported_type)"

definition maximum_compatible :: "u32 option \<Rightarrow> u32 option \<Rightarrow> bool" where
  "maximum_compatible exported_maximum imported_maximum =
     (case imported_maximum of
        None \<Rightarrow> True
      | Some i \<Rightarrow> (case exported_maximum of None \<Rightarrow> False | Some e \<Rightarrow> e \<le> i))"

definition unwrap_or :: "'a option \<Rightarrow> 'a \<Rightarrow> 'a" where
  "unwrap_or v d = (case v of None \<Rightarrow> d | Some x \<Rightarrow> x)"

definition is_table_compatible :: "TableType \<Rightarrow> TableType \<Rightarrow> u32 option \<Rightarrow> bool" where
  "is_table_compatible exported imported imported_runtime_size =
     (is_table_element_type_compatible (tt_ty exported) (tt_ty imported) \<and>
      tt_minimum imported \<le> unwrap_or imported_runtime_size (tt_minimum exported) \<and>
      maximum_compatible (tt_maximum exported) (tt_maximum imported))"

definition is_memory_compatible :: "MemoryType \<Rightarrow> MemoryType \<Rightarrow> u32 option \<Rightarrow> bool" where
  "is_memory_compatible exported imported imported_runtime_size =
     (mt_minimum imported \<le> unwrap_or imported_runtime_size (mt_minimum exported) \<and>
      maximum_compatible (mt_maximum exported) (mt_maximum imported) \<and>
      mt_shared exported = mt_shared imported)"

fun is_compatible_with :: "ExternType \<Rightarrow> ExternType \<Rightarrow> u32 option \<Rightarrow> bool" where
  "is_compatible_with (EFunction a) (EFunction b) runtime_size = (a = b)"
| "is_compatible_with (EGlobal a) (EGlobal b) runtime_size = is_global_compatible a b"
| "is_compatible_with (ETable a) (ETable b) runtime_size = is_table_compatible a b runtime_size"
| "is_compatible_with (EMemory a) (EMemory b) runtime_size = is_memory_compatible a b runtime_size"
| "is_compatible_with (ETag a) (ETag b) runtime_size = (a = b)"
| "is_compatible_with _ _ _ = False"

section \<open>Implementation styles\<close>

datatype MemoryStyle =
    Dynamic u64
  | Static Pages u64

fun style_offset_guard_size :: "MemoryStyle \<Rightarrow> u64" where
  "style_offset_guard_size (Dynamic g) = g"
| "style_offset_guard_size (Static _ g) = g"

datatype TableStyle = CallerChecksSignature

section \<open>Errors\<close>

datatype MemoryError =
    Region string
  | CouldNotGrow Pages Pages
  | InvalidMemory string
  | MinimumMemoryTooLarge Pages Pages
  | MaximumMemoryTooLarge Pages Pages
  | MemoryNotShared
  | UnsupportedOperation string
  | AtomicsNotSupported
  | Generic string

datatype ImportError =
    IncompatibleType ExternType ExternType
  | UnknownImport ExternType

datatype LinkError =
    LinkImport string string ImportError
  | LinkResource string

section \<open>Facts on units\<close>

lemma unat_WASM_MAX_PAGES [simp]: "unat WASM_MAX_PAGES = 65536"
  by (simp add: WASM_MAX_PAGES_def)

lemma unat_pages_max_value [simp]: "unat pages_max_value = 65536"
  by (simp add: pages_max_value_def)

lemma WASM_PAGE_SIZE_pos [simp]: "0 < WASM_PAGE_SIZE"
  by (simp add: WASM_PAGE_SIZE_def)

lemma pages_checked_add_Some [arith_simps]:
  "(pages_checked_add a b = Some c) = (unat c = unat a + unat b \<and> unat c \<le> 65536)"
proof
  assume "pages_checked_add a b = Some c"
  then show "unat c = unat a + unat b \<and> unat c \<le> 65536"
    by (auto simp: pages_checked_add_def Let_def unat_as_u32 split: if_splits)
next
  assume h: "unat c = unat a + unat b \<and> unat c \<le> 65536"
  then have "as_u32 (unat a + unat b) = c"
    by (metis as_u32_unat)
  with h show "pages_checked_add a b = Some c"
    by (simp add: pages_checked_add_def Let_def)
qed

lemma pages_bytes_eq: "pages_bytes p = unat p * 65536"
  by (simp add: pages_bytes_def bytes_from_pages_def WASM_PAGE_SIZE_def)

lemma pages_bytes_less: "pages_bytes p < 2 ^ 48"
  using unat_u32_less [of p] by (simp add: pages_bytes_eq)

lemma pages_try_from_bytes_pages [simp]: "pages_try_from_bytes (pages_bytes p) = Ok p"
  by (simp add: pages_try_from_bytes_def pages_bytes_eq WASM_PAGE_SIZE_def u32_try_from_def)

section \<open>Facts on compatibility\<close>

text \<open>
  The sizes an object with the given limits may have over its lifetime. Sizes are unbounded
  naturals here, so an absent maximum is a promise of nothing.
\<close>

definition limit_sizes :: "nat \<Rightarrow> u32 option \<Rightarrow> nat set" where
  "limit_sizes lo hi = {n. lo \<le> n \<and> (case hi of None \<Rightarrow> True | Some m \<Rightarrow> n \<le> unat m)}"

lemma limit_sizes_subset:
  assumes "case eh of None \<Rightarrow> True | Some m \<Rightarrow> elo \<le> unat m"
  shows "(limit_sizes elo eh \<subseteq> limit_sizes ilo ih) = (ilo \<le> elo \<and> maximum_compatible eh ih)"
proof
  assume sub: "limit_sizes elo eh \<subseteq> limit_sizes ilo ih"
  have lo: "elo \<in> limit_sizes elo eh"
    using assms by (simp add: limit_sizes_def)
  have hi: "maximum_compatible eh ih"
  proof (cases ih)
    case None
    then show ?thesis by (simp add: maximum_compatible_def)
  next
    case (Some i)
    show ?thesis
    proof (cases eh)
      case None
      then have "max elo (Suc (unat i)) \<in> limit_sizes elo eh"
        by (simp add: limit_sizes_def)
      with sub Some show ?thesis by (fastforce simp: limit_sizes_def)
    next
      case (Some e)
      with assms have "unat e \<in> limit_sizes elo eh"
        by (simp add: limit_sizes_def)
      with sub have "unat e \<in> limit_sizes ilo ih" by blast
      with Some \<open>ih = Some i\<close> show ?thesis
        by (simp add: limit_sizes_def maximum_compatible_def word_le_nat_alt)
    qed
  qed
  from sub lo have "ilo \<le> elo" by (auto simp: limit_sizes_def)
  with hi show "ilo \<le> elo \<and> maximum_compatible eh ih" by simp
next
  assume "ilo \<le> elo \<and> maximum_compatible eh ih"
  then show "limit_sizes elo eh \<subseteq> limit_sizes ilo ih"
    by (auto simp: limit_sizes_def maximum_compatible_def word_le_nat_alt split: option.splits)
qed

lemma maximum_compatible_refl [simp]: "maximum_compatible m m"
  by (simp add: maximum_compatible_def split: option.splits)

lemma maximum_compatible_trans:
  "maximum_compatible a b \<Longrightarrow> maximum_compatible b c \<Longrightarrow> maximum_compatible a c"
  by (auto simp: maximum_compatible_def split: option.splits)

lemma table_element_compatible_refl [simp]: "is_table_element_type_compatible t t"
  by (simp add: is_table_element_type_compatible_def split: wtype.splits)

lemma table_element_compatible_trans:
  "is_table_element_type_compatible a b \<Longrightarrow> is_table_element_type_compatible b c \<Longrightarrow>
   is_table_element_type_compatible a c"
  by (cases a; cases b; simp add: is_table_element_type_compatible_def)

lemma is_compatible_with_refl: "is_compatible_with t t None"
  by (cases t)
    (simp_all add: is_global_compatible_def is_table_compatible_def is_memory_compatible_def
       unwrap_or_def)

lemma is_compatible_with_trans:
  "is_compatible_with a b rs \<Longrightarrow> is_compatible_with b c None \<Longrightarrow> is_compatible_with a c rs"
  by (induction a b rs rule: is_compatible_with.induct; cases c)
    (auto simp: is_global_compatible_def is_table_compatible_def is_memory_compatible_def
       unwrap_or_def intro: maximum_compatible_trans table_element_compatible_trans
       split: option.splits)

section \<open>Properties\<close>

text \<open>
  C14: For a memory whose own limits are consistent, \<open>is_memory_compatible\<close> decides exactly
  whether every size the exported memory may have from its current size on is a size the
  importing module declared, together with agreement on sharing.
\<close>

theorem is_memory_compatible_limits:
  assumes "case mt_maximum exported of None \<Rightarrow> True
           | Some m \<Rightarrow> unwrap_or runtime_size (mt_minimum exported) \<le> m"
  shows "is_memory_compatible exported imported runtime_size =
     (limit_sizes (unat (unwrap_or runtime_size (mt_minimum exported))) (mt_maximum exported)
        \<subseteq> limit_sizes (unat (mt_minimum imported)) (mt_maximum imported) \<and>
      mt_shared exported = mt_shared imported)"
proof -
  from assms have "case mt_maximum exported of None \<Rightarrow> True
      | Some m \<Rightarrow> unat (unwrap_or runtime_size (mt_minimum exported)) \<le> unat m"
    by (simp add: word_le_nat_alt split: option.splits)
  from limit_sizes_subset [OF this, of "unat (mt_minimum imported)" "mt_maximum imported"]
  show ?thesis by (auto simp: is_memory_compatible_def word_le_nat_alt)
qed

theorem is_memory_compatible_limits_witness:
  "\<not> limit_sizes 2 (Some 9) \<subseteq> limit_sizes 1 (Some 8)"
  using is_memory_compatible_limits
    [where exported = "\<lparr>mt_minimum = 1, mt_maximum = Some 9, mt_shared = False\<rparr>"
      and runtime_size = "Some 2"
      and imported = "\<lparr>mt_minimum = 1, mt_maximum = Some 8, mt_shared = False\<rparr>"]
  by (simp add: is_memory_compatible_def maximum_compatible_def unwrap_or_def)



end
