(* ===== verification/Entity.thy ===== *)
theory Entity
  imports Prelude
begin

text \<open>
  The dense index maps of \<open>lib/types/src/entity\<close>: 32-bit entity references with a reserved
  value (\<open>mod.rs\<close>), packed options (\<open>packed_option.rs\<close>), the allocating \<open>PrimaryMap\<close>
  (\<open>primary_map.rs\<close>) and the defaulting \<open>SecondaryMap\<close> with its equality and its serialised
  form (\<open>secondary_map.rs\<close>). The locale \<open>arena\<close> states what a client of an allocating map may
  rely on; \<open>PrimaryMap\<close> and the object store interpret it.
\<close>

section \<open>Entity references\<close>

definition entity_new :: "usize \<Rightarrow> (u32, 'e) outcome" where
  "entity_new index = bind_ok (assert_that (index < unat u32_max)) (\<lambda>_. Ok (as_u32 index))"

definition entity_index :: "u32 \<Rightarrow> usize" where
  "entity_index k = unat k"

definition entity_from_u32 :: "u32 \<Rightarrow> (u32, 'e) outcome" where
  "entity_from_u32 x = bind_ok (assert_that (x < u32_max)) (\<lambda>_. Ok x)"

definition reserved_value :: u32 where
  "reserved_value = u32_max"

definition is_reserved_value :: "u32 \<Rightarrow> bool" where
  "is_reserved_value x = (x = u32_max)"

section \<open>Packed options\<close>

type_synonym PackedOption = u32

definition po_is_none :: "PackedOption \<Rightarrow> bool" where
  "po_is_none p = is_reserved_value p"

definition po_is_some :: "PackedOption \<Rightarrow> bool" where
  "po_is_some p = (\<not> is_reserved_value p)"

definition po_expand :: "PackedOption \<Rightarrow> u32 option" where
  "po_expand p = (if po_is_none p then None else Some p)"

definition po_default :: PackedOption where
  "po_default = reserved_value"

definition po_from_value :: "u32 \<Rightarrow> (PackedOption, 'e) outcome" where
  "po_from_value t = bind_ok (assert_that (\<not> is_reserved_value t)) (\<lambda>_. Ok t)"

fun po_from_option :: "u32 option \<Rightarrow> (PackedOption, 'e) outcome" where
  "po_from_option None = Ok po_default"
| "po_from_option (Some t) = po_from_value t"

definition po_take :: "PackedOption \<Rightarrow> u32 option \<times> PackedOption" where
  "po_take p = (po_expand p, po_default)"

section \<open>PrimaryMap\<close>

type_synonym 'v PrimaryMap = "'v list"

definition pm_new :: "'v PrimaryMap" where
  "pm_new = []"

definition pm_is_valid :: "'v PrimaryMap \<Rightarrow> u32 \<Rightarrow> bool" where
  "pm_is_valid m k = (entity_index k < length m)"

definition pm_get :: "'v PrimaryMap \<Rightarrow> u32 \<Rightarrow> 'v option" where
  "pm_get m k = nth_opt m (entity_index k)"

definition pm_is_empty :: "'v PrimaryMap \<Rightarrow> bool" where
  "pm_is_empty m = (m = [])"

definition pm_len :: "'v PrimaryMap \<Rightarrow> usize" where
  "pm_len m = length m"

definition pm_clear :: "'v PrimaryMap \<Rightarrow> 'v PrimaryMap" where
  "pm_clear m = []"

definition pm_next_key :: "'v PrimaryMap \<Rightarrow> (u32, 'e) outcome" where
  "pm_next_key m = entity_new (length m)"

definition pm_push :: "'v PrimaryMap \<Rightarrow> 'v \<Rightarrow> (u32 \<times> 'v PrimaryMap, 'e) outcome" where
  "pm_push m v = bind_ok (pm_next_key m) (\<lambda>k. Ok (k, m @ [v]))"

definition pm_last :: "'v PrimaryMap \<Rightarrow> 'v option" where
  "pm_last m = (if m = [] then None else Some (last m))"

text \<open>Indexing panics on an unknown key; the mutable form replaces the entry.\<close>

definition pm_index :: "'v PrimaryMap \<Rightarrow> u32 \<Rightarrow> ('v, 'e) outcome" where
  "pm_index m k = unwrap (pm_get m k)"

definition pm_index_mut :: "'v PrimaryMap \<Rightarrow> u32 \<Rightarrow> 'v \<Rightarrow> ('v PrimaryMap, 'e) outcome" where
  "pm_index_mut m k v = bind_ok (pm_index m k) (\<lambda>_. Ok (m[entity_index k := v]))"

definition pm_iter :: "'v PrimaryMap \<Rightarrow> (u32 \<times> 'v) list" where
  "pm_iter m = zip (map as_u32 [0..<length m]) m"

section \<open>SecondaryMap\<close>

record 'v SecondaryMap =
  sm_elems :: "'v list"
  sm_default :: 'v

definition sm_with_default :: "'v \<Rightarrow> 'v SecondaryMap" where
  "sm_with_default d = \<lparr>sm_elems = [], sm_default = d\<rparr>"

definition sm_get :: "'v SecondaryMap \<Rightarrow> u32 \<Rightarrow> 'v option" where
  "sm_get m k = nth_opt (sm_elems m) (entity_index k)"

definition sm_is_empty :: "'v SecondaryMap \<Rightarrow> bool" where
  "sm_is_empty m = (sm_elems m = [])"

definition sm_clear :: "'v SecondaryMap \<Rightarrow> 'v SecondaryMap" where
  "sm_clear m = m\<lparr>sm_elems := []\<rparr>"

definition vec_resize :: "'v list \<Rightarrow> usize \<Rightarrow> 'v \<Rightarrow> 'v list" where
  "vec_resize xs n v = take n xs @ replicate (n - length xs) v"

definition sm_resize :: "'v SecondaryMap \<Rightarrow> usize \<Rightarrow> 'v SecondaryMap" where
  "sm_resize m n = m\<lparr>sm_elems := vec_resize (sm_elems m) n (sm_default m)\<rparr>"

definition sm_index :: "'v SecondaryMap \<Rightarrow> u32 \<Rightarrow> 'v" where
  "sm_index m k = (case nth_opt (sm_elems m) (entity_index k) of
                     None \<Rightarrow> sm_default m | Some v \<Rightarrow> v)"

text \<open>\<open>m[k] = v\<close>: the mutable index grows the vector up to \<open>k\<close> and stores the value there.\<close>

definition sm_index_mut :: "'v SecondaryMap \<Rightarrow> u32 \<Rightarrow> 'v \<Rightarrow> 'v SecondaryMap" where
  "sm_index_mut m k v =
     (let i = entity_index k;
          es = (if length (sm_elems m) \<le> i
                then vec_resize (sm_elems m) (i + 1) (sm_default m) else sm_elems m)
      in m\<lparr>sm_elems := es[i := v]\<rparr>)"

definition sm_eq :: "'v SecondaryMap \<Rightarrow> 'v SecondaryMap \<Rightarrow> bool" where
  "sm_eq m other =
     (let min_size = min (length (sm_elems m)) (length (sm_elems other))
      in sm_default m = sm_default other \<and>
         take min_size (sm_elems m) = take min_size (sm_elems other) \<and>
         list_all (\<lambda>e. e = sm_default m) (drop min_size (sm_elems m)) \<and>
         list_all (\<lambda>e. e = sm_default other) (drop min_size (sm_elems other)))"

text \<open>
  The serialised form is a sequence of optional values: the default first, then the entries
  up to the last one that differs from the default, an entry equal to the default as \<open>None\<close>.
\<close>

fun sm_elems_cnt :: "'v list \<Rightarrow> 'v \<Rightarrow> usize \<Rightarrow> usize" where
  "sm_elems_cnt es d 0 = 0"
| "sm_elems_cnt es d (Suc n) = (if es ! n = d then sm_elems_cnt es d n else Suc n)"

definition sm_serialize :: "'v SecondaryMap \<Rightarrow> 'v option list" where
  "sm_serialize m =
     (let elems_cnt = sm_elems_cnt (sm_elems m) (sm_default m) (length (sm_elems m))
      in Some (sm_default m) #
         map (\<lambda>e. if e = sm_default m then None else Some e) (take elems_cnt (sm_elems m)))"

datatype SerdeError = DefaultValueRequired

fun sm_visit_elems ::
  "'v SecondaryMap \<Rightarrow> 'v \<Rightarrow> usize \<Rightarrow> 'v option list \<Rightarrow> ('v SecondaryMap, SerdeError) outcome" where
  "sm_visit_elems m default_val idx [] = Ok m"
| "sm_visit_elems m default_val idx (val # seq) =
     bind_ok (entity_new idx) (\<lambda>k.
       sm_visit_elems (sm_index_mut m k (case val of None \<Rightarrow> default_val | Some v \<Rightarrow> v))
         default_val (idx + 1) seq)"

fun sm_visit_seq :: "'v option list \<Rightarrow> ('v SecondaryMap, SerdeError) outcome" where
  "sm_visit_seq (Some default_val # seq) =
     sm_visit_elems (sm_with_default default_val) default_val 0 seq"
| "sm_visit_seq _ = Err DefaultValueRequired"

section \<open>Clients of an allocating map\<close>

text \<open>The loop \<open>for v in values { out.push(alloc(v)) }\<close> that instantiation uses repeatedly.\<close>

fun alloc_list ::
  "('s \<Rightarrow> 'v \<Rightarrow> ('k \<times> 's, 'e) outcome) \<Rightarrow> 's \<Rightarrow> 'v list \<Rightarrow> ('k list \<times> 's, 'e) outcome" where
  "alloc_list alloc s [] = Ok ([], s)"
| "alloc_list alloc s (v # vs) =
     bind_ok (alloc s v) (\<lambda>(k, s').
       bind_ok (alloc_list alloc s' vs) (\<lambda>(ks, s''). Ok (k # ks, s'')))"

locale arena =
  fixes alloc :: "'s \<Rightarrow> 'v \<Rightarrow> ('k \<times> 's, 'e) outcome"
    and find :: "'s \<Rightarrow> 'k \<Rightarrow> 'v option"
  assumes alloc_find: "alloc s v = Ok (k, s') \<Longrightarrow> find s' k = Some v"
    and alloc_fresh: "alloc s v = Ok (k, s') \<Longrightarrow> find s k = None"
    and alloc_frame: "alloc s v = Ok (k, s') \<Longrightarrow> find s j = Some w \<Longrightarrow> find s' j = Some w"
begin

lemma alloc_list_frame:
  "alloc_list alloc s vs = Ok (ks, s') \<Longrightarrow> find s j = Some w \<Longrightarrow> find s' j = Some w"
  by (induction vs arbitrary: s ks) (auto simp: outcome_simps dest: alloc_frame)

lemma alloc_list_find:
  "alloc_list alloc s vs = Ok (ks, s') \<Longrightarrow> map (find s') ks = map Some vs"
proof (induction vs arbitrary: s ks)
  case (Cons v vs)
  then obtain k s1 ks' where step: "alloc s v = Ok (k, s1)"
    and rest: "alloc_list alloc s1 vs = Ok (ks', s')" and ks: "ks = k # ks'"
    by (auto simp: outcome_simps)
  have "find s' k = Some v"
    using alloc_list_frame [OF rest alloc_find [OF step]] .
  with ks Cons.IH [OF rest] show ?case by simp
qed simp

lemma alloc_list_fresh:
  "alloc_list alloc s vs = Ok (ks, s') \<Longrightarrow> k \<in> set ks \<Longrightarrow> find s k = None"
proof (induction vs arbitrary: s ks)
  case (Cons v vs)
  then obtain k1 s1 ks' where step: "alloc s v = Ok (k1, s1)"
    and rest: "alloc_list alloc s1 vs = Ok (ks', s')" and ks: "ks = k1 # ks'"
    by (auto simp: outcome_simps)
  show ?case
  proof (cases "k = k1")
    case True
    with step show ?thesis by (simp add: alloc_fresh)
  next
    case False
    with Cons.prems ks have "find s1 k = None" by (simp add: Cons.IH [OF rest])
    with alloc_frame [OF step, of k] show ?thesis by (cases "find s k") auto
  qed
qed simp

lemma alloc_list_distinct:
  "alloc_list alloc s vs = Ok (ks, s') \<Longrightarrow> distinct ks"
proof (induction vs arbitrary: s ks)
  case Nil
  then show ?case by simp
next
  case (Cons v vs)
  then obtain k s1 ks' where step: "alloc s v = Ok (k, s1)"
    and rest: "alloc_list alloc s1 vs = Ok (ks', s')" and ks: "ks = k # ks'"
    by (auto simp: outcome_simps)
  from step have "find s1 k = Some v" by (rule alloc_find)
  with rest have "k \<notin> set ks'" by (auto dest: alloc_list_fresh)
  with ks Cons.IH [OF rest] show ?case by simp
qed

lemmas alloc_list_specs = alloc_list_find alloc_list_frame alloc_list_distinct

end

section \<open>Facts\<close>

lemma entity_new_eq [outcome_simps]:
  "(entity_new i = Ok k) = (i < 4294967295 \<and> k = as_u32 i)"
  "(entity_new i = Panic) = (4294967295 \<le> i)"
  "entity_new i \<noteq> Err e"
  by (auto simp: entity_new_def outcome_simps)

lemma entity_new_unat: "(entity_new i = Ok k) = (i = unat k \<and> i < 4294967295)"
  by (auto simp: outcome_simps as_u32_def unat_of_nat)

lemma entity_index_as_u32: "i < 4294967295 \<Longrightarrow> entity_index (as_u32 i) = i"
  by (simp add: entity_index_def unat_as_u32)

interpretation pm: arena pm_push pm_get
proof unfold_locales
  fix s :: "'v PrimaryMap" and v k s'
  assume "pm_push s v = Ok (k, s')"
  then have len: "length s < 4294967295" and k: "k = as_u32 (length s)" and s': "s' = s @ [v]"
    by (auto simp: pm_push_def pm_next_key_def outcome_simps)
  have idx: "entity_index k = length s"
    using len k by (simp add: entity_index_as_u32)
  show "pm_get s' k = Some v"
    by (simp add: pm_get_def idx s')
  show "pm_get s k = None"
    by (simp add: pm_get_def idx nth_opt_def)
  show "pm_get s' j = Some w" if "pm_get s j = Some w" for j w
    using that by (auto simp: pm_get_def s' outcome_simps nth_append)
qed

lemma length_vec_resize [simp]: "length (vec_resize xs n v) = n"
  by (simp add: vec_resize_def)

lemma nth_vec_resize: "i < n \<Longrightarrow> vec_resize xs n v ! i = (if i < length xs then xs ! i else v)"
  by (simp add: vec_resize_def nth_append)

lemma sm_index_index_mut:
  "sm_index (sm_index_mut m k v) j = (if j = k then v else sm_index m j)"
  by (auto simp: sm_index_def sm_index_mut_def nth_opt_def Let_def entity_index_def
       nth_vec_resize nth_list_update word_unat_eq_iff)

lemma sm_index_cases:
  "i < 4294967295 \<Longrightarrow>
   sm_index m (as_u32 i) = (if i < length (sm_elems m) then sm_elems m ! i else sm_default m)"
  by (simp add: sm_index_def nth_opt_def entity_index_as_u32)

lemma sm_eq_nth:
  "sm_eq a b =
     (sm_default a = sm_default b \<and>
      (\<forall>i. (if i < length (sm_elems a) then sm_elems a ! i else sm_default a) =
           (if i < length (sm_elems b) then sm_elems b ! i else sm_default b)))"
  by (auto simp: sm_eq_def Let_def list_all_drop take_eq_iff min_def split: if_splits)

text \<open>Deserialising replays the entries one by one on the all-default map.\<close>

lemma sm_visit_elems_Ok:
  "idx + length seq < 4294967295 \<Longrightarrow> length (sm_elems m) = idx \<Longrightarrow>
   sm_visit_elems m d idx seq =
     Ok (m\<lparr>sm_elems := sm_elems m @ map (\<lambda>v. case v of None \<Rightarrow> d | Some x \<Rightarrow> x) seq\<rparr>)"
proof (induction seq arbitrary: m idx)
  case Nil
  then show ?case by simp
next
  case (Cons v seq)
  let ?x = "case v of None \<Rightarrow> d | Some x \<Rightarrow> x"
  have new: "entity_new idx = (Ok (as_u32 idx) :: (u32, SerdeError) outcome)"
    using Cons.prems by (simp add: outcome_simps)
  have ei: "entity_index (as_u32 idx) = idx"
    using Cons.prems by (simp add: entity_index_as_u32)
  have "sm_index_mut m (as_u32 idx) ?x = m\<lparr>sm_elems := sm_elems m @ [?x]\<rparr>"
    using Cons.prems(2)
    by (simp add: sm_index_mut_def ei vec_resize_def list_update_append)
  moreover have "sm_visit_elems (m\<lparr>sm_elems := sm_elems m @ [?x]\<rparr>) d (idx + 1) seq =
      Ok (m\<lparr>sm_elems := (sm_elems m @ [?x]) @
            map (\<lambda>v. case v of None \<Rightarrow> d | Some x \<Rightarrow> x) seq\<rparr>)"
    using Cons.prems by (subst Cons.IH) auto
  ultimately show ?case by (simp add: new)
qed

lemma sm_elems_cnt_le: "sm_elems_cnt es d n \<le> n"
  by (induction n) auto

lemma sm_elems_cnt_tail:
  "sm_elems_cnt es d n \<le> i \<Longrightarrow> i < n \<Longrightarrow> es ! i = d"
  by (induction n) (auto split: if_splits simp: less_Suc_eq)

section \<open>Properties\<close>

text \<open>
  Two secondary maps are equal in the sense of \<open>PartialEq\<close> exactly when they have the
  same default and every key reads the same value in both, whatever the lengths of the
  vectors behind them.
\<close>

lemma sm_eq_pointwise:
  assumes "length (sm_elems a) < 4294967295" and "length (sm_elems b) < 4294967295"
  shows "sm_eq a b = (sm_default a = sm_default b \<and> (\<forall>k. sm_index a k = sm_index b k))"
  (is "_ = (?d \<and> ?k)")
proof -
  have "(\<forall>i. (if i < length (sm_elems a) then sm_elems a ! i else sm_default a) =
             (if i < length (sm_elems b) then sm_elems b ! i else sm_default b)) = ?k"
    (is "?n = _") if "?d"
  proof
    assume n: ?n
    show ?k
    proof
      fix k
      show "sm_index a k = sm_index b k"
        using spec [OF n, of "entity_index k"]
        by (auto simp: sm_index_def nth_opt_def split: if_splits)
    qed
  next
    assume k: ?k
    show ?n
    proof
      fix i
      show "(if i < length (sm_elems a) then sm_elems a ! i else sm_default a) =
            (if i < length (sm_elems b) then sm_elems b ! i else sm_default b)"
      proof (cases "i < 4294967295")
        case True
        then show ?thesis
          using spec [OF k, of "as_u32 i"] by (simp only: sm_index_cases)
      next
        case False
        with assms that show ?thesis by simp
      qed
    qed
  qed
  then show ?thesis unfolding sm_eq_nth by blast
qed

text \<open>
  Serialising a secondary map and reading it back never fails and gives a map equal to
  the original, with no more entries than it had.
\<close>

lemma sm_deserialize_serialize:
  assumes "length (sm_elems m) < 4294967295"
  shows "\<exists>m'. sm_visit_seq (sm_serialize m) = Ok m' \<and> sm_eq m' m \<and>
              length (sm_elems m') \<le> length (sm_elems m)"
proof -
  let ?d = "sm_default m"
  let ?n = "sm_elems_cnt (sm_elems m) ?d (length (sm_elems m))"
  let ?seq = "map (\<lambda>e. if e = ?d then None else Some e) (take ?n (sm_elems m))"
  have le: "?n \<le> length (sm_elems m)" by (rule sm_elems_cnt_le)
  have "map (\<lambda>v. case v of None \<Rightarrow> ?d | Some x \<Rightarrow> x) ?seq = take ?n (sm_elems m)"
    by (simp add: o_def map_idI)
  then have "sm_visit_seq (sm_serialize m) = Ok (m\<lparr>sm_elems := take ?n (sm_elems m)\<rparr>)"
    using assms le sm_visit_elems_Ok [of 0 ?seq "sm_with_default ?d" ?d]
    by (simp add: sm_serialize_def Let_def sm_with_default_def)
  moreover have "sm_eq (m\<lparr>sm_elems := take ?n (sm_elems m)\<rparr>) m"
    by (auto simp: sm_eq_nth not_less intro: sm_elems_cnt_tail [symmetric])
  ultimately show ?thesis by auto
qed

end
