(* ===== verification/Object_Store.thy ===== *)
theory Object_Store
  imports Entity
begin

text \<open>
  The object store of \<open>lib/vm/src/store.rs\<close>. Every kind of object lives in its own vector and
  is named by a handle, a non-zero index; the trait method \<open>StoreObject::list\<close> is the choice
  of that vector, so the operations below take it as their first argument. A mutable
  reference into the vector is modelled by the position it points at.
\<close>

section \<open>Handles\<close>

type_synonym InternalStoreHandle = nat
type_synonym StoreId = nat

definition ish_new ::
  "'a list \<Rightarrow> 'a \<Rightarrow> (InternalStoreHandle \<times> 'a list, 'e) outcome" where
  "ish_new xs v = bind_ok (usize_add (length xs) 1) (\<lambda>idx. Ok (idx, xs @ [v]))"

definition ish_index :: "InternalStoreHandle \<Rightarrow> usize" where
  "ish_index h = h"

definition ish_from_index :: "usize \<Rightarrow> InternalStoreHandle option" where
  "ish_from_index idx = (if idx = 0 then None else Some idx)"

text \<open>\<open>&T::list(ctx)[self.idx.get() - 1]\<close>, shared and mutable.\<close>

definition ish_get :: "'a list \<Rightarrow> InternalStoreHandle \<Rightarrow> ('a, 'e) outcome" where
  "ish_get xs h = bind_ok (usize_sub h 1) (\<lambda>i. unwrap (nth_opt xs i))"

definition ish_get_mut :: "'a list \<Rightarrow> InternalStoreHandle \<Rightarrow> (usize, 'e) outcome" where
  "ish_get_mut xs h =
     bind_ok (usize_sub h 1) (\<lambda>i. bind_ok (unwrap (nth_opt xs i)) (\<lambda>_. Ok i))"

definition ish_set :: "'a list \<Rightarrow> InternalStoreHandle \<Rightarrow> 'a \<Rightarrow> ('a list, 'e) outcome" where
  "ish_set xs h v = bind_ok (ish_get_mut xs h) (\<lambda>i. Ok (xs[i := v]))"

definition ish_valid :: "'a list \<Rightarrow> InternalStoreHandle \<Rightarrow> bool" where
  "ish_valid xs h = (0 < h \<and> h \<le> length xs)"

section \<open>Pairs of mutable references\<close>

text \<open>\<open>slice::split_at_mut\<close> gives the two halves as ranges of positions.\<close>

definition split_at_mut :: "'a list \<Rightarrow> usize \<Rightarrow> ((usize \<times> usize) \<times> (usize \<times> usize), 'e) outcome"
  where
  "split_at_mut xs mid =
     bind_ok (assert_that (mid \<le> length xs)) (\<lambda>_. Ok ((0, mid), (mid, length xs)))"

definition slice_at :: "usize \<times> usize \<Rightarrow> usize \<Rightarrow> (usize, 'e) outcome" where
  "slice_at r i = bind_ok (assert_that (i < snd r - fst r)) (\<lambda>_. Ok (fst r + i))"

definition get_2_mut ::
  "'a list \<Rightarrow> InternalStoreHandle \<Rightarrow> InternalStoreHandle \<Rightarrow> (usize \<times> usize, 'e) outcome" where
  "get_2_mut xs a b =
     bind_ok (assert_that (ish_index a \<noteq> ish_index b)) (\<lambda>_.
       if ish_index a < ish_index b
       then bind_ok (split_at_mut xs (ish_index b)) (\<lambda>(low, high).
              bind_ok (slice_at low (ish_index a)) (\<lambda>i.
                bind_ok (slice_at high 0) (\<lambda>j. Ok (i, j))))
       else bind_ok (split_at_mut xs (ish_index a)) (\<lambda>(low, high).
              bind_ok (slice_at high 0) (\<lambda>i.
                bind_ok (slice_at low (ish_index a)) (\<lambda>j. Ok (i, j)))))"

section \<open>Handles that carry the store they belong to\<close>

record StoreHandle =
  sh_id :: StoreId
  sh_internal :: InternalStoreHandle

definition sh_new ::
  "StoreId \<Rightarrow> 'a list \<Rightarrow> 'a \<Rightarrow> (StoreHandle \<times> 'a list, 'e) outcome" where
  "sh_new sid xs v =
     bind_ok (ish_new xs v) (\<lambda>(h, xs'). Ok (\<lparr>sh_id = sid, sh_internal = h\<rparr>, xs'))"

definition sh_get :: "StoreId \<Rightarrow> 'a list \<Rightarrow> StoreHandle \<Rightarrow> ('a, 'e) outcome" where
  "sh_get sid xs h =
     bind_ok (assert_that (sh_id h = sid)) (\<lambda>_. ish_get xs (sh_internal h))"

definition sh_get_mut :: "StoreId \<Rightarrow> 'a list \<Rightarrow> StoreHandle \<Rightarrow> (usize, 'e) outcome" where
  "sh_get_mut sid xs h =
     bind_ok (assert_that (sh_id h = sid)) (\<lambda>_. ish_get_mut xs (sh_internal h))"

section \<open>Where the data used by compiled code lives\<close>

text \<open>
  \<open>MaybeInstanceOwned\<close>: a definition that compiled code reads is either boxed by the host or
  stored at an address inside the \<open>VMContext\<close> of an instance. Each such cell has one owner, so
  the model keeps the current contents of the cell with the pointer.
\<close>

datatype 'a MaybeInstanceOwned = Host 'a | Instance nat 'a

fun owned_value :: "'a MaybeInstanceOwned \<Rightarrow> 'a" where
  "owned_value (Host d) = d"
| "owned_value (Instance p d) = d"

fun owned_update :: "('a \<Rightarrow> 'a) \<Rightarrow> 'a MaybeInstanceOwned \<Rightarrow> 'a MaybeInstanceOwned" where
  "owned_update f (Host d) = Host (f d)"
| "owned_update f (Instance p d) = Instance p (f d)"

lemma owned_value_update [simp]: "owned_value (owned_update f m) = f (owned_value m)"
  by (cases m) auto

section \<open>Facts\<close>

lemma ish_get_Ok [outcome_simps]:
  "(ish_get xs h = Ok x) = (ish_valid xs h \<and> x = xs ! (h - 1))"
  by (auto simp: ish_get_def outcome_simps ish_valid_def)

lemma ish_get_Panic [outcome_simps]: "(ish_get xs h = Panic) = (\<not> ish_valid xs h)"
  by (auto simp: ish_get_def outcome_simps ish_valid_def)

lemma ish_get_not_Err [outcome_simps]: "ish_get xs h \<noteq> Err e"
  by (auto simp: ish_get_def outcome_simps)

lemma ish_get_mut_eq [outcome_simps]:
  "(ish_get_mut xs h = Ok i) = (ish_valid xs h \<and> i = h - 1)"
  "(ish_get_mut xs h = Panic) = (\<not> ish_valid xs h)"
  "ish_get_mut xs h \<noteq> Err e"
  by (auto simp: ish_get_mut_def outcome_simps ish_valid_def)

lemma ish_set_eq [outcome_simps]:
  "(ish_set xs h v = Ok ys) = (ish_valid xs h \<and> ys = xs[h - 1 := v])"
  "(ish_set xs h v = Panic) = (\<not> ish_valid xs h)"
  "ish_set xs h v \<noteq> Err e"
  by (auto simp: ish_set_def outcome_simps)

definition ish_find :: "'a list \<Rightarrow> InternalStoreHandle \<Rightarrow> 'a option" where
  "ish_find xs h = (if ish_valid xs h then Some (xs ! (h - 1)) else None)"

interpretation ish: arena ish_new ish_find
  by unfold_locales
    (auto simp: ish_new_def ish_find_def ish_valid_def outcome_simps nth_append split: if_splits)

lemma ish_valid_set [simp]: "ish_valid (xs[i := v]) h = ish_valid xs h"
  by (simp add: ish_valid_def)

lemma ish_set_get:
  "ish_set xs h v = Ok ys \<Longrightarrow> ish_get ys h = Ok v"
  by (auto simp: outcome_simps ish_valid_def)

lemma ish_set_get_other:
  "ish_set xs h v = Ok ys \<Longrightarrow> h' \<noteq> h \<Longrightarrow> ish_get ys h' = ish_get xs h'"
  by (auto simp: outcome_simps ish_valid_def ish_get_def usize_sub_def nth_opt_def
       nth_list_update)

lemma get_2_mut_ascending:
  "ish_valid xs a \<Longrightarrow> ish_valid xs b \<Longrightarrow> a < b \<Longrightarrow>
   get_2_mut xs a b = (if b < length xs then Ok (a, b) else Panic)"
  by (simp add: get_2_mut_def ish_index_def split_at_mut_def slice_at_def ish_valid_def)

lemma get_2_mut_descending:
  "ish_valid xs a \<Longrightarrow> b < a \<Longrightarrow> get_2_mut xs a b = Panic"
  by (simp add: get_2_mut_def ish_index_def split_at_mut_def slice_at_def ish_valid_def
      assert_that_def)

section \<open>Properties\<close>

text \<open>
  C11: Adding any list of objects to a store gives pairwise distinct handles, each of which
  reads back the object it was made for, and every handle that was valid before still reads
  the object it read before.
\<close>

theorem store_handles:
  assumes "alloc_list ish_new xs vs = (Ok (hs, ys) :: (_, unit) outcome)"
  shows "distinct hs \<and> length hs = length vs \<and>
     (\<forall>i < length vs. ish_get ys (hs ! i) = (Ok (vs ! i) :: (_, unit) outcome)) \<and>
     (\<forall>h v. ish_get xs h = (Ok v :: (_, unit) outcome) \<longrightarrow>
            ish_get ys h = (Ok v :: (_, unit) outcome))"
proof -
  have get: "(ish_get zs h = (Ok v :: (_, unit) outcome)) = (ish_find zs h = Some v)" for zs h v
    by (auto simp: outcome_simps ish_find_def)
  from assms have find: "map (ish_find ys) hs = map Some vs"
    by (rule ish.alloc_list_find)
  then have "length hs = length vs" by (rule map_eq_imp_length_eq)
  moreover from find have "ish_find ys (hs ! i) = Some (vs ! i)" if "i < length vs" for i
    using that calculation by (metis nth_map)
  ultimately show ?thesis
    using assms unfolding get by (blast intro: ish.alloc_list_distinct ish.alloc_list_frame)
qed

theorem store_handles_witness:
  "ish_get ''abc'' 1 = (Ok (CHR ''a'') :: (_, unit) outcome) \<and>
   ish_get ''abc'' 3 = (Ok (CHR ''c'') :: (_, unit) outcome)"
  using store_handles [of "''a''" "''bc''" "[2, 3]" "''abc''"]
  by (simp add: ish_new_def usize_add_def usize_checked_add_def ish_get_def usize_sub_def
      nth_opt_def)

text \<open>
  \<open>get_2_mut\<close> uses the one-based index of a handle as a zero-based position. For two
  valid handles in ascending order it therefore never returns the two objects the handles
  name: it returns their successors, or panics when there is none. In descending order it
  always panics.
\<close>

lemma get_2_mut_off_by_one:
  assumes "ish_valid xs a" and "ish_valid xs b" and "a \<noteq> b"
  shows "get_2_mut xs a b =
           (if a < b \<and> b < length xs then Ok (a, b) else Panic :: (_, unit) outcome) \<and>
         ish_get_mut xs a = (Ok (a - 1) :: (_, unit) outcome) \<and>
         ish_get_mut xs b = (Ok (b - 1) :: (_, unit) outcome)"
proof -
  have "get_2_mut xs a b =
      (if a < b \<and> b < length xs then Ok (a, b) else Panic :: (_, unit) outcome)"
    using assms get_2_mut_ascending [of xs a b] get_2_mut_descending [of xs a b]
    by (cases "a < b") auto
  with assms show ?thesis by (simp add: outcome_simps)
qed

end
