(* ===== verification/Mmap.thy ===== *)
theory Mmap
  imports Prelude
begin

text \<open>
  The memory mappings of \<open>lib/vm/src/mmap.rs\<close> (the Unix variants). The operating system is a
  parameter: \<open>os\<close> collects the calls the code makes (\<open>mmap\<close>, \<open>munmap\<close>, \<open>msync\<close>, \<open>region::protect\<close>
  and the file operations for backing files), each a function of the system state. The state
  holds the bytes of the address space, which addresses are mapped and which are readable and
  writable; touching any other address ends the process and is modelled as \<open>Panic\<close>. What the
  proofs use of the system is the predicate \<open>os_ok\<close>, the documented behaviour of these calls.

  An error return leaves the Rust objects as they were; the model does not track what a
  failed call did to the system state.
\<close>

section \<open>The operating system\<close>

record os_state =
  st_heap :: heap
  st_mapped :: "nat \<Rightarrow> bool"
  st_rw :: "nat \<Rightarrow> bool"
  st_kernel :: nat

datatype prot = PROT_NONE | PROT_READ_WRITE

record map_flags =
  mf_anon :: bool
  mf_shared :: bool

record os =
  os_page_size :: usize
  os_mmap :: "os_state \<Rightarrow> usize \<Rightarrow> prot \<Rightarrow> map_flags \<Rightarrow> nat option \<Rightarrow>
    (usize \<times> os_state, string) outcome"
  os_munmap :: "os_state \<Rightarrow> usize \<Rightarrow> usize \<Rightarrow> os_state option"
  os_msync :: "os_state \<Rightarrow> usize \<Rightarrow> usize \<Rightarrow> os_state option"
  os_protect_rw :: "os_state \<Rightarrow> usize \<Rightarrow> usize \<Rightarrow> (os_state, string) outcome"
  fs_open_rw :: "os_state \<Rightarrow> string \<Rightarrow> (nat \<times> os_state, string) outcome"
  fs_len :: "os_state \<Rightarrow> nat \<Rightarrow> (usize, string) outcome"
  fs_set_len :: "os_state \<Rightarrow> nat \<Rightarrow> usize \<Rightarrow> (os_state, string) outcome"
  fs_write :: "os_state \<Rightarrow> string \<Rightarrow> string \<Rightarrow> os_state"
  fs_exists :: "os_state \<Rightarrow> string \<Rightarrow> bool"
  fs_read_to_string :: "os_state \<Rightarrow> string \<Rightarrow> (string, string) outcome"

definition in_range :: "nat \<Rightarrow> nat \<Rightarrow> nat \<Rightarrow> bool" where
  "in_range p n a = (p \<le> a \<and> a < p + n)"

text \<open>
  What is assumed of the system. A page is a power of two of at most 64 KiB. An anonymous
  private mapping is a fresh, zero-filled region away from the null page, and leaves all other
  memory alone. Unmapping and protecting act on exactly the given range, and unmapping a
  mapped range succeeds.
\<close>

definition page_size_ok :: "os \<Rightarrow> bool" where
  "page_size_ok os = (\<exists>k \<le> 16. os_page_size os = 2 ^ k)"

definition mmap_ok :: "os \<Rightarrow> bool" where
  "mmap_ok os = (\<forall>st n pr p st'. 0 < n \<longrightarrow>
     os_mmap os st n pr \<lparr>mf_anon = True, mf_shared = False\<rparr> None = Ok (p, st') \<longrightarrow>
     0 < p \<and> p + n < usize_limit \<and> (\<forall>a. in_range p n a \<longrightarrow> \<not> st_mapped st a) \<and>
     (\<forall>a. st_heap st' a = (if in_range p n a then 0 else st_heap st a)) \<and>
     (\<forall>a. st_mapped st' a = (in_range p n a \<or> st_mapped st a)) \<and>
     (\<forall>a. st_rw st' a = (if in_range p n a then pr = PROT_READ_WRITE else st_rw st a)))"

definition mmap_no_panic :: "os \<Rightarrow> bool" where
  "mmap_no_panic os = (\<forall>st n pr fl fd. os_mmap os st n pr fl fd \<noteq> Panic)"

definition munmap_ok :: "os \<Rightarrow> bool" where
  "munmap_ok os = (\<forall>st p n. (\<forall>a. in_range p n a \<longrightarrow> st_mapped st a) \<longrightarrow>
     (\<exists>st'. os_munmap os st p n = Some st' \<and>
       (\<forall>a. \<not> in_range p n a \<longrightarrow> st_heap st' a = st_heap st a) \<and>
       (\<forall>a. st_mapped st' a = (\<not> in_range p n a \<and> st_mapped st a)) \<and>
       (\<forall>a. st_rw st' a = (\<not> in_range p n a \<and> st_rw st a))))"

definition protect_ok :: "os \<Rightarrow> bool" where
  "protect_ok os = (\<forall>st p n. (\<forall>st'. os_protect_rw os st p n = Ok st' \<longrightarrow>
       st_heap st' = st_heap st \<and> st_mapped st' = st_mapped st \<and>
       (\<forall>a. st_rw st' a = (in_range p n a \<or> st_rw st a))) \<and>
     os_protect_rw os st p n \<noteq> Panic)"

definition os_ok :: "os \<Rightarrow> bool" where
  "os_ok os = (page_size_ok os \<and> mmap_ok os \<and> mmap_no_panic os \<and> munmap_ok os \<and> protect_ok os)"

section \<open>Paths and numbers of the backing files\<close>

text \<open>\<open>PathBuf::set_extension\<close>: what follows the last dot of the file name is replaced.\<close>

fun split_last :: "char \<Rightarrow> string \<Rightarrow> (string \<times> string) option" where
  "split_last c [] = None"
| "split_last c (x # xs) =
     (case split_last c xs of
        Some (a, b) \<Rightarrow> Some (x # a, b)
      | None \<Rightarrow> if x = c then Some ([], xs) else None)"

definition set_extension :: "string \<Rightarrow> string \<Rightarrow> string" where
  "set_extension path ext =
     (let (dir, name) = (case split_last (CHR ''/'') path of
                           Some (d, n) \<Rightarrow> (d @ ''/'', n) | None \<Rightarrow> ([], path))
      in if name = [] then path
         else (case split_last (CHR ''.'') name of
                 Some (stem, _) \<Rightarrow> if stem = [] then dir @ name @ ''.'' @ ext
                                  else dir @ stem @ ''.'' @ ext
               | None \<Rightarrow> dir @ name @ ''.'' @ ext))"

text \<open>\<open>str::parse::<usize>\<close>, with an optional leading plus sign.\<close>

definition digit_value :: "char \<Rightarrow> nat option" where
  "digit_value c = (let n = of_char c in if 48 \<le> n \<and> n \<le> 57 then Some (n - 48) else None)"

fun parse_digits :: "string \<Rightarrow> nat \<Rightarrow> nat option" where
  "parse_digits [] acc = Some acc"
| "parse_digits (c # cs) acc =
     (case digit_value c of
        None \<Rightarrow> None
      | Some d \<Rightarrow> if acc * 10 + d < usize_limit then parse_digits cs (acc * 10 + d) else None)"

definition parse_usize :: "string \<Rightarrow> (usize, string) outcome" where
  "parse_usize s =
     (let ds = (if s \<noteq> [] \<and> hd s = CHR ''+'' then tl s else s)
      in if ds = [] then Err ''cannot parse integer from empty string''
         else ok_or ''invalid digit found in string'' (parse_digits ds 0))"

section \<open>Mappings\<close>

record Mmap =
  mm_ptr :: usize
  mm_total_size :: usize
  mm_accessible_size :: usize
  mm_sync_on_drop :: bool

datatype MmapType = Private | Shared

text \<open>An empty vector of bytes has the dangling pointer 1.\<close>

definition mmap_new :: Mmap where
  "mmap_new = \<lparr>mm_ptr = 1, mm_total_size = 0, mm_accessible_size = 0, mm_sync_on_drop = False\<rparr>"

definition page_offset :: "os \<Rightarrow> usize \<Rightarrow> usize" where
  "page_offset os n = Bit_Operations.and n (os_page_size os - 1)"

definition mmap_make_accessible ::
  "os \<Rightarrow> os_state \<Rightarrow> Mmap \<Rightarrow> usize \<Rightarrow> usize \<Rightarrow> (os_state, string) outcome" where
  "mmap_make_accessible os st m start len =
     bind_ok (assert_that (page_offset os start = 0)) (\<lambda>_.
     bind_ok (assert_that (page_offset os len = 0)) (\<lambda>_.
     bind_ok (assert_that (len \<le> mm_total_size m)) (\<lambda>_.
     bind_ok (assert_that (start \<le> mm_total_size m - len)) (\<lambda>_.
       os_protect_rw os st (mm_ptr m + start) len))))"

definition mmap_drop :: "os \<Rightarrow> os_state \<Rightarrow> Mmap \<Rightarrow> (os_state, string) outcome" where
  "mmap_drop os st m =
     (if mm_total_size m \<noteq> 0 then
        bind_ok (if mm_sync_on_drop m
                 then unwrap (os_msync os st (mm_ptr m) (mm_total_size m)) else Ok st) (\<lambda>st1.
          unwrap (os_munmap os st1 (mm_ptr m) (mm_total_size m)))
      else Ok st)"

text \<open>
  The treatment of a backing file: it is extended to the size of the mapping, and the length
  it had is remembered in a companion file, which decides how much of it is accessible.
\<close>

definition mmap_backing ::
  "os \<Rightarrow> os_state \<Rightarrow> string \<Rightarrow> usize \<Rightarrow> usize \<Rightarrow> (nat \<times> usize \<times> os_state, string) outcome" where
  "mmap_backing os st0 path mapping_size accessible_size =
     bind_ok (fs_open_rw os st0 path) (\<lambda>(fd, st).
     let accessible_path = set_extension path ''accessible'' in
     bind_ok (fs_len os st fd) (\<lambda>len.
     bind_ok (if len < mapping_size
              then fs_set_len os (fs_write os st accessible_path (decimal len)) fd mapping_size
              else Ok st) (\<lambda>st1.
     bind_ok (if fs_exists os st1 accessible_path
              then bind_ok (fs_read_to_string os st1 accessible_path) parse_usize
              else Ok len) (\<lambda>accessible.
       Ok (fd, min (max accessible_size accessible) mapping_size, st1)))))"

definition mmap_accessible_reserved ::
  "os \<Rightarrow> os_state \<Rightarrow> usize \<Rightarrow> usize \<Rightarrow> string option \<Rightarrow> MmapType \<Rightarrow>
   (Mmap \<times> os_state, string) outcome" where
  "mmap_accessible_reserved os st0 accessible_size0 mapping_size backing_file memory_type =
     bind_ok (assert_that (accessible_size0 \<le> mapping_size)) (\<lambda>_.
     bind_ok (assert_that (page_offset os mapping_size = 0)) (\<lambda>_.
     bind_ok (assert_that (page_offset os accessible_size0 = 0)) (\<lambda>_.
     if mapping_size = 0 then Ok (mmap_new, st0)
     else bind_ok (case backing_file of
                     None \<Rightarrow> Ok (None, accessible_size0, st0)
                   | Some path \<Rightarrow>
                       bind_ok (mmap_backing os st0 path mapping_size accessible_size0)
                         (\<lambda>(fd, a, st). Ok (Some fd, a, st))) (\<lambda>(memory_fd, accessible_size, st).
       let flags = \<lparr>mf_anon = (memory_fd = None), mf_shared = (memory_type = Shared)\<rparr>;
           mapping = (\<lambda>p. \<lparr>mm_ptr = p, mm_total_size = mapping_size,
             mm_accessible_size = accessible_size,
             mm_sync_on_drop = (memory_fd \<noteq> None \<and> memory_type = Shared)\<rparr>)
       in if accessible_size = mapping_size
          then bind_ok (os_mmap os st mapping_size PROT_READ_WRITE flags memory_fd)
                 (\<lambda>(p, st1). Ok (mapping p, st1))
          else bind_ok (os_mmap os st mapping_size PROT_NONE flags memory_fd) (\<lambda>(p, st1).
                 if accessible_size \<noteq> 0
                 then bind_ok (on_err (mmap_make_accessible os st1 (mapping p) 0 accessible_size)
                         (mmap_drop os st1 (mapping p))) (\<lambda>st2. Ok (mapping p, st2))
                 else Ok (mapping p, st1))))))"

definition mmap_with_at_least :: "os \<Rightarrow> os_state \<Rightarrow> usize \<Rightarrow> (Mmap \<times> os_state, string) outcome" where
  "mmap_with_at_least os st sz =
     (let page_size = os_page_size os;
          rounded_size = (sz + (page_size - 1)) div page_size * page_size
      in bind_ok (assert_that (rounded_size < usize_limit)) (\<lambda>_.
           mmap_accessible_reserved os st rounded_size rounded_size None Private))"

text \<open>The slices of a mapping, as their start and their length.\<close>

definition mmap_as_slice :: "Mmap \<Rightarrow> usize \<times> usize" where
  "mmap_as_slice m = (mm_ptr m, mm_total_size m)"

definition mmap_as_slice_accessible :: "Mmap \<Rightarrow> usize \<times> usize" where
  "mmap_as_slice_accessible m = (mm_ptr m, mm_accessible_size m)"

definition mmap_as_slice_arbitary :: "Mmap \<Rightarrow> usize \<Rightarrow> usize \<times> usize" where
  "mmap_as_slice_arbitary m sz = (mm_ptr m, min sz (mm_total_size m))"

text \<open>\<open>slice[..len]\<close> and \<open>dst.copy_from_slice(src)\<close>.\<close>

definition slice_prefix :: "usize \<times> usize \<Rightarrow> usize \<Rightarrow> (usize \<times> usize, 'e) outcome" where
  "slice_prefix s len = bind_ok (assert_that (len \<le> snd s)) (\<lambda>_. Ok (fst s, len))"

definition readable :: "os_state \<Rightarrow> usize \<Rightarrow> usize \<Rightarrow> bool" where
  "readable st p n = (\<forall>a \<in> {p..<p + n}. st_rw st a)"

definition copy_from_slice ::
  "os_state \<Rightarrow> usize \<times> usize \<Rightarrow> usize \<times> usize \<Rightarrow> (os_state, 'e) outcome" where
  "copy_from_slice st dst src =
     bind_ok (assert_that (snd dst = snd src)) (\<lambda>_.
     bind_ok (assert_that (readable st (fst src) (snd src))) (\<lambda>_.
     bind_ok (assert_that (readable st (fst dst) (snd dst))) (\<lambda>_.
       Ok (st\<lparr>st_heap := heap_move (st_heap st) (fst src) (fst dst) (snd src)\<rparr>))))"

definition mmap_copy ::
  "os \<Rightarrow> os_state \<Rightarrow> Mmap \<Rightarrow> usize option \<Rightarrow> (Mmap \<times> os_state, string) outcome" where
  "mmap_copy os st m size_hint =
     (let copy_size = (case size_hint of
                         None \<Rightarrow> mm_accessible_size m
                       | Some hint \<Rightarrow> max (mm_accessible_size m) hint)
      in bind_ok (mmap_accessible_reserved os st copy_size (mm_total_size m) None Private)
           (\<lambda>(new, st1).
              bind_ok (copy_from_slice st1 (mmap_as_slice_arbitary new copy_size)
                 (mmap_as_slice_arbitary m copy_size)) (\<lambda>st2. Ok (new, st2))))"

section \<open>Facts\<close>

lemma page_offset_dvd:
  assumes "page_size_ok os"
  shows "(page_offset os n = 0) = (os_page_size os dvd n)"
proof -
  obtain k where k: "os_page_size os = 2 ^ k" using assms by (auto simp: page_size_ok_def)
  then have "page_offset os n = Bit_Operations.and n (mask k)"
    by (simp add: page_offset_def mask_nat_def)
  also have "\<dots> = take_bit k n" by (simp only: take_bit_eq_mask)
  also have "\<dots> = n mod os_page_size os" using k by (simp add: take_bit_nat_def)
  finally show ?thesis by (simp add: dvd_eq_mod_eq_0)
qed

lemma page_size_dvd: "page_size_ok os \<Longrightarrow> os_page_size os dvd 65536"
proof -
  assume "page_size_ok os"
  then obtain k where k: "k \<le> 16" "os_page_size os = 2 ^ k" by (auto simp: page_size_ok_def)
  have "(2 :: nat) ^ k dvd 2 ^ 16" using k(1) by (rule le_imp_power_dvd)
  with k(2) show ?thesis by simp
qed

text \<open>What a successful call leaves behind: a fresh zeroed region, accessible at its start.\<close>

definition mmap_created :: "os_state \<Rightarrow> usize \<Rightarrow> usize \<Rightarrow> Mmap \<Rightarrow> os_state \<Rightarrow> bool" where
  "mmap_created st acc n m st' =
     (mm_total_size m = n \<and> mm_accessible_size m = acc \<and> \<not> mm_sync_on_drop m \<and>
      0 < mm_ptr m \<and> mm_ptr m + n < usize_limit \<and>
      (\<forall>a. in_range (mm_ptr m) n a \<longrightarrow> \<not> st_mapped st a) \<and>
      (\<forall>a. st_heap st' a = (if in_range (mm_ptr m) n a then 0 else st_heap st a)) \<and>
      (\<forall>a. st_mapped st' a = (in_range (mm_ptr m) n a \<or> st_mapped st a)) \<and>
      (\<forall>a. st_rw st' a = (if in_range (mm_ptr m) n a then in_range (mm_ptr m) acc a
                          else st_rw st a)))"

lemma mmap_okD:
  assumes "os_ok os" and "0 < n"
    and "os_mmap os st n pr \<lparr>mf_anon = True, mf_shared = False\<rparr> None = Ok (p, st')"
  shows "0 < p" and "p + n < usize_limit" and "\<forall>a. in_range p n a \<longrightarrow> \<not> st_mapped st a"
    and "\<forall>a. st_heap st' a = (if in_range p n a then 0 else st_heap st a)"
    and "\<forall>a. st_mapped st' a = (in_range p n a \<or> st_mapped st a)"
    and "\<forall>a. st_rw st' a = (if in_range p n a then pr = PROT_READ_WRITE else st_rw st a)"
  using assms unfolding os_ok_def mmap_ok_def by (simp, blast)+

lemma protect_okD:
  assumes "os_ok os" and "os_protect_rw os st p n = Ok st'"
  shows "st_heap st' = st_heap st" and "st_mapped st' = st_mapped st"
    and "st_rw st' a = (in_range p n a \<or> st_rw st a)"
  using assms unfolding os_ok_def protect_ok_def by blast+

lemma make_accessible_eq:
  assumes "os_ok os" and "os_page_size os dvd start" and "os_page_size os dvd len"
    and "start + len \<le> mm_total_size m"
  shows "mmap_make_accessible os st m start len = os_protect_rw os st (mm_ptr m + start) len"
proof -
  have "page_size_ok os" using assms(1) by (simp add: os_ok_def)
  moreover have "start \<le> mm_total_size m - len" using assms(4) by linarith
  ultimately show ?thesis using assms by (simp add: mmap_make_accessible_def page_offset_dvd)
qed

lemma mmap_drop_Ok:
  assumes "os_ok os" and "\<not> mm_sync_on_drop m"
    and "\<forall>a. in_range (mm_ptr m) (mm_total_size m) a \<longrightarrow> st_mapped st a"
  shows "\<exists>st'. mmap_drop os st m = Ok st' \<and>
     (\<forall>a. \<not> in_range (mm_ptr m) (mm_total_size m) a \<longrightarrow>
        st_heap st' a = st_heap st a \<and> st_mapped st' a = st_mapped st a \<and>
        st_rw st' a = st_rw st a)"
proof (cases "mm_total_size m = 0")
  case True
  then show ?thesis by (simp add: mmap_drop_def)
next
  case False
  have "munmap_ok os" using assms(1) by (simp add: os_ok_def)
  with assms(3) obtain st' where "os_munmap os st (mm_ptr m) (mm_total_size m) = Some st'"
    "\<forall>a. \<not> in_range (mm_ptr m) (mm_total_size m) a \<longrightarrow> st_heap st' a = st_heap st a"
    "\<forall>a. st_mapped st' a = (\<not> in_range (mm_ptr m) (mm_total_size m) a \<and> st_mapped st a)"
    "\<forall>a. st_rw st' a = (\<not> in_range (mm_ptr m) (mm_total_size m) a \<and> st_rw st a)"
    unfolding munmap_ok_def by blast
  with False assms(2) show ?thesis by (simp add: mmap_drop_def)
qed

lemma accessible_reserved_created:
  assumes "os_ok os"
    and run: "mmap_accessible_reserved os st acc n None Private = Ok (m, st')"
  shows "mmap_created st acc n m st'"
proof -
  have ps: "page_size_ok os" using assms(1) by (simp add: os_ok_def)
  from run have le: "acc \<le> n" and dvd: "os_page_size os dvd acc"
    by (auto simp: mmap_accessible_reserved_def outcome_simps page_offset_dvd [OF ps])
  consider "n = 0" | "0 < n" "acc = n" | "0 < n" "acc = 0" "acc \<noteq> n" | "0 < n" "0 < acc" "acc < n"
    using le by linarith
  then show ?thesis
  proof cases
    case 1
    with run le show ?thesis
      by (auto simp: mmap_accessible_reserved_def outcome_simps mmap_created_def mmap_new_def
          in_range_def)
  next
    case 2
    with run obtain p where
      "os_mmap os st n PROT_READ_WRITE \<lparr>mf_anon = True, mf_shared = False\<rparr> None = Ok (p, st')"
      and "m = \<lparr>mm_ptr = p, mm_total_size = n, mm_accessible_size = acc, mm_sync_on_drop = False\<rparr>"
      by (auto simp: mmap_accessible_reserved_def outcome_simps Let_def)
    with 2 mmap_okD [OF assms(1) 2(1)] show ?thesis by (simp add: mmap_created_def)
  next
    case 3
    with run obtain p where
      "os_mmap os st n PROT_NONE \<lparr>mf_anon = True, mf_shared = False\<rparr> None = Ok (p, st')"
      and "m = \<lparr>mm_ptr = p, mm_total_size = n, mm_accessible_size = acc, mm_sync_on_drop = False\<rparr>"
      by (auto simp: mmap_accessible_reserved_def outcome_simps Let_def)
    with 3 mmap_okD [OF assms(1) 3(1)] show ?thesis
      by (simp add: mmap_created_def in_range_def)
  next
    case 4
    let ?m = "\<lambda>p. \<lparr>mm_ptr = p, mm_total_size = n, mm_accessible_size = acc,
      mm_sync_on_drop = False\<rparr>"
    from 4 run obtain p st1 where
      map: "os_mmap os st n PROT_NONE \<lparr>mf_anon = True, mf_shared = False\<rparr> None = Ok (p, st1)"
      and acc: "mmap_make_accessible os st1 (?m p) 0 acc = Ok st'" and m: "m = ?m p"
      by (auto simp: mmap_accessible_reserved_def outcome_simps Let_def)
    have "os_protect_rw os st1 p acc = Ok st'"
      using acc 4 dvd by (simp add: make_accessible_eq [OF assms(1)])
    note prot = protect_okD [OF assms(1) this]
    from 4 prot mmap_okD [OF assms(1) 4(1) map] m show ?thesis
      by (auto simp: mmap_created_def in_range_def)
  qed
qed

lemma accessible_reserved_no_panic:
  assumes "os_ok os" and "acc \<le> n" and "os_page_size os dvd acc" and "os_page_size os dvd n"
  shows "mmap_accessible_reserved os st acc n None Private \<noteq> Panic"
proof
  let ?m = "\<lambda>p. \<lparr>mm_ptr = p, mm_total_size = n, mm_accessible_size = acc,
    mm_sync_on_drop = False\<rparr>"
  have ps: "page_size_ok os" and np: "mmap_no_panic os" using assms(1) by (simp_all add: os_ok_def)
  assume "mmap_accessible_reserved os st acc n None Private = Panic"
  then obtain p st1 where "0 < n"
    and map: "os_mmap os st n PROT_NONE \<lparr>mf_anon = True, mf_shared = False\<rparr> None = Ok (p, st1)"
    and fail: "mmap_make_accessible os st1 (?m p) 0 acc = Panic \<or> mmap_drop os st1 (?m p) = Panic"
    using assms ps np
    by (auto simp: mmap_accessible_reserved_def outcome_simps Let_def page_offset_dvd
        mmap_no_panic_def split: if_splits)
  have "mmap_make_accessible os st1 (?m p) 0 acc \<noteq> Panic"
    using assms make_accessible_eq [OF assms(1), of 0 acc "?m p"]
    by (simp add: os_ok_def protect_ok_def)
  moreover have "mmap_drop os st1 (?m p) \<noteq> Panic"
    using mmap_drop_Ok [OF assms(1), of "?m p" st1] mmap_okD(5) [OF assms(1) \<open>0 < n\<close> map]
    by auto
  ultimately show False using fail by blast
qed

end
