(* ===== verification/Linear_Memory.thy ===== *)
theory Linear_Memory
  imports Wasm_Types Object_Store Mmap
begin

text \<open>
  Linear memories, \<open>lib/vm/src/memory.rs\<close>: the mapped area with its logical size
  (\<open>WasmMmap\<close>), the owned memory built on it and its creation, growth, reset and copy. The
  definition that compiled code reads (base address and length) is kept in the memory itself,
  as \<open>MaybeInstanceOwned\<close>. Shared memories are in \<open>Shared_Memory\<close>.

  \<open>wm_wf\<close> is the invariant: the definition agrees with the mapping, everything below the
  current length is readable and writable, and the limits hold. \<open>wm_zero_tail\<close> says that the
  part of the mapping that the memory may still grow into is zero.
\<close>

section \<open>State\<close>

record VMMemoryDefinition =
  md_base :: usize
  md_current_length :: usize

record WasmMmap =
  wm_alloc :: Mmap
  wm_size :: Pages
  wm_definition :: "VMMemoryDefinition MaybeInstanceOwned"

record VMMemoryConfig =
  cf_maximum :: "Pages option"
  cf_memory :: MemoryType
  cf_style :: MemoryStyle
  cf_offset_guard_size :: usize

definition cf_ty :: "VMMemoryConfig \<Rightarrow> Pages \<Rightarrow> MemoryType" where
  "cf_ty conf minimum = (cf_memory conf)\<lparr>mt_minimum := minimum\<rparr>"

section \<open>The mapped area\<close>

definition wm_get_vm_memory_definition :: "WasmMmap \<Rightarrow> VMMemoryDefinition" where
  "wm_get_vm_memory_definition w = owned_value (wm_definition w)"

definition wm_get_size :: "WasmMmap \<Rightarrow> (Pages, 'e) outcome" where
  "wm_get_size w =
     unwrap_res (pages_try_from_bytes (md_current_length (wm_get_vm_memory_definition w)))"

text \<open>
  The part of \<open>grow\<close> that finds room: a mapping that is too small is replaced by a larger one
  with the contents copied over, otherwise the new pages are made accessible in place.
\<close>

definition wm_grow_alloc ::
  "os \<Rightarrow> os_state \<Rightarrow> WasmMmap \<Rightarrow> VMMemoryConfig \<Rightarrow> Pages \<Rightarrow> Pages \<Rightarrow>
   (Mmap \<times> os_state, MemoryError) outcome" where
  "wm_grow_alloc os st w conf delta new_pages =
     (let delta_bytes = pages_bytes delta;
          prev_bytes = pages_bytes (wm_size w);
          new_bytes = pages_bytes new_pages;
          guard_bytes = cf_offset_guard_size conf;
          alloc = wm_alloc w
      in bind_ok (usize_sub (mm_total_size alloc) guard_bytes) (\<lambda>room.
         if room < new_bytes then
           bind_ok (case usize_checked_add new_bytes guard_bytes of
                      Some request_bytes \<Rightarrow> Ok request_bytes
                    | None \<Rightarrow> bind_ok (unwrap_res (pages_try_from_bytes guard_bytes))
                               (\<lambda>guard_pages. Err (CouldNotGrow new_pages guard_pages)))
             (\<lambda>request_bytes.
           bind_ok (map_err Region
             (mmap_accessible_reserved os st new_bytes request_bytes None Private))
             (\<lambda>(new_mmap, st1).
           bind_ok (usize_sub (mm_total_size alloc) guard_bytes) (\<lambda>copy_len.
           bind_ok (slice_prefix (mmap_as_slice new_mmap) copy_len) (\<lambda>dst.
           bind_ok (slice_prefix (mmap_as_slice alloc) copy_len) (\<lambda>src.
           bind_ok (copy_from_slice st1 dst src) (\<lambda>st2.
           bind_ok (map_err Region (mmap_drop os st2 alloc)) (\<lambda>st3.
             Ok (new_mmap, st3))))))))
         else if 0 < delta_bytes then
           bind_ok (map_err Region (mmap_make_accessible os st alloc prev_bytes delta_bytes))
             (\<lambda>st1. Ok (alloc, st1))
         else Ok (alloc, st)))"

definition wm_grow ::
  "os \<Rightarrow> os_state \<Rightarrow> WasmMmap \<Rightarrow> Pages \<Rightarrow> VMMemoryConfig \<Rightarrow>
   (Pages \<times> WasmMmap \<times> os_state, MemoryError) outcome" where
  "wm_grow os st w delta conf =
     (if delta = 0 then Ok (wm_size w, w, st)
      else bind_ok (ok_or (CouldNotGrow (wm_size w) delta) (pages_checked_add (wm_size w) delta))
        (\<lambda>new_pages.
        let prev_pages = wm_size w in
        if (case cf_maximum conf of Some maximum \<Rightarrow> maximum < new_pages | None \<Rightarrow> False)
        then Err (CouldNotGrow (wm_size w) delta)
        else if pages_max_value < new_pages then Err (CouldNotGrow (wm_size w) delta)
        else bind_ok (wm_grow_alloc os st w conf delta new_pages) (\<lambda>(alloc, st1).
          Ok (prev_pages,
              w\<lparr>wm_alloc := alloc, wm_size := new_pages,
                wm_definition := owned_update (\<lambda>md. md\<lparr>md_current_length := pages_bytes new_pages,
                  md_base := mm_ptr alloc\<rparr>) (wm_definition w)\<rparr>,
              st1))))"

text \<open>The arithmetic of \<open>grow_at_least\<close> is on \<open>u64\<close>; the page count is cut to 32 bits.\<close>

definition wm_grow_at_least ::
  "os \<Rightarrow> os_state \<Rightarrow> WasmMmap \<Rightarrow> u64 \<Rightarrow> VMMemoryConfig \<Rightarrow>
   (WasmMmap \<times> os_state, MemoryError) outcome" where
  "wm_grow_at_least os st w min_size conf =
     (let cur_size = of_nat (pages_bytes (wm_size w)) :: u64 in
      if cur_size < min_size then
        let growth = min_size - cur_size;
            growth_pages = (growth - 1) div (of_nat WASM_PAGE_SIZE) + 1
        in bind_ok (wm_grow os st w (ucast growth_pages) conf) (\<lambda>(_, w', st'). Ok (w', st'))
      else Ok (w, st))"

definition wm_reset :: "WasmMmap \<Rightarrow> (WasmMmap, MemoryError) outcome" where
  "wm_reset w = Ok (w\<lparr>wm_size := 0,
     wm_definition := owned_update (\<lambda>md. md\<lparr>md_current_length := 0\<rparr>) (wm_definition w)\<rparr>)"

definition wm_copy ::
  "os \<Rightarrow> os_state \<Rightarrow> WasmMmap \<Rightarrow> (WasmMmap \<times> os_state, MemoryError) outcome" where
  "wm_copy os st w =
     (let mem_length = pages_bytes (wm_size w) in
      bind_ok (map_err Generic (mmap_copy os st (wm_alloc w) (Some mem_length))) (\<lambda>(alloc, st1).
        Ok (\<lparr>wm_alloc = alloc, wm_size = wm_size w,
             wm_definition = Host \<lparr>md_base = mm_ptr alloc, md_current_length = mem_length\<rparr>\<rparr>,
            st1)))"

section \<open>Owned memories\<close>

record VMOwnedMemory =
  om_mmap :: WasmMmap
  om_config :: VMMemoryConfig

text \<open>
  \<open>vm_memory_location\<close> is the address of the definition inside the \<open>VMContext\<close> of the instance
  that defines the memory, absent for a memory made by the host.
\<close>

definition om_new_internal ::
  "os \<Rightarrow> os_state \<Rightarrow> MemoryType \<Rightarrow> MemoryStyle \<Rightarrow> usize option \<Rightarrow> string option \<Rightarrow> MmapType \<Rightarrow>
   (VMOwnedMemory \<times> os_state, MemoryError) outcome" where
  "om_new_internal os st memory style vm_memory_location backing_file memory_type =
     (if pages_max_value < mt_minimum memory
      then Err (MinimumMemoryTooLarge (mt_minimum memory) pages_max_value)
      else if (case mt_maximum memory of Some m \<Rightarrow> pages_max_value < m | None \<Rightarrow> False)
      then Err (MaximumMemoryTooLarge (the (mt_maximum memory)) pages_max_value)
      else if (case mt_maximum memory of Some m \<Rightarrow> m < mt_minimum memory | None \<Rightarrow> False)
      then Err (InvalidMemory (''the maximum ('' @ decimal (unat (the (mt_maximum memory))) @
             '' pages) is less than the minimum ('' @ decimal (unat (mt_minimum memory)) @
             '' pages)''))
      else
        let offset_guard_bytes = unat (style_offset_guard_size style) in
        bind_ok (case style of
                   Dynamic _ \<Rightarrow> Ok (mt_minimum memory)
                 | Static bound _ \<Rightarrow>
                     bind_ok (assert_that (mt_minimum memory \<le> bound)) (\<lambda>_. Ok bound))
          (\<lambda>minimum_pages.
        bind_ok (unwrap (usize_checked_add (pages_bytes minimum_pages) offset_guard_bytes))
          (\<lambda>request_bytes.
        bind_ok (map_err Region (mmap_accessible_reserved os st (pages_bytes (mt_minimum memory))
            request_bytes backing_file memory_type)) (\<lambda>(alloc, st1).
        let base_ptr = mm_ptr alloc;
            mem_length = max (pages_bytes (mt_minimum memory))
              (snd (mmap_as_slice_accessible alloc));
            md = \<lparr>md_base = base_ptr, md_current_length = mem_length\<rparr>
        in bind_ok (unwrap_res (pages_try_from_bytes mem_length)) (\<lambda>pages.
          Ok (\<lparr>om_mmap = \<lparr>wm_alloc = alloc, wm_size = pages,
                 wm_definition = (case vm_memory_location of
                   Some mem_loc \<Rightarrow> Instance mem_loc md | None \<Rightarrow> Host md)\<rparr>,
               om_config = \<lparr>cf_maximum = mt_maximum memory, cf_memory = memory,
                 cf_style = style, cf_offset_guard_size = offset_guard_bytes\<rparr>\<rparr>,
              st1))))))"

definition om_new ::
  "os \<Rightarrow> os_state \<Rightarrow> MemoryType \<Rightarrow> MemoryStyle \<Rightarrow> (VMOwnedMemory \<times> os_state, MemoryError) outcome"
  where "om_new os st memory style = om_new_internal os st memory style None None Private"

definition om_new_with_file ::
  "os \<Rightarrow> os_state \<Rightarrow> MemoryType \<Rightarrow> MemoryStyle \<Rightarrow> string \<Rightarrow> MmapType \<Rightarrow>
   (VMOwnedMemory \<times> os_state, MemoryError) outcome" where
  "om_new_with_file os st memory style backing_file memory_type =
     om_new_internal os st memory style None (Some backing_file) memory_type"

definition om_from_definition ::
  "os \<Rightarrow> os_state \<Rightarrow> MemoryType \<Rightarrow> MemoryStyle \<Rightarrow> usize \<Rightarrow>
   (VMOwnedMemory \<times> os_state, MemoryError) outcome" where
  "om_from_definition os st memory style vm_memory_location =
     om_new_internal os st memory style (Some vm_memory_location) None Private"

definition om_from_definition_with_file ::
  "os \<Rightarrow> os_state \<Rightarrow> MemoryType \<Rightarrow> MemoryStyle \<Rightarrow> usize \<Rightarrow> string option \<Rightarrow> MmapType \<Rightarrow>
   (VMOwnedMemory \<times> os_state, MemoryError) outcome" where
  "om_from_definition_with_file os st memory style vm_memory_location backing_file memory_type =
     om_new_internal os st memory style (Some vm_memory_location) backing_file memory_type"

definition om_ty :: "VMOwnedMemory \<Rightarrow> (MemoryType, 'e) outcome" where
  "om_ty m = bind_ok (wm_get_size (om_mmap m)) (\<lambda>minimum. Ok (cf_ty (om_config m) minimum))"

definition om_size :: "VMOwnedMemory \<Rightarrow> (Pages, 'e) outcome" where
  "om_size m = wm_get_size (om_mmap m)"

definition om_style :: "VMOwnedMemory \<Rightarrow> MemoryStyle" where
  "om_style m = cf_style (om_config m)"

definition om_grow ::
  "os \<Rightarrow> os_state \<Rightarrow> VMOwnedMemory \<Rightarrow> Pages \<Rightarrow>
   (Pages \<times> VMOwnedMemory \<times> os_state, MemoryError) outcome" where
  "om_grow os st m delta =
     bind_ok (wm_grow os st (om_mmap m) delta (om_config m)) (\<lambda>(prev, w, st1).
       Ok (prev, m\<lparr>om_mmap := w\<rparr>, st1))"

definition om_grow_at_least ::
  "os \<Rightarrow> os_state \<Rightarrow> VMOwnedMemory \<Rightarrow> u64 \<Rightarrow> (VMOwnedMemory \<times> os_state, MemoryError) outcome" where
  "om_grow_at_least os st m min_size =
     bind_ok (wm_grow_at_least os st (om_mmap m) min_size (om_config m)) (\<lambda>(w, st1).
       Ok (m\<lparr>om_mmap := w\<rparr>, st1))"

definition om_reset :: "VMOwnedMemory \<Rightarrow> (VMOwnedMemory, MemoryError) outcome" where
  "om_reset m = bind_ok (wm_reset (om_mmap m)) (\<lambda>w. Ok (m\<lparr>om_mmap := w\<rparr>))"

definition om_vmmemory :: "VMOwnedMemory \<Rightarrow> VMMemoryDefinition" where
  "om_vmmemory m = owned_value (wm_definition (om_mmap m))"

definition om_try_clone :: "VMOwnedMemory \<Rightarrow> (VMOwnedMemory, MemoryError) outcome" where
  "om_try_clone m = Err MemoryNotShared"

definition om_copy ::
  "os \<Rightarrow> os_state \<Rightarrow> VMOwnedMemory \<Rightarrow> (VMOwnedMemory \<times> os_state, MemoryError) outcome" where
  "om_copy os st m =
     bind_ok (wm_copy os st (om_mmap m)) (\<lambda>(w, st1).
       Ok (\<lparr>om_mmap = w, om_config = om_config m\<rparr>, st1))"

section \<open>Writing initial data\<close>

definition initialize_memory_with_data ::
  "os_state \<Rightarrow> VMMemoryDefinition \<Rightarrow> usize \<Rightarrow> u8 list \<Rightarrow> (os_state, TrapCode) outcome" where
  "initialize_memory_with_data st memory start data =
     bind_ok (usize_add start (length data)) (\<lambda>stop.
     bind_ok (assert_that (start \<le> stop \<and> stop \<le> md_current_length memory)) (\<lambda>_.
     bind_ok (assert_that (readable st (md_base memory + start) (length data))) (\<lambda>_.
       Ok (st\<lparr>st_heap := heap_write (st_heap st) (md_base memory + start) data\<rparr>))))"

section \<open>The invariant\<close>

definition page_limit :: "VMMemoryConfig \<Rightarrow> nat" where
  "page_limit conf = (case cf_maximum conf of None \<Rightarrow> 65536 | Some m \<Rightarrow> min 65536 (unat m))"

text \<open>The bytes the mapping can hold without being replaced.\<close>

definition wm_capacity :: "VMMemoryConfig \<Rightarrow> WasmMmap \<Rightarrow> nat" where
  "wm_capacity conf w = mm_total_size (wm_alloc w) - cf_offset_guard_size conf"

text \<open>The mapping itself: a mapped, page-aligned region with room for the guard.\<close>

definition wm_region_ok :: "os \<Rightarrow> VMMemoryConfig \<Rightarrow> os_state \<Rightarrow> WasmMmap \<Rightarrow> bool" where
  "wm_region_ok os conf st w =
     (let m = wm_alloc w in
      0 < mm_ptr m \<and> mm_ptr m + mm_total_size m < usize_limit \<and> \<not> mm_sync_on_drop m \<and>
      cf_offset_guard_size conf < 2 ^ 48 \<and> cf_offset_guard_size conf \<le> mm_total_size m \<and>
      os_page_size os dvd mm_total_size m \<and> os_page_size os dvd cf_offset_guard_size conf \<and>
      (\<forall>a. in_range (mm_ptr m) (mm_total_size m) a \<longrightarrow> st_mapped st a))"

definition wm_wf :: "os \<Rightarrow> VMMemoryConfig \<Rightarrow> os_state \<Rightarrow> WasmMmap \<Rightarrow> bool" where
  "wm_wf os conf st w =
     (let m = wm_alloc w; md = wm_get_vm_memory_definition w; n = pages_bytes (wm_size w) in
      wm_region_ok os conf st w \<and>
      md_base md = mm_ptr m \<and> md_current_length md = n \<and>
      unat (wm_size w) \<le> page_limit conf \<and>
      n \<le> wm_capacity conf w \<and>
      mm_accessible_size m \<le> wm_capacity conf w \<and>
      os_page_size os dvd mm_accessible_size m \<and>
      (\<forall>a. in_range (mm_ptr m) (max n (mm_accessible_size m)) a \<longrightarrow> st_rw st a) \<and>
      (mm_accessible_size m = wm_capacity conf w \<or>
       page_limit conf * 65536 \<le> wm_capacity conf w))"

definition wm_zero_tail :: "VMMemoryConfig \<Rightarrow> os_state \<Rightarrow> WasmMmap \<Rightarrow> bool" where
  "wm_zero_tail conf st w =
     (\<forall>i. pages_bytes (wm_size w) \<le> i \<and> i < wm_capacity conf w \<longrightarrow>
          st_heap st (mm_ptr (wm_alloc w) + i) = 0)"

section \<open>Growing\<close>

text \<open>
  What growing may do to the rest of the process: every address that was mapped, other than
  those of the memory itself, keeps its contents and its protection.
\<close>

definition others_kept :: "os_state \<Rightarrow> os_state \<Rightarrow> Mmap \<Rightarrow> bool" where
  "others_kept st st' m =
     (\<forall>a. st_mapped st a \<and> \<not> in_range (mm_ptr m) (mm_total_size m) a \<longrightarrow>
          st_heap st' a = st_heap st a \<and> st_mapped st' a \<and> st_rw st' a = st_rw st a)"

text \<open>The contents after growing: the old bytes, then zeros up to the capacity.\<close>

definition grown_contents ::
  "VMMemoryConfig \<Rightarrow> os_state \<Rightarrow> WasmMmap \<Rightarrow> os_state \<Rightarrow> Mmap \<Rightarrow> bool" where
  "grown_contents conf st w st' m' =
     ((\<forall>i < pages_bytes (wm_size w).
         st_heap st' (mm_ptr m' + i) = st_heap st (mm_ptr (wm_alloc w) + i)) \<and>
      (wm_zero_tail conf st w \<longrightarrow>
         (\<forall>i. pages_bytes (wm_size w) \<le> i \<and>
              i < mm_total_size m' - cf_offset_guard_size conf \<longrightarrow>
              st_heap st' (mm_ptr m' + i) = 0)))"

lemma wm_wf_region:
  assumes "wm_wf os conf st w"
  shows "0 < mm_ptr (wm_alloc w)" and "\<not> mm_sync_on_drop (wm_alloc w)"
    and "mm_ptr (wm_alloc w) + mm_total_size (wm_alloc w) < usize_limit"
    and "cf_offset_guard_size conf < 2 ^ 48"
    and "mm_total_size (wm_alloc w) = wm_capacity conf w + cf_offset_guard_size conf"
    and "cf_offset_guard_size conf \<le> mm_total_size (wm_alloc w)"
    and "\<forall>a. in_range (mm_ptr (wm_alloc w)) (mm_total_size (wm_alloc w)) a \<longrightarrow> st_mapped st a"
    and "os_page_size os dvd mm_total_size (wm_alloc w)"
    and "os_page_size os dvd cf_offset_guard_size conf"
    and "pages_bytes (wm_size w) \<le> wm_capacity conf w"
    and "unat (wm_size w) \<le> page_limit conf"
  using assms by (auto simp: wm_wf_def wm_region_ok_def wm_capacity_def Let_def)

lemma request_bytes_ok:
  assumes "wm_wf os conf st w"
  shows "usize_checked_add (pages_bytes p) (cf_offset_guard_size conf) =
    Some (pages_bytes p + cf_offset_guard_size conf)"
  using wm_wf_region(4) [OF assms] pages_bytes_less [of p] by (simp add: usize_checked_add_def)

text \<open>Moving: the steps of the code, with the state the old mapping leaves behind.\<close>

lemma wm_grow_alloc_moved:
  assumes os: "os_ok os" and wf: "wm_wf os conf st w"
    and new: "wm_capacity conf w < pages_bytes new_pages"
    and run: "wm_grow_alloc os st w conf delta new_pages = Ok (m', st')"
  obtains st1 where
    "mmap_created st (pages_bytes new_pages)
       (pages_bytes new_pages + cf_offset_guard_size conf) m' st1"
    and "\<forall>a. \<not> in_range (mm_ptr (wm_alloc w)) (mm_total_size (wm_alloc w)) a \<longrightarrow>
      st_heap st' a = heap_move (st_heap st1) (mm_ptr (wm_alloc w)) (mm_ptr m')
        (wm_capacity conf w) a \<and>
      st_mapped st' a = st_mapped st1 a \<and> st_rw st' a = st_rw st1 a"
proof -
  let ?m = "wm_alloc w" and ?cap = "wm_capacity conf w" and ?g = "cf_offset_guard_size conf"
  let ?n = "pages_bytes new_pages"
  note reg = wm_wf_region [OF wf]
  from run new obtain st1 st2 where
    res: "mmap_accessible_reserved os st ?n (?n + ?g) None Private = Ok (m', st1)"
    and copy: "copy_from_slice st1 (mm_ptr m', ?cap) (mm_ptr ?m, ?cap) =
      (Ok st2 :: (_, MemoryError) outcome)"
    and drop: "mmap_drop os st2 ?m = Ok st'"
    by (auto simp: wm_grow_alloc_def Let_def outcome_simps request_bytes_ok [OF wf]
        wm_capacity_def slice_prefix_def mmap_as_slice_def)
  have c: "mmap_created st ?n (?n + ?g) m' st1"
    by (rule accessible_reserved_created [OF os res])
  have st2: "st2 = st1\<lparr>st_heap := heap_move (st_heap st1) (mm_ptr ?m) (mm_ptr m') ?cap\<rparr>"
    using copy by (auto simp: copy_from_slice_def outcome_simps)
  have "\<forall>a. in_range (mm_ptr ?m) (mm_total_size ?m) a \<longrightarrow> st_mapped st2 a"
    using reg(7) c by (auto simp: st2 mmap_created_def)
  from mmap_drop_Ok [OF os reg(2) this] drop
  have "\<not> in_range (mm_ptr ?m) (mm_total_size ?m) a \<Longrightarrow>
      st_heap st' a = st_heap st2 a \<and> st_mapped st' a = st_mapped st2 a \<and>
      st_rw st' a = st_rw st2 a" for a
    by auto
  with c show thesis by (intro that [of st1]) (auto simp: st2)
qed

lemma wm_move_apart:
  assumes "wm_wf os conf st w" and "mmap_created st acc n m' st1"
    and "in_range (mm_ptr m') n a"
  shows "\<not> in_range (mm_ptr (wm_alloc w)) (mm_total_size (wm_alloc w)) a"
  using assms wm_wf_region(7) [OF assms(1)] by (auto simp: mmap_created_def)

lemma wm_grow_alloc_move_region:
  assumes os: "os_ok os" and wf: "wm_wf os conf st w"
    and new: "wm_capacity conf w < pages_bytes new_pages"
    and run: "wm_grow_alloc os st w conf delta new_pages = Ok (m', st')"
  shows "mm_total_size m' = pages_bytes new_pages + cf_offset_guard_size conf"
    and "0 < mm_ptr m'" and "mm_ptr m' + mm_total_size m' < usize_limit"
    and "\<not> mm_sync_on_drop m'"
    and "\<forall>a. in_range (mm_ptr m') (mm_total_size m') a \<longrightarrow> st_mapped st' a"
    and "\<forall>a. in_range (mm_ptr m') (pages_bytes new_pages) a \<longrightarrow> st_rw st' a"
    and "others_kept st st' (wm_alloc w)"
    and "mm_accessible_size m' = pages_bytes new_pages"
proof -
  let ?m = "wm_alloc w" and ?cap = "wm_capacity conf w" and ?g = "cf_offset_guard_size conf"
  let ?n = "pages_bytes new_pages"
  obtain st1 where c: "mmap_created st ?n (?n + ?g) m' st1"
    and kept: "\<forall>a. \<not> in_range (mm_ptr ?m) (mm_total_size ?m) a \<longrightarrow>
      st_heap st' a = heap_move (st_heap st1) (mm_ptr ?m) (mm_ptr m') ?cap a \<and>
      st_mapped st' a = st_mapped st1 a \<and> st_rw st' a = st_rw st1 a"
    using wm_grow_alloc_moved [OF os wf new run] .
  note apart = wm_move_apart [OF wf c]
  show tot': "mm_total_size m' = ?n + ?g" and "0 < mm_ptr m'" and "\<not> mm_sync_on_drop m'"
    and "mm_ptr m' + mm_total_size m' < usize_limit" and "mm_accessible_size m' = ?n"
    using c by (auto simp: mmap_created_def)
  show "\<forall>a. in_range (mm_ptr m') (mm_total_size m') a \<longrightarrow> st_mapped st' a"
    using kept apart c by (auto simp: tot' mmap_created_def)
  have sub: "in_range (mm_ptr m') ?n a \<Longrightarrow> in_range (mm_ptr m') (?n + ?g) a" for a
    by (simp add: in_range_def)
  show "\<forall>a. in_range (mm_ptr m') ?n a \<longrightarrow> st_rw st' a"
    using kept apart sub c by (simp add: mmap_created_def)
  show "others_kept st st' ?m"
    unfolding others_kept_def
  proof (intro allI impI)
    fix a assume a: "st_mapped st a \<and> \<not> in_range (mm_ptr ?m) (mm_total_size ?m) a"
    then have out: "\<not> in_range (mm_ptr m') (?n + ?g) a" using c by (auto simp: mmap_created_def)
    with new have "\<not> (mm_ptr m' \<le> a \<and> a < mm_ptr m' + ?cap)" by (auto simp: in_range_def)
    with out a kept c
    show "st_heap st' a = st_heap st a \<and> st_mapped st' a \<and> st_rw st' a = st_rw st a"
      by (auto simp: mmap_created_def heap_move_def)
  qed
qed

lemma wm_grow_alloc_move_contents:
  assumes os: "os_ok os" and wf: "wm_wf os conf st w"
    and new: "wm_capacity conf w < pages_bytes new_pages"
    and run: "wm_grow_alloc os st w conf delta new_pages = Ok (m', st')"
  shows "grown_contents conf st w st' m'"
proof -
  let ?m = "wm_alloc w" and ?cap = "wm_capacity conf w" and ?g = "cf_offset_guard_size conf"
  let ?n = "pages_bytes new_pages"
  obtain st1 where c: "mmap_created st ?n (?n + ?g) m' st1"
    and kept: "\<forall>a. \<not> in_range (mm_ptr ?m) (mm_total_size ?m) a \<longrightarrow>
      st_heap st' a = heap_move (st_heap st1) (mm_ptr ?m) (mm_ptr m') ?cap a \<and>
      st_mapped st' a = st_mapped st1 a \<and> st_rw st' a = st_rw st1 a"
    using wm_grow_alloc_moved [OF os wf new run] .
  note apart = wm_move_apart [OF wf c]
  have bytes: "st_heap st' (mm_ptr m' + i) =
      (if i < ?cap then st_heap st (mm_ptr ?m + i) else 0)" if "i < ?n" for i
  proof -
    have inn: "in_range (mm_ptr m') (?n + ?g) (mm_ptr m' + i)"
      using that by (simp add: in_range_def)
    have "st_heap st1 (mm_ptr ?m + i) = st_heap st (mm_ptr ?m + i)" if "i < ?cap"
    proof -
      from that wm_wf_region(5) [OF wf]
      have "in_range (mm_ptr ?m) (mm_total_size ?m) (mm_ptr ?m + i)"
        by (simp add: in_range_def)
      with apart have "\<not> in_range (mm_ptr m') (?n + ?g) (mm_ptr ?m + i)" by blast
      with c show ?thesis by (simp add: mmap_created_def)
    qed
    moreover have "st_heap st1 (mm_ptr m' + i) = 0" using inn c by (simp add: mmap_created_def)
    ultimately show ?thesis using kept apart [OF inn] by (simp add: heap_move_def)
  qed
  moreover have "mm_total_size m' = ?n + ?g" using c by (simp add: mmap_created_def)
  ultimately show ?thesis
    using wm_wf_region(10) [OF wf] new by (auto simp: grown_contents_def wm_zero_tail_def)
qed

text \<open>Growing in place only opens pages that the mapping already reserves.\<close>

lemma pages_bytes_dvd: "page_size_ok os \<Longrightarrow> os_page_size os dvd pages_bytes p"
  using page_size_dvd by (simp add: pages_bytes_eq dvd_mult)

lemma wm_grow_alloc_in_place:
  assumes os: "os_ok os" and wf: "wm_wf os conf st w"
    and new: "pages_bytes new_pages \<le> wm_capacity conf w"
    and add: "pages_checked_add (wm_size w) delta = Some new_pages" and "delta \<noteq> 0"
  shows "wm_grow_alloc os st w conf delta new_pages =
    bind_ok (map_err Region (os_protect_rw os st
      (mm_ptr (wm_alloc w) + pages_bytes (wm_size w)) (pages_bytes delta)))
      (\<lambda>st1. Ok (wm_alloc w, st1))"
proof -
  note reg = wm_wf_region [OF wf]
  have ps: "page_size_ok os" using os by (simp add: os_ok_def)
  have "unat delta \<noteq> 0" using assms(5) by (simp add: unat_eq_zero)
  then have delta: "0 < pages_bytes delta" by (simp add: pages_bytes_eq)
  have sum: "pages_bytes (wm_size w) + pages_bytes delta = pages_bytes new_pages"
    using add by (simp add: pages_bytes_eq arith_simps)
  have "mmap_make_accessible os st (wm_alloc w) (pages_bytes (wm_size w)) (pages_bytes delta) =
      os_protect_rw os st (mm_ptr (wm_alloc w) + pages_bytes (wm_size w)) (pages_bytes delta)"
    using sum new reg(5) by (intro make_accessible_eq os pages_bytes_dvd ps) simp
  moreover have "usize_sub (mm_total_size (wm_alloc w)) (cf_offset_guard_size conf) =
      (Ok (wm_capacity conf w) :: (_, MemoryError) outcome)"
    using reg(6) by (simp add: usize_sub_def wm_capacity_def)
  ultimately show ?thesis using new delta by (simp add: wm_grow_alloc_def Let_def)
qed

text \<open>One successful step of growing, in either case.\<close>

lemma wm_grow_alloc_ok:
  assumes os: "os_ok os" and wf: "wm_wf os conf st w"
    and add: "pages_checked_add (wm_size w) delta = Some new_pages" and delta: "delta \<noteq> 0"
    and limit: "unat new_pages \<le> page_limit conf"
    and run: "wm_grow_alloc os st w conf delta new_pages = Ok (m', st')"
    and w': "w' = w\<lparr>wm_alloc := m', wm_size := new_pages,
      wm_definition := owned_update (\<lambda>md. md\<lparr>md_current_length := pages_bytes new_pages,
        md_base := mm_ptr m'\<rparr>) (wm_definition w)\<rparr>"
  shows "wm_wf os conf st' w' \<and> others_kept st st' (wm_alloc w) \<and> grown_contents conf st w st' m'"
proof (cases "wm_capacity conf w < pages_bytes new_pages")
  case True
  note region = wm_grow_alloc_move_region [OF os wf True run]
  have ps: "page_size_ok os" using os by (simp add: os_ok_def)
  have cap: "wm_capacity conf w' = pages_bytes new_pages"
    by (simp add: wm_capacity_def w' region(1))
  have "wm_wf os conf st' w'"
    using region(1-6,8) wm_wf_region(4,9) [OF wf] limit cap pages_bytes_dvd [OF ps]
    by (simp add: wm_wf_def wm_region_ok_def Let_def w' wm_get_vm_memory_definition_def)
  with region(7) wm_grow_alloc_move_contents [OF os wf True run] show ?thesis by blast
next
  case False
  then have new: "pages_bytes new_pages \<le> wm_capacity conf w" by simp
  let ?m = "wm_alloc w"
  from run have m': "m' = ?m" and "os_protect_rw os st (mm_ptr ?m + pages_bytes (wm_size w))
      (pages_bytes delta) = Ok st'"
    by (auto simp: wm_grow_alloc_in_place [OF os wf new add delta] outcome_simps)
  note prot = protect_okD [OF os this(2)]
  have sum: "pages_bytes (wm_size w) + pages_bytes delta = pages_bytes new_pages"
    using add by (simp add: pages_bytes_eq arith_simps)
  have rw: "st_rw st' a"
    if "in_range (mm_ptr ?m) (max (pages_bytes new_pages) (mm_accessible_size ?m)) a" for a
    using that sum wf by (auto simp: prot(3) wm_wf_def Let_def in_range_def)
  have "wm_wf os conf st' w'"
    using wf new limit rw
    by (auto simp: wm_wf_def wm_region_ok_def Let_def w' m' wm_get_vm_memory_definition_def
        wm_capacity_def prot)
  moreover have "others_kept st st' ?m"
    using sum new wm_wf_region(5) [OF wf]
    by (auto simp: others_kept_def prot in_range_def)
  moreover have "grown_contents conf st w st' m'"
    by (simp add: grown_contents_def m' prot wm_zero_tail_def wm_capacity_def)
  ultimately show ?thesis by blast
qed

lemma page_limit_exceeded:
  "(case cf_maximum conf of Some maximum \<Rightarrow> maximum < p | None \<Rightarrow> False) \<or> pages_max_value < p \<longleftrightarrow>
   page_limit conf < unat p"
  by (auto simp: page_limit_def word_less_nat_alt split: option.splits)

lemma page_limit_le: "page_limit conf \<le> 65536"
  by (simp add: page_limit_def split: option.split)

lemma within_limit_add:
  assumes "unat p + unat d \<le> page_limit conf"
  shows "unat (p + d) = unat p + unat d" and "pages_checked_add p d = Some (p + d)"
proof -
  show sum: "unat (p + d) = unat p + unat d"
    using assms page_limit_le [of conf] by (intro unat_add_lem [THEN iffD1]) simp
  with assms page_limit_le [of conf] show "pages_checked_add p d = Some (p + d)"
    by (simp add: arith_simps)
qed

text \<open>\<open>grow\<close> on every branch: the limit decides, and then only the system can refuse.\<close>

lemma wm_grow_cases:
  "wm_grow os st w delta conf =
    (if delta = 0 then Ok (wm_size w, w, st)
     else if page_limit conf < unat (wm_size w) + unat delta
     then Err (CouldNotGrow (wm_size w) delta)
     else bind_ok (wm_grow_alloc os st w conf delta (wm_size w + delta)) (\<lambda>(alloc, st1).
          Ok (wm_size w,
              w\<lparr>wm_alloc := alloc, wm_size := wm_size w + delta,
                wm_definition := owned_update (\<lambda>md.
                  md\<lparr>md_current_length := pages_bytes (wm_size w + delta),
                  md_base := mm_ptr alloc\<rparr>) (wm_definition w)\<rparr>,
              st1)))"
proof -
  let ?p = "wm_size w" and ?q = "wm_size w + delta"
  show ?thesis
  proof (cases "pages_checked_add ?p delta")
    case None
    then have "65536 < unat ?p + unat delta"
      by (auto simp: pages_checked_add_def Let_def split: if_splits)
    with page_limit_le [of conf] show ?thesis using None by (simp add: wm_grow_def)
  next
    case (Some q)
    then have q: "unat q = unat ?p + unat delta" by (simp add: arith_simps)
    then have "(of_nat (unat q) :: u32) = of_nat (unat ?p + unat delta)" by simp
    then have "q = ?q" by simp
    with q Some page_limit_exceeded [where conf = conf and p = q] show ?thesis
      by (auto simp: wm_grow_def Let_def)
  qed
qed

lemma others_kept_refl: "others_kept st st m"
  by (simp add: others_kept_def)

lemma wm_grow_ok:
  assumes os: "os_ok os" and wf: "wm_wf os conf st w"
    and run: "wm_grow os st w delta conf = Ok (prev, w', st')"
  shows "prev = wm_size w" and "unat (wm_size w') = unat (wm_size w) + unat delta"
    and "wm_wf os conf st' w'" and "others_kept st st' (wm_alloc w)"
    and "grown_contents conf st w st' (wm_alloc w')"
proof -
  let ?q = "wm_size w + delta"
  have "prev = wm_size w \<and> unat (wm_size w') = unat (wm_size w) + unat delta \<and>
      wm_wf os conf st' w' \<and> others_kept st st' (wm_alloc w) \<and>
      grown_contents conf st w st' (wm_alloc w')"
  proof (cases "delta = 0")
    case True
    with run wf show ?thesis
      by (auto simp: wm_grow_cases others_kept_refl grown_contents_def wm_zero_tail_def
          wm_capacity_def)
  next
    case False
    with run obtain m' where
      limit: "unat (wm_size w) + unat delta \<le> page_limit conf"
      and alloc: "wm_grow_alloc os st w conf delta ?q = Ok (m', st')" and prev: "prev = wm_size w"
      and w': "w' = w\<lparr>wm_alloc := m', wm_size := ?q,
        wm_definition := owned_update (\<lambda>md. md\<lparr>md_current_length := pages_bytes ?q,
          md_base := mm_ptr m'\<rparr>) (wm_definition w)\<rparr>"
      by (auto simp: wm_grow_cases outcome_simps split: if_splits)
    note q = within_limit_add(1) [OF limit] and add = within_limit_add(2) [OF limit]
    from limit q have lim: "unat ?q \<le> page_limit conf" by simp
    from wm_grow_alloc_ok [OF os wf add False lim alloc w'] prev q w' show ?thesis by simp
  qed
  then show "prev = wm_size w" and "unat (wm_size w') = unat (wm_size w) + unat delta"
    and "wm_wf os conf st' w'" and "others_kept st st' (wm_alloc w)"
    and "grown_contents conf st w st' (wm_alloc w')"
    by blast+
qed

text \<open>The replaced mapping is readable as far as it is copied.\<close>

lemma wm_wf_copy_readable:
  assumes "wm_wf os conf st w" and "wm_capacity conf w < pages_bytes new_pages"
    and "unat new_pages \<le> page_limit conf" and "in_range (mm_ptr (wm_alloc w)) (wm_capacity conf w) a"
  shows "st_rw st a"
proof -
  have "\<not> page_limit conf * 65536 \<le> wm_capacity conf w"
    using assms(2,3) by (simp add: pages_bytes_eq)
  with assms(1,4) show ?thesis by (auto simp: wm_wf_def Let_def)
qed

lemma wm_move_steps_ok:
  assumes os: "os_ok os" and wf: "wm_wf os conf st w"
    and new: "wm_capacity conf w < n" and n: "n = pages_bytes new_pages"
    and limit: "unat new_pages \<le> page_limit conf"
    and c: "mmap_created st n (n + cf_offset_guard_size conf) m' st1"
  shows "\<exists>st2 st3. copy_from_slice st1 (mm_ptr m', wm_capacity conf w)
      (mm_ptr (wm_alloc w), wm_capacity conf w) = (Ok st2 :: (_, MemoryError) outcome) \<and>
    mmap_drop os st2 (wm_alloc w) = Ok st3"
proof -
  let ?m = "wm_alloc w" and ?cap = "wm_capacity conf w"
  let ?st2 = "st1\<lparr>st_heap := heap_move (st_heap st1) (mm_ptr ?m) (mm_ptr m') ?cap\<rparr>"
  note reg = wm_wf_region [OF wf]
  have "in_range (mm_ptr ?m) ?cap a \<Longrightarrow> st_rw st1 a" for a
    using wm_wf_copy_readable [OF wf new [unfolded n] limit, of a] wm_move_apart [OF wf c, of a]
      c reg(5)
    by (auto simp: mmap_created_def in_range_def)
  moreover have "in_range (mm_ptr m') ?cap a \<Longrightarrow> st_rw st1 a" for a
    using new c by (auto simp: mmap_created_def in_range_def)
  ultimately have "copy_from_slice st1 (mm_ptr m', ?cap) (mm_ptr ?m, ?cap) =
      (Ok ?st2 :: (_, MemoryError) outcome)"
    by (auto simp: copy_from_slice_def readable_def in_range_def assert_that_def)
  moreover have "\<forall>a. in_range (mm_ptr ?m) (mm_total_size ?m) a \<longrightarrow> st_mapped ?st2 a"
    using reg(7) c by (auto simp: mmap_created_def)
  from mmap_drop_Ok [OF os reg(2) this] obtain st3 where "mmap_drop os ?st2 ?m = Ok st3" by blast
  ultimately show ?thesis by blast
qed

lemma wm_grow_alloc_no_panic:
  assumes os: "os_ok os" and wf: "wm_wf os conf st w"
    and add: "pages_checked_add (wm_size w) delta = Some new_pages" and delta: "delta \<noteq> 0"
    and limit: "unat new_pages \<le> page_limit conf"
  shows "wm_grow_alloc os st w conf delta new_pages \<noteq> Panic"
proof (cases "wm_capacity conf w < pages_bytes new_pages")
  case True
  let ?cap = "wm_capacity conf w" and ?g = "cf_offset_guard_size conf"
  let ?n = "pages_bytes new_pages"
  let ?res = "mmap_accessible_reserved os st ?n (?n + ?g) None Private"
  note reg = wm_wf_region [OF wf]
  have ps: "page_size_ok os" using os by (simp add: os_ok_def)
  have room: "usize_sub (mm_total_size (wm_alloc w)) ?g = (Ok ?cap :: (_, MemoryError) outcome)"
    using reg(6) by (simp add: usize_sub_def wm_capacity_def)
  have "?res \<noteq> Panic"
    using reg(9) pages_bytes_dvd [OF ps] by (intro accessible_reserved_no_panic os) auto
  then consider e where "?res = Err e" | m' st1 where "?res = Ok (m', st1)"
    by (cases ?res) auto
  then show ?thesis
  proof cases
    case 1
    then show ?thesis
      using True by (simp add: wm_grow_alloc_def Let_def request_bytes_ok [OF wf] room)
  next
    case (2 m' st1)
    note c = accessible_reserved_created [OF os 2]
    obtain st2 st3 where steps: "copy_from_slice st1 (mm_ptr m', ?cap) (mm_ptr (wm_alloc w), ?cap) =
        (Ok st2 :: (_, MemoryError) outcome)" "mmap_drop os st2 (wm_alloc w) = Ok st3"
      using wm_move_steps_ok [OF os wf True refl limit c] by blast
    have "?cap \<le> mm_total_size m'" "?cap \<le> mm_total_size (wm_alloc w)"
      using True c by (simp_all add: mmap_created_def wm_capacity_def)
    with 2 steps True show ?thesis
      by (simp add: wm_grow_alloc_def Let_def request_bytes_ok [OF wf] room slice_prefix_def
          mmap_as_slice_def)
  qed
next
  case False
  then have new: "pages_bytes new_pages \<le> wm_capacity conf w" by simp
  show ?thesis
    using os by (simp add: wm_grow_alloc_in_place [OF os wf new add delta] outcome_simps
        os_ok_def protect_ok_def)
qed

lemma wm_grow_no_panic:
  assumes os: "os_ok os" and wf: "wm_wf os conf st w"
  shows "wm_grow os st w delta conf \<noteq> Panic"
proof -
  let ?q = "wm_size w + delta"
  have "wm_grow_alloc os st w conf delta ?q \<noteq> Panic"
    if "delta \<noteq> 0" and limit: "unat (wm_size w) + unat delta \<le> page_limit conf"
    using that within_limit_add [OF limit] by (intro wm_grow_alloc_no_panic [OF os wf]) auto
  then show ?thesis by (auto simp: wm_grow_cases outcome_simps)
qed


section \<open>Creation\<close>

text \<open>
  The invariant of a fresh memory. A static memory must reserve its whole limit, which is
  what the choice of the style guarantees.
\<close>

definition style_fits :: "MemoryType \<Rightarrow> MemoryStyle \<Rightarrow> bool" where
  "style_fits memory style = (case style of
     Dynamic _ \<Rightarrow> True
   | Static bound _ \<Rightarrow> mt_minimum memory \<le> bound \<and>
       (case mt_maximum memory of None \<Rightarrow> 65536 \<le> unat bound | Some m \<Rightarrow> m \<le> bound))"

definition guard_ok :: "os \<Rightarrow> MemoryStyle \<Rightarrow> bool" where
  "guard_ok os style = (os_page_size os dvd unat (style_offset_guard_size style) \<and>
     unat (style_offset_guard_size style) < 2 ^ 48)"

fun style_pages :: "MemoryType \<Rightarrow> MemoryStyle \<Rightarrow> Pages" where
  "style_pages memory (Dynamic _) = mt_minimum memory"
| "style_pages memory (Static bound _) = bound"

definition type_ok :: "MemoryType \<Rightarrow> bool" where
  "type_ok memory = (mt_minimum memory \<le> pages_max_value \<and>
     (case mt_maximum memory of None \<Rightarrow> True
      | Some m \<Rightarrow> m \<le> pages_max_value \<and> mt_minimum memory \<le> m))"

definition config_of :: "MemoryType \<Rightarrow> MemoryStyle \<Rightarrow> VMMemoryConfig" where
  "config_of memory style = \<lparr>cf_maximum = mt_maximum memory, cf_memory = memory,
     cf_style = style, cf_offset_guard_size = unat (style_offset_guard_size style)\<rparr>"

definition fresh_mmap :: "MemoryType \<Rightarrow> usize option \<Rightarrow> Mmap \<Rightarrow> WasmMmap" where
  "fresh_mmap memory loc alloc = (let md = \<lparr>md_base = mm_ptr alloc,
       md_current_length = pages_bytes (mt_minimum memory)\<rparr> in
     \<lparr>wm_alloc = alloc, wm_size = mt_minimum memory,
      wm_definition = (case loc of Some l \<Rightarrow> Instance l md | None \<Rightarrow> Host md)\<rparr>)"

lemma om_new_internal_eq:
  assumes os: "os_ok os" and ty: "type_ok memory" and fits: "style_fits memory style"
    and guard: "guard_ok os style"
  shows "om_new_internal os st memory style loc None Private =
    bind_ok (map_err Region (mmap_accessible_reserved os st (pages_bytes (mt_minimum memory))
      (pages_bytes (style_pages memory style) + unat (style_offset_guard_size style))
      None Private)) (\<lambda>(alloc, st1).
        Ok (\<lparr>om_mmap = fresh_mmap memory loc alloc, om_config = config_of memory style\<rparr>, st1))"
proof -
  let ?n = "pages_bytes (mt_minimum memory)"
  let ?r = "pages_bytes (style_pages memory style) + unat (style_offset_guard_size style)"
  have "usize_checked_add (pages_bytes (style_pages memory style))
      (unat (style_offset_guard_size style)) = Some ?r"
    using guard pages_bytes_less [of "style_pages memory style"]
    by (simp add: guard_ok_def usize_checked_add_def)
  moreover have "(case style of Dynamic _ \<Rightarrow> Ok (mt_minimum memory)
      | Static bound _ \<Rightarrow> bind_ok (assert_that (mt_minimum memory \<le> bound)) (\<lambda>_. Ok bound)) =
      (Ok (style_pages memory style) :: (_, MemoryError) outcome)"
    using fits by (cases style) (simp_all add: style_fits_def)
  moreover have "mm_accessible_size alloc = ?n"
    if "mmap_accessible_reserved os st ?n ?r None Private = Ok (alloc, st1)" for alloc st1
    using accessible_reserved_created [OF os that] by (simp add: mmap_created_def)
  moreover have "\<not> pages_max_value < mt_minimum memory"
    "\<not> (case mt_maximum memory of Some m \<Rightarrow> pages_max_value < m | None \<Rightarrow> False)"
    "\<not> (case mt_maximum memory of Some m \<Rightarrow> m < mt_minimum memory | None \<Rightarrow> False)"
    using ty by (auto simp: type_ok_def split: option.splits)
  ultimately show ?thesis
    by (cases "mmap_accessible_reserved os st ?n ?r None Private")
      (auto simp: om_new_internal_def Let_def mmap_as_slice_accessible_def fresh_mmap_def
         config_of_def split: option.splits)
qed

lemma style_pages_minimum:
  "style_fits memory style \<Longrightarrow> pages_bytes (mt_minimum memory) \<le> pages_bytes (style_pages memory style)"
  by (cases style) (simp_all add: style_fits_def pages_bytes_eq word_le_nat_alt)

lemma fresh_memory_wf:
  assumes os: "os_ok os" and ty: "type_ok memory" and fits: "style_fits memory style"
    and guard: "guard_ok os style"
    and c: "mmap_created st (pages_bytes (mt_minimum memory))
      (pages_bytes (style_pages memory style) + unat (style_offset_guard_size style)) alloc st'"
  shows "wm_wf os (config_of memory style) st' (fresh_mmap memory loc alloc) \<and>
         wm_zero_tail (config_of memory style) st' (fresh_mmap memory loc alloc)"
proof -
  let ?w = "fresh_mmap memory loc alloc" and ?conf = "config_of memory style"
  have ps: "page_size_ok os" using os by (simp add: os_ok_def)
  have proj: "wm_alloc ?w = alloc" "wm_size ?w = mt_minimum memory"
    "wm_get_vm_memory_definition ?w =
      \<lparr>md_base = mm_ptr alloc, md_current_length = pages_bytes (mt_minimum memory)\<rparr>"
    by (auto simp: fresh_mmap_def Let_def wm_get_vm_memory_definition_def split: option.splits)
  have cap: "wm_capacity ?conf ?w = pages_bytes (style_pages memory style)"
    using c by (simp add: wm_capacity_def proj config_of_def mmap_created_def)
  note min = style_pages_minimum [OF fits]
  have region: "wm_region_ok os ?conf st' ?w"
    using c guard pages_bytes_dvd [OF ps]
    by (auto simp: wm_region_ok_def proj Let_def config_of_def mmap_created_def guard_ok_def)
  have limit: "unat (mt_minimum memory) \<le> page_limit ?conf"
    using ty by (auto simp: type_ok_def page_limit_def config_of_def word_le_nat_alt
        split: option.splits)
  have room: "pages_bytes (mt_minimum memory) = wm_capacity ?conf ?w \<or>
      page_limit ?conf * 65536 \<le> wm_capacity ?conf ?w"
  proof (cases style)
    case (Dynamic g)
    with cap show ?thesis by simp
  next
    case (Static bound g)
    with fits have "page_limit ?conf \<le> unat bound"
      by (auto simp: style_fits_def page_limit_def config_of_def word_le_nat_alt
          split: option.splits)
    moreover have "wm_capacity ?conf ?w = unat bound * 65536"
      using cap Static by (simp add: pages_bytes_eq)
    ultimately show ?thesis by simp
  qed
  have acc: "mm_accessible_size alloc = pages_bytes (mt_minimum memory)"
    using c by (simp add: mmap_created_def)
  have rw: "\<forall>a. in_range (mm_ptr alloc) (pages_bytes (mt_minimum memory)) a \<longrightarrow> st_rw st' a"
    using c min by (auto simp: mmap_created_def in_range_def)
  have "wm_wf os ?conf st' ?w"
    using region limit room rw min pages_bytes_dvd [OF ps]
    by (simp add: wm_wf_def Let_def proj cap acc)
  moreover have "wm_zero_tail ?conf st' ?w"
    unfolding wm_zero_tail_def proj cap using c by (auto simp: mmap_created_def in_range_def)
  ultimately show ?thesis by blast
qed

section \<open>The interface of a linear memory\<close>

text \<open>
  What a module sees of a memory: it can store a byte below the current length and grow. The
  abstract memory is the list of its bytes. A program is a list of operations; an attempt to
  grow that fails (\<open>memory.grow\<close> then returns -1) leaves the memory as it is.
\<close>

datatype mem_op = Grow Pages | Store nat u8

inductive abs_step :: "nat \<Rightarrow> u8 list \<Rightarrow> mem_op \<Rightarrow> u8 list \<Rightarrow> bool" for limit where
  abs_grow: "length xs + unat d * 65536 \<le> limit * 65536 \<Longrightarrow>
     abs_step limit xs (Grow d) (xs @ replicate (unat d * 65536) 0)"
| abs_grow_refused: "0 < unat d \<Longrightarrow> abs_step limit xs (Grow d) xs"
| abs_store: "i < length xs \<Longrightarrow> abs_step limit xs (Store i v) (xs[i := v])"
| abs_store_trap: "length xs \<le> i \<Longrightarrow> abs_step limit xs (Store i v) xs"

inductive abs_run :: "nat \<Rightarrow> u8 list \<Rightarrow> mem_op list \<Rightarrow> u8 list \<Rightarrow> bool" for limit where
  abs_run_Nil: "abs_run limit xs [] xs"
| abs_run_Cons: "abs_step limit xs op ys \<Longrightarrow> abs_run limit ys ops zs \<Longrightarrow>
     abs_run limit xs (op # ops) zs"

text \<open>The same program on a concrete memory; a store out of bounds traps and stores nothing.\<close>

fun mem_run ::
  "('s \<Rightarrow> 'm \<Rightarrow> Pages \<Rightarrow> (Pages \<times> 'm \<times> 's, MemoryError) outcome) \<Rightarrow>
   ('m \<Rightarrow> nat) \<Rightarrow> ('s \<Rightarrow> 'm \<Rightarrow> nat \<Rightarrow> u8 \<Rightarrow> 's) \<Rightarrow> 's \<Rightarrow> 'm \<Rightarrow> mem_op list \<Rightarrow>
   ('m \<times> 's, MemoryError) outcome" where
  "mem_run grow pages store s m [] = Ok (m, s)"
| "mem_run grow pages store s m (Grow d # ops) =
     (case grow s m d of
        Ok (_, m', s') \<Rightarrow> mem_run grow pages store s' m' ops
      | Err _ \<Rightarrow> mem_run grow pages store s m ops
      | Panic \<Rightarrow> Panic)"
| "mem_run grow pages store s m (Store i v # ops) =
     mem_run grow pages store (if i < pages m * 65536 then store s m i v else s) m ops"

definition mem_contents :: "('m \<Rightarrow> nat) \<Rightarrow> ('s \<Rightarrow> 'm \<Rightarrow> nat \<Rightarrow> u8) \<Rightarrow> 's \<Rightarrow> 'm \<Rightarrow> u8 list" where
  "mem_contents pages byte s m = map (byte s m) [0..<pages m * 65536]"

locale linear_memory =
  fixes ok :: "'e \<Rightarrow> bool"
    and inv :: "'e \<Rightarrow> 's \<Rightarrow> 'm \<Rightarrow> bool"
    and pages :: "'m \<Rightarrow> nat"
    and limit :: "'m \<Rightarrow> nat"
    and byte :: "'s \<Rightarrow> 'm \<Rightarrow> nat \<Rightarrow> u8"
    and store :: "'s \<Rightarrow> 'm \<Rightarrow> nat \<Rightarrow> u8 \<Rightarrow> 's"
    and grow :: "'e \<Rightarrow> 's \<Rightarrow> 'm \<Rightarrow> Pages \<Rightarrow> (Pages \<times> 'm \<times> 's, MemoryError) outcome"
  assumes inv_limit: "inv e s m \<Longrightarrow> pages m \<le> limit m"
    and grow_total: "ok e \<Longrightarrow> inv e s m \<Longrightarrow> grow e s m d \<noteq> Panic"
    and grow_zero: "inv e s m \<Longrightarrow> \<exists>p. grow e s m 0 = Ok (p, m, s)"
    and grow_inv: "ok e \<Longrightarrow> inv e s m \<Longrightarrow> grow e s m d = Ok (p, m', s') \<Longrightarrow> inv e s' m'"
    and grow_pages: "ok e \<Longrightarrow> inv e s m \<Longrightarrow> grow e s m d = Ok (p, m', s') \<Longrightarrow>
      unat p = pages m \<and> pages m' = pages m + unat d \<and> limit m' = limit m"
    and grow_old: "ok e \<Longrightarrow> inv e s m \<Longrightarrow> grow e s m d = Ok (p, m', s') \<Longrightarrow>
      i < pages m * 65536 \<Longrightarrow> byte s' m' i = byte s m i"
    and grow_new: "ok e \<Longrightarrow> inv e s m \<Longrightarrow> grow e s m d = Ok (p, m', s') \<Longrightarrow>
      pages m * 65536 \<le> i \<Longrightarrow> i < pages m' * 65536 \<Longrightarrow> byte s' m' i = 0"
    and store_inv: "inv e s m \<Longrightarrow> i < pages m * 65536 \<Longrightarrow> inv e (store s m i v) m"
    and store_byte: "inv e s m \<Longrightarrow> i < pages m * 65536 \<Longrightarrow> j < pages m * 65536 \<Longrightarrow>
      byte (store s m i v) m j = (if j = i then v else byte s m j)"
begin

abbreviation contents :: "'s \<Rightarrow> 'm \<Rightarrow> u8 list" where
  "contents \<equiv> mem_contents pages byte"

lemma contents_grow:
  assumes "ok e" and "inv e s m" and "grow e s m d = Ok (p, m', s')"
  shows "contents s' m' = contents s m @ replicate (unat d * 65536) 0"
proof (rule nth_equalityI)
  have pages: "pages m' = pages m + unat d" using grow_pages [OF assms] by simp
  then show "length (contents s' m') = length (contents s m @ replicate (unat d * 65536) 0)"
    by (simp add: mem_contents_def add_mult_distrib)
  fix i assume "i < length (contents s' m')"
  then have i: "i < pages m' * 65536" by (simp add: mem_contents_def)
  show "contents s' m' ! i = (contents s m @ replicate (unat d * 65536) 0) ! i"
  proof (cases "i < pages m * 65536")
    case True
    with grow_old [OF assms True] i show ?thesis by (simp add: mem_contents_def nth_append)
  next
    case False
    with grow_new [OF assms _ i] i pages show ?thesis
      by (simp add: mem_contents_def nth_append add_mult_distrib)
  qed
qed

lemma contents_store:
  assumes "inv e s m" and "i < pages m * 65536"
  shows "contents (store s m i v) m = (contents s m)[i := v]"
  using assms by (intro nth_equalityI) (simp_all add: mem_contents_def nth_list_update store_byte)

lemma mem_run_refines:
  assumes "ok e" and "inv e s m"
  shows "\<exists>m' s'. mem_run (grow e) pages store s m ops = Ok (m', s') \<and> inv e s' m' \<and>
    limit m' = limit m \<and> abs_run (limit m) (contents s m) ops (contents s' m')"
  using assms(2)
proof (induction ops arbitrary: s m)
  case Nil
  then show ?case by (auto intro: abs_run_Nil)
next
  case (Cons op ops)
  show ?case
  proof (cases op)
    case (Grow d)
    show ?thesis
    proof (cases "grow e s m d")
      case (Ok r)
      then obtain p m' s' where run: "grow e s m d = Ok (p, m', s')" by (cases r) auto
      note inv' = grow_inv [OF assms(1) Cons.prems run]
      have "pages m' \<le> limit m"
        using inv_limit [OF inv'] grow_pages [OF assms(1) Cons.prems run] by simp
      then have "abs_step (limit m) (contents s m) op (contents s' m')"
        using grow_pages [OF assms(1) Cons.prems run]
        by (simp add: Grow contents_grow [OF assms(1) Cons.prems run])
          (rule abs_grow, simp add: mem_contents_def)
      with Cons.IH [OF inv'] run grow_pages [OF assms(1) Cons.prems run] show ?thesis
        by (auto simp: Grow intro: abs_run_Cons)
    next
      case (Err x)
      have "d \<noteq> 0" using Err grow_zero [OF Cons.prems] by auto
      then have "abs_step (limit m) (contents s m) op (contents s m)"
        unfolding Grow by (intro abs_grow_refused) (simp add: unat_gt_0)
      with Cons.IH [OF Cons.prems] Err show ?thesis
        by (auto simp: Grow intro: abs_run_Cons)
    next
      case Panic
      with grow_total [OF assms(1) Cons.prems] show ?thesis by simp
    qed
  next
    case (Store i v)
    show ?thesis
    proof (cases "i < pages m * 65536")
      case True
      have "abs_step (limit m) (contents s m) op (contents (store s m i v) m)"
        using True by (simp add: Store contents_store [OF Cons.prems True])
          (rule abs_store, simp add: mem_contents_def)
      with Cons.IH [OF store_inv [OF Cons.prems True, of v]] True show ?thesis
        by (auto simp: Store intro: abs_run_Cons)
    next
      case False
      then have "abs_step (limit m) (contents s m) op (contents s m)"
        unfolding Store by (intro abs_store_trap) (simp add: mem_contents_def)
      with Cons.IH [OF Cons.prems] False show ?thesis
        by (auto simp: Store intro: abs_run_Cons)
    qed
  qed
qed

end

section \<open>Owned memories as linear memories\<close>

definition om_inv :: "os \<Rightarrow> os_state \<Rightarrow> VMOwnedMemory \<Rightarrow> bool" where
  "om_inv os st m = (wm_wf os (om_config m) st (om_mmap m) \<and>
     wm_zero_tail (om_config m) st (om_mmap m))"

definition om_pages :: "VMOwnedMemory \<Rightarrow> nat" where
  "om_pages m = unat (wm_size (om_mmap m))"

definition om_limit :: "VMOwnedMemory \<Rightarrow> nat" where
  "om_limit m = page_limit (om_config m)"

text \<open>A byte of the memory is read and stored relative to the base that compiled code sees.\<close>

definition om_byte :: "os_state \<Rightarrow> VMOwnedMemory \<Rightarrow> nat \<Rightarrow> u8" where
  "om_byte st m i = st_heap st (md_base (om_vmmemory m) + i)"

definition om_store :: "os_state \<Rightarrow> VMOwnedMemory \<Rightarrow> nat \<Rightarrow> u8 \<Rightarrow> os_state" where
  "om_store st m i v = st\<lparr>st_heap := (st_heap st)(md_base (om_vmmemory m) + i := v)\<rparr>"

lemma om_inv_base:
  "om_inv os st m \<Longrightarrow> md_base (om_vmmemory m) = mm_ptr (wm_alloc (om_mmap m))"
  by (simp add: om_inv_def wm_wf_def Let_def om_vmmemory_def wm_get_vm_memory_definition_def)

lemma om_grow_okD:
  assumes "os_ok os" and "om_inv os st m" and "om_grow os st m d = Ok (p, m', st')"
  shows "om_inv os st' m'" and "p = wm_size (om_mmap m)" and "om_pages m' = om_pages m + unat d"
    and "om_config m' = om_config m" and "others_kept st st' (wm_alloc (om_mmap m))"
    and "\<forall>i. om_byte st' m' i = (if i < om_pages m * 65536 then om_byte st m i else 0) \<or>
           om_pages m' * 65536 \<le> i"
proof -
  let ?w = "om_mmap m" and ?c = "om_config m"
  from assms(3) obtain w' where run: "wm_grow os st ?w d ?c = Ok (p, w', st')"
    and m': "m' = m\<lparr>om_mmap := w'\<rparr>"
    by (auto simp: om_grow_def outcome_simps)
  have wf: "wm_wf os ?c st ?w" and zero: "wm_zero_tail ?c st ?w"
    using assms(2) by (simp_all add: om_inv_def)
  note ok = wm_grow_ok [OF assms(1) wf run]
  have cap: "pages_bytes (wm_size w') \<le> wm_capacity ?c w'" using wm_wf_region(10) [OF ok(3)] .
  have "wm_zero_tail ?c st' w'"
    using ok(2,5) zero by (auto simp: wm_zero_tail_def grown_contents_def wm_capacity_def
        pages_bytes_eq)
  with ok(3) show inv': "om_inv os st' m'" by (simp add: om_inv_def m')
  show "p = wm_size ?w" "om_pages m' = om_pages m + unat d" "om_config m' = ?c"
    "others_kept st st' (wm_alloc ?w)"
    using ok by (simp_all add: om_pages_def m')
  have base: "md_base (om_vmmemory m) = mm_ptr (wm_alloc ?w)"
    "md_base (om_vmmemory m') = mm_ptr (wm_alloc w')"
    using om_inv_base [OF assms(2)] om_inv_base [OF inv'] by (simp_all add: m')
  have "om_byte st' m' i = (if i < om_pages m * 65536 then om_byte st m i else 0)"
    if "i < om_pages m' * 65536" for i
    using that ok(5) zero cap
    unfolding om_byte_def base
    by (auto simp: grown_contents_def m' pages_bytes_eq om_pages_def wm_capacity_def)
  then show "\<forall>i. om_byte st' m' i = (if i < om_pages m * 65536 then om_byte st m i else 0) \<or>
      om_pages m' * 65536 \<le> i"
    by (meson not_less)
qed

lemma om_store_inv:
  assumes "om_inv os st m" and "i < om_pages m * 65536"
  shows "om_inv os (om_store st m i v) m"
proof -
  have "pages_bytes (wm_size (om_mmap m)) = om_pages m * 65536"
    by (simp add: om_pages_def pages_bytes_eq)
  with assms show ?thesis
    by (auto simp: om_inv_def wm_wf_def wm_region_ok_def wm_zero_tail_def Let_def om_store_def
        om_inv_base [OF assms(1)])
qed

interpretation om: linear_memory os_ok om_inv om_pages om_limit om_byte om_store om_grow
proof
  fix os st m d p m' st' i j v
  show "om_pages m \<le> om_limit m" if "om_inv os st m"
    using that wm_wf_region(11) [of os "om_config m" st "om_mmap m"]
    by (simp add: om_inv_def om_pages_def om_limit_def)
  show "om_grow os st m d \<noteq> Panic" if "os_ok os" "om_inv os st m"
    using that wm_grow_no_panic [of os "om_config m" st "om_mmap m"]
    by (auto simp: om_grow_def outcome_simps om_inv_def)
  show "\<exists>p. om_grow os st m 0 = Ok (p, m, st)"
    by (simp add: om_grow_def wm_grow_cases)
  show "om_inv os (om_store st m i v) m" if "om_inv os st m" "i < om_pages m * 65536"
    using that by (rule om_store_inv)
  show "om_byte (om_store st m i v) m j = (if j = i then v else om_byte st m j)"
    by (simp add: om_byte_def om_store_def)
  assume h: "os_ok os" "om_inv os st m" "om_grow os st m d = Ok (p, m', st')"
  note ok = om_grow_okD [OF h]
  show "om_inv os st' m'" by (rule ok(1))
  show "unat p = om_pages m \<and> om_pages m' = om_pages m + unat d \<and> om_limit m' = om_limit m"
    using ok by (simp add: om_pages_def om_limit_def)
  show "om_byte st' m' i = om_byte st m i" if "i < om_pages m * 65536"
    using that ok(3,6) by (metis add_mult_distrib not_less trans_less_add1)
  show "om_byte st' m' i = 0" if "om_pages m * 65536 \<le> i" "i < om_pages m' * 65536"
    using that ok(6) by (metis not_less)
qed

section \<open>Growing to a minimum size\<close>

text \<open>The page count that \<open>grow_at_least\<close> computes, and what the cast makes of it.\<close>

definition growth_pages :: "nat \<Rightarrow> nat \<Rightarrow> nat" where
  "growth_pages cur min_size = (min_size - cur - 1) div 65536 + 1"

lemma growth_pages_word:
  fixes min_size :: u64
  assumes "cur < unat min_size"
  shows "unat (ucast ((min_size - of_nat cur - 1) div of_nat WASM_PAGE_SIZE + 1 :: u64) :: u32) =
    growth_pages cur (unat min_size) mod 2 ^ 32"
proof -
  have lim: "unat min_size < 2 ^ 64" using unsigned_less [of min_size] by simp
  then have cur: "unat (of_nat cur :: u64) = cur"
    using assms by (simp add: unat_of_nat)
  have "unat (min_size - of_nat cur) = unat min_size - cur"
    using assms cur by (simp add: unat_sub word_le_nat_alt)
  then have g: "unat (min_size - of_nat cur - 1) = unat min_size - cur - 1"
    using assms by (subst unat_sub) (simp_all add: word_le_nat_alt)
  have "unat ((min_size - of_nat cur - 1) div of_nat WASM_PAGE_SIZE) =
      (unat min_size - cur - 1) div 65536"
    by (simp add: unat_div WASM_PAGE_SIZE_def g)
  moreover have "(unat min_size - cur - 1) div 65536 + 1 < 2 ^ 64"
    using lim by simp
  ultimately have "unat ((min_size - of_nat cur - 1) div of_nat WASM_PAGE_SIZE + 1 :: u64) =
      growth_pages cur (unat min_size)"
    by (simp add: growth_pages_def unat_word_ariths)
  then show ?thesis by (simp add: unsigned_ucast_eq take_bit_eq_mod)
qed

lemma wm_grow_at_least_cases:
  "wm_grow_at_least os st w min_size conf =
    (if pages_bytes (wm_size w) < unat min_size
     then bind_ok (wm_grow os st w
         (as_u32 (growth_pages (pages_bytes (wm_size w)) (unat min_size))) conf)
       (\<lambda>(_, w', st'). Ok (w', st'))
     else Ok (w, st))"
proof -
  have cur: "unat (of_nat (pages_bytes (wm_size w)) :: u64) = pages_bytes (wm_size w)"
    using pages_bytes_less [of "wm_size w"] by (simp add: unat_of_nat)
  have "ucast ((min_size - of_nat (pages_bytes (wm_size w)) - 1) div of_nat WASM_PAGE_SIZE + 1) =
      as_u32 (growth_pages (pages_bytes (wm_size w)) (unat min_size))"
    if "pages_bytes (wm_size w) < unat min_size"
    using growth_pages_word [OF that] by (simp add: word_unat_eq_iff unat_as_u32)
  then show ?thesis
    by (auto simp: wm_grow_at_least_def Let_def word_less_nat_alt cur)
qed

lemma growth_pages_enough: "cur < n \<Longrightarrow> n \<le> cur + growth_pages cur n * 65536"
proof -
  assume "cur < n"
  have "n - cur - 1 < growth_pages cur n * 65536"
    unfolding growth_pages_def by (simp add: dividend_less_div_times)
  with \<open>cur < n\<close> show ?thesis by linarith
qed

lemma wm_grow_at_least_ok:
  assumes "os_ok os" and "wm_wf os conf st w" and "unat min_size \<le> 2 ^ 48 - 65536"
    and "wm_grow_at_least os st w min_size conf = Ok (w', st')"
  shows "unat min_size \<le> pages_bytes (wm_size w')" and "wm_wf os conf st' w'"
proof -
  let ?cur = "pages_bytes (wm_size w)" and ?n = "unat min_size"
  have "?n \<le> pages_bytes (wm_size w') \<and> wm_wf os conf st' w'"
  proof (cases "?cur < ?n")
    case True
    with assms(4) obtain p where run:
      "wm_grow os st w (as_u32 (growth_pages ?cur ?n)) conf = Ok (p, w', st')"
      by (auto simp: wm_grow_at_least_cases outcome_simps)
    have "growth_pages ?cur ?n < 2 ^ 32" using assms(3) True by (simp add: growth_pages_def)
    then have "unat (as_u32 (growth_pages ?cur ?n)) = growth_pages ?cur ?n"
      by (simp add: unat_as_u32)
    with wm_grow_ok(2,3) [OF assms(1,2) run] growth_pages_enough [OF True] show ?thesis
      by (simp add: pages_bytes_eq add_mult_distrib)
  next
    case False
    with assms show ?thesis by (auto simp: wm_grow_at_least_cases)
  qed
  then show "?n \<le> pages_bytes (wm_size w')" and "wm_wf os conf st' w'" by blast+
qed

section \<open>Copying\<close>

text \<open>A copy is a fresh mapping of the same shape with the same bytes.\<close>

lemma wm_copy_eq:
  assumes "os_ok os" and "wm_wf os conf st w"
  defines "n \<equiv> max (mm_accessible_size (wm_alloc w)) (pages_bytes (wm_size w))"
  shows "wm_copy os st w =
    bind_ok (map_err Generic
      (mmap_accessible_reserved os st n (mm_total_size (wm_alloc w)) None Private))
      (\<lambda>(new, st1). Ok (\<lparr>wm_alloc = new, wm_size = wm_size w,
         wm_definition = Host \<lparr>md_base = mm_ptr new,
           md_current_length = pages_bytes (wm_size w)\<rparr>\<rparr>,
         st1\<lparr>st_heap := heap_move (st_heap st1) (mm_ptr (wm_alloc w)) (mm_ptr new) n\<rparr>))"
proof -
  let ?m = "wm_alloc w"
  have n: "n \<le> mm_total_size ?m"
    using assms(2) wm_wf_region(5,10) [OF assms(2)] by (auto simp: n_def wm_wf_def Let_def)
  have "copy_from_slice st1 (mm_ptr new, n) (mm_ptr ?m, n) =
      (Ok (st1\<lparr>st_heap := heap_move (st_heap st1) (mm_ptr ?m) (mm_ptr new) n\<rparr>) ::
        (_, string) outcome)"
    and "mm_total_size new = mm_total_size ?m"
    if run: "mmap_accessible_reserved os st n (mm_total_size ?m) None Private = Ok (new, st1)"
    for new st1
  proof -
    note c = accessible_reserved_created [OF assms(1) run]
    show "mm_total_size new = mm_total_size ?m" using c by (simp add: mmap_created_def)
    have "in_range (mm_ptr ?m) n a \<Longrightarrow> st_rw st1 a" for a
      using wm_move_apart [OF assms(2) c, of a] assms(2) c n
      by (auto simp: mmap_created_def in_range_def wm_wf_def Let_def n_def)
    moreover have "in_range (mm_ptr new) n a \<Longrightarrow> st_rw st1 a" for a
      using n c by (auto simp: mmap_created_def in_range_def)
    ultimately show "copy_from_slice st1 (mm_ptr new, n) (mm_ptr ?m, n) =
        (Ok (st1\<lparr>st_heap := heap_move (st_heap st1) (mm_ptr ?m) (mm_ptr new) n\<rparr>) ::
          (_, string) outcome)"
      by (auto simp: copy_from_slice_def readable_def in_range_def assert_that_def)
  qed
  with n show ?thesis
    by (cases "mmap_accessible_reserved os st n (mm_total_size ?m) None Private")
      (auto simp: wm_copy_def mmap_copy_def Let_def n_def [symmetric] mmap_as_slice_arbitary_def)
qed

lemma wm_copy_no_panic:
  assumes "os_ok os" and "wm_wf os conf st w"
  shows "wm_copy os st w \<noteq> Panic"
proof -
  have ps: "page_size_ok os" using assms(1) by (simp add: os_ok_def)
  have "max (mm_accessible_size (wm_alloc w)) (pages_bytes (wm_size w)) \<le> mm_total_size (wm_alloc w)"
    "os_page_size os dvd mm_accessible_size (wm_alloc w)"
    using assms(2) wm_wf_region(5,10) [OF assms(2)] by (auto simp: wm_wf_def Let_def)
  then show ?thesis
    using accessible_reserved_no_panic [OF assms(1)] wm_wf_region(8) [OF assms(2)]
      pages_bytes_dvd [OF ps]
    by (auto simp: wm_copy_eq [OF assms] outcome_simps max_def)
qed

lemma wm_copy_ok:
  assumes os: "os_ok os" and wf: "wm_wf os conf st w" and run: "wm_copy os st w = Ok (w', st')"
  shows "wm_size w' = wm_size w" and "wm_wf os conf st' w'"
    and "\<forall>i < pages_bytes (wm_size w).
      st_heap st' (mm_ptr (wm_alloc w') + i) = st_heap st (mm_ptr (wm_alloc w) + i)"
    and "wm_zero_tail conf st w \<Longrightarrow> wm_zero_tail conf st' w'"
    and "\<forall>a. st_mapped st a \<longrightarrow> st_heap st' a = st_heap st a \<and> st_mapped st' a \<and>
      st_rw st' a = st_rw st a \<and>
      \<not> in_range (mm_ptr (wm_alloc w')) (mm_total_size (wm_alloc w')) a"
proof -
  let ?m = "wm_alloc w" and ?m' = "wm_alloc w'"
  let ?n = "max (mm_accessible_size ?m) (pages_bytes (wm_size w))"
  from run obtain st1 where
    alloc: "mmap_accessible_reserved os st ?n (mm_total_size ?m) None Private = Ok (?m', st1)"
    and w': "wm_size w' = wm_size w" "wm_definition w' = Host \<lparr>md_base = mm_ptr ?m',
           md_current_length = pages_bytes (wm_size w)\<rparr>"
    and st': "st' = st1\<lparr>st_heap := heap_move (st_heap st1) (mm_ptr ?m) (mm_ptr ?m') ?n\<rparr>"
    by (auto simp: wm_copy_eq [OF os wf] outcome_simps)
  note c = accessible_reserved_created [OF os alloc]
  note reg = wm_wf_region [OF wf]
  have shape: "mm_total_size ?m' = mm_total_size ?m" "mm_accessible_size ?m' = ?n"
    using c by (simp_all add: mmap_created_def)
  have cap: "wm_capacity conf w' = wm_capacity conf w" by (simp add: wm_capacity_def shape)
  have n: "?n \<le> wm_capacity conf w" using wf reg(10) by (simp add: wm_wf_def Let_def)
  show "wm_size w' = wm_size w" by (rule w')
  have ps: "page_size_ok os" using os by (simp add: os_ok_def)
  have region: "wm_region_ok os conf st' w'"
    using c wf reg by (auto simp: wm_region_ok_def Let_def st' shape mmap_created_def)
  have "os_page_size os dvd ?n"
    using wf pages_bytes_dvd [OF ps] by (simp add: wm_wf_def Let_def max_def)
  moreover have "\<forall>a. in_range (mm_ptr ?m') ?n a \<longrightarrow> st_rw st' a"
    using c n reg(5) by (auto simp: st' mmap_created_def in_range_def)
  ultimately show "wm_wf os conf st' w'"
    using wf n region by (auto simp: wm_wf_def Let_def w' shape cap wm_get_vm_memory_definition_def)
  have byte: "st_heap st' (mm_ptr ?m' + i) = (if i < ?n then st_heap st (mm_ptr ?m + i) else 0)"
    if "i < mm_total_size ?m" for i
    using that wm_move_apart [OF wf c, of "mm_ptr ?m + i"] c n reg(5)
    by (auto simp: st' heap_move_def mmap_created_def in_range_def)
  then show "\<forall>i < pages_bytes (wm_size w).
      st_heap st' (mm_ptr ?m' + i) = st_heap st (mm_ptr ?m + i)"
    using reg(5,10) by auto
  show "wm_zero_tail conf st' w'" if "wm_zero_tail conf st w"
    using that byte reg(5) by (auto simp: wm_zero_tail_def cap w')
  show "\<forall>a. st_mapped st a \<longrightarrow> st_heap st' a = st_heap st a \<and> st_mapped st' a \<and>
      st_rw st' a = st_rw st a \<and> \<not> in_range (mm_ptr ?m') (mm_total_size ?m') a"
    using c n reg(5) by (auto simp: st' heap_move_def mmap_created_def in_range_def shape)
qed

section \<open>A concrete system\<close>

text \<open>
  An instance of the assumptions on the system, for the witnesses: mappings are handed out in
  increasing order from \<open>st_kernel\<close> on, nothing is refused while addresses are left, and there
  are no files.
\<close>

definition example_mmap ::
  "os_state \<Rightarrow> usize \<Rightarrow> prot \<Rightarrow> map_flags \<Rightarrow> nat option \<Rightarrow> (usize \<times> os_state, string) outcome" where
  "example_mmap st n pr fl fd =
     (let p = st_kernel st in
      if 0 < p \<and> p + n < usize_limit \<and> (\<forall>a \<in> {p..<p + n}. \<not> st_mapped st a)
      then Ok (p, \<lparr>st_heap = heap_fill (st_heap st) p 0 n,
             st_mapped = (\<lambda>a. in_range p n a \<or> st_mapped st a),
             st_rw = (\<lambda>a. if in_range p n a then pr = PROT_READ_WRITE else st_rw st a),
             st_kernel = p + n\<rparr>)
      else Err ''ENOMEM'')"

definition example_os :: os where
  "example_os = \<lparr>os_page_size = 4096, os_mmap = example_mmap,
     os_munmap = (\<lambda>st p n. Some (st\<lparr>st_mapped := (\<lambda>a. \<not> in_range p n a \<and> st_mapped st a),
       st_rw := (\<lambda>a. \<not> in_range p n a \<and> st_rw st a)\<rparr>)),
     os_msync = (\<lambda>st p n. Some st),
     os_protect_rw = (\<lambda>st p n. Ok (st\<lparr>st_rw := (\<lambda>a. in_range p n a \<or> st_rw st a)\<rparr>)),
     fs_open_rw = (\<lambda>st path. Err ''ENOENT''), fs_len = (\<lambda>st fd. Err ''EBADF''),
     fs_set_len = (\<lambda>st fd n. Err ''EBADF''), fs_write = (\<lambda>st path s. st),
     fs_exists = (\<lambda>st path. False), fs_read_to_string = (\<lambda>st path. Err ''ENOENT'')\<rparr>"

definition example_state :: os_state where
  "example_state = \<lparr>st_heap = (\<lambda>a. 7), st_mapped = (\<lambda>a. False), st_rw = (\<lambda>a. False),
     st_kernel = 1048576\<rparr>"

lemma example_os_simps [simp]:
  "os_page_size example_os = 4096" "os_mmap example_os = example_mmap"
  "os_protect_rw example_os st p n = Ok (st\<lparr>st_rw := (\<lambda>a. in_range p n a \<or> st_rw st a)\<rparr>)"
  "os_munmap example_os st p n = Some (st\<lparr>st_mapped := (\<lambda>a. \<not> in_range p n a \<and> st_mapped st a),
     st_rw := (\<lambda>a. \<not> in_range p n a \<and> st_rw st a)\<rparr>)"
  by (simp_all add: example_os_def)

lemma os_ok_example: "os_ok example_os"
proof -
  have "page_size_ok example_os"
    unfolding page_size_ok_def by (rule exI [of _ 12]) simp
  moreover have "mmap_ok example_os"
    by (auto simp: mmap_ok_def example_mmap_def Let_def heap_fill_def in_range_def
        split: if_splits)
  moreover have "mmap_no_panic example_os"
    by (simp add: mmap_no_panic_def example_mmap_def Let_def)
  moreover have "munmap_ok example_os" "protect_ok example_os"
    by (simp_all add: munmap_ok_def protect_ok_def)
  ultimately show ?thesis by (simp add: os_ok_def)
qed

text \<open>A memory of one page that may grow to three, in the dynamic style.\<close>

definition example_type :: MemoryType where
  "example_type = \<lparr>mt_minimum = 1, mt_maximum = Some 3, mt_shared = False\<rparr>"

definition example_style :: MemoryStyle where
  "example_style = Dynamic 65536"

lemma example_ok:
  "type_ok example_type" "style_fits example_type example_style" "guard_ok example_os example_style"
  by (simp_all add: type_ok_def example_type_def style_fits_def example_style_def guard_ok_def
      word_le_nat_alt)

definition example_alloc :: Mmap where
  "example_alloc = \<lparr>mm_ptr = 1048576, mm_total_size = 131072, mm_accessible_size = 65536,
     mm_sync_on_drop = False\<rparr>"

definition example_memory :: VMOwnedMemory where
  "example_memory = \<lparr>om_mmap = fresh_mmap example_type None example_alloc,
     om_config = config_of example_type example_style\<rparr>"

definition example_memory_state :: os_state where
  "example_memory_state = (case mmap_accessible_reserved example_os example_state 65536 131072
     None Private of Ok (_, st) \<Rightarrow> st | _ \<Rightarrow> example_state)"

lemma example_reserved:
  "mmap_accessible_reserved example_os example_state 65536 131072 None Private =
     Ok (example_alloc, example_memory_state)"
proof -
  have ps: "page_size_ok example_os" using os_ok_example by (simp add: os_ok_def)
  have "\<exists>st. mmap_accessible_reserved example_os example_state 65536 131072 None Private =
     Ok (example_alloc, st)"
    by (simp add: mmap_accessible_reserved_def page_offset_dvd [OF ps] make_accessible_eq
        [OF os_ok_example] example_alloc_def example_mmap_def example_state_def)
  then show ?thesis by (auto simp: example_memory_state_def)
qed

lemma example_memory_new:
  "om_new example_os example_state example_type example_style =
     Ok (example_memory, example_memory_state)"
  unfolding om_new_def om_new_internal_eq [OF os_ok_example example_ok]
  using example_reserved
  by (simp add: example_type_def example_style_def pages_bytes_eq example_memory_def)

lemma example_memory_inv: "om_inv example_os example_memory_state example_memory"
  using fresh_memory_wf [OF os_ok_example example_ok, where loc = None and alloc = example_alloc
      and st = example_state and st' = example_memory_state]
    accessible_reserved_created [OF os_ok_example example_reserved]
  by (simp add: om_inv_def example_memory_def)
    (simp add: example_type_def example_style_def pages_bytes_eq)

lemma example_grow:
  "\<exists>m st. om_grow example_os example_memory_state example_memory 1 = Ok (1, m, st)"
proof -
  have ps: "page_size_ok example_os" using os_ok_example by (simp add: os_ok_def)
  have fresh: "\<forall>a \<in> {1179648..<1376256}. \<not> in_range 1048576 131072 a"
    by (simp add: in_range_def)
  show ?thesis
    using example_reserved fresh
    by (simp add: om_grow_def wm_grow_cases wm_grow_alloc_def example_memory_def fresh_mmap_def
        config_of_def page_limit_def mmap_accessible_reserved_def page_offset_dvd [OF ps]
        example_memory_state_def example_alloc_def example_type_def example_style_def
        pages_bytes_eq usize_sub_def usize_checked_add_def make_accessible_eq [OF os_ok_example]
        example_mmap_def example_state_def slice_prefix_def mmap_as_slice_def copy_from_slice_def
        mmap_drop_def)
      (simp add: readable_def in_range_def)
qed

section \<open>Properties of owned memories\<close>

lemma om_size_inv: "om_inv os st m \<Longrightarrow> om_size m = Ok (wm_size (om_mmap m))"
  by (simp add: om_inv_def wm_wf_def Let_def om_size_def wm_get_size_def)

lemma fresh_memory_zero:
  assumes "mmap_created st (pages_bytes (mt_minimum memory)) n alloc st'" 
    and "pages_bytes (mt_minimum memory) \<le> n"
  shows "mem_contents om_pages om_byte st'
      \<lparr>om_mmap = fresh_mmap memory loc alloc, om_config = conf\<rparr> =
    replicate (pages_bytes (mt_minimum memory)) 0"
  using assms
  by (intro nth_equalityI)
    (auto simp: mem_contents_def om_pages_def om_byte_def om_vmmemory_def fresh_mmap_def Let_def
      pages_bytes_eq mmap_created_def in_range_def split: option.splits)

lemma fresh_memory_ty:
  "om_ty \<lparr>om_mmap = fresh_mmap memory loc alloc, om_config = config_of memory style\<rparr> = Ok memory"
  by (simp add: om_ty_def wm_get_size_def wm_get_vm_memory_definition_def fresh_mmap_def Let_def
      cf_ty_def config_of_def split: option.split)

lemma om_new_internal_rejects:
  "\<not> type_ok memory \<Longrightarrow> \<exists>e. (\<forall>s. e \<noteq> Region s) \<and>
     om_new_internal os st memory style loc file ty = Err e"
  by (auto simp: om_new_internal_def type_ok_def split: option.splits)

text \<open>
  C8: creating a memory. A type whose limits are inconsistent is rejected with an error of its
  own. Otherwise the only possible failure is that the system refuses the mapping, and a
  created memory satisfies the invariant, has the minimum size and the declared type, reads
  as zeros, and has disturbed nothing that was mapped before. Creation never panics.
\<close>

theorem memory_new_correct:
  assumes "os_ok os" and "style_fits memory style" and "guard_ok os style"
  shows "case om_new_internal os st memory style loc None Private of
      Ok (m, st') \<Rightarrow> type_ok memory \<and> om_inv os st' m \<and>
        om_size m = (Ok (mt_minimum memory) :: (_, unit) outcome) \<and>
        om_ty m = (Ok memory :: (_, unit) outcome) \<and>
        mem_contents om_pages om_byte st' m = replicate (pages_bytes (mt_minimum memory)) 0 \<and>
        (\<forall>a. st_mapped st a \<longrightarrow> st_heap st' a = st_heap st a \<and> st_rw st' a = st_rw st a)
    | Err e \<Rightarrow> (\<exists>s. e = Region s) = type_ok memory
    | Panic \<Rightarrow> False"
proof (cases "type_ok memory")
  case False
  then show ?thesis using om_new_internal_rejects [OF False, of os st style loc None Private] by auto
next
  case True
  let ?n = "pages_bytes (mt_minimum memory)"
  let ?r = "pages_bytes (style_pages memory style) + unat (style_offset_guard_size style)"
  let ?m = "\<lambda>alloc. \<lparr>om_mmap = fresh_mmap memory loc alloc, om_config = config_of memory style\<rparr>"
  have n: "?n \<le> ?r" using style_pages_minimum [OF assms(2)] by simp
  have "page_size_ok os" using assms(1) by (simp add: os_ok_def)
  then have np: "mmap_accessible_reserved os st ?n ?r None Private \<noteq> Panic"
    using assms(3) n
    by (intro accessible_reserved_no_panic assms(1)) (simp_all add: pages_bytes_dvd guard_ok_def)
  have "om_inv os st' (?m alloc) \<and>
      om_size (?m alloc) = (Ok (mt_minimum memory) :: (_, unit) outcome) \<and>
      om_ty (?m alloc) = (Ok memory :: (_, unit) outcome) \<and>
      mem_contents om_pages om_byte st' (?m alloc) = replicate ?n 0 \<and>
      (\<forall>a. st_mapped st a \<longrightarrow> st_heap st' a = st_heap st a \<and> st_rw st' a = st_rw st a)"
    if "mmap_accessible_reserved os st ?n ?r None Private = Ok (alloc, st')" for alloc st'
  proof -
    note c = accessible_reserved_created [OF assms(1) that]
    have inv: "om_inv os st' (?m alloc)"
      using fresh_memory_wf [OF assms(1) True assms(2,3) c] by (simp add: om_inv_def)
    show ?thesis
      using inv om_size_inv [OF inv] fresh_memory_zero [OF c n] c
      by (auto simp: mmap_created_def fresh_memory_ty) (simp add: fresh_mmap_def Let_def)
  qed
  then show ?thesis
    using np True
    by (cases "mmap_accessible_reserved os st ?n ?r None Private")
      (auto simp: om_new_internal_eq [OF assms(1) True assms(2,3)])
qed

theorem memory_new_correct_witness:
  "om_new_internal example_os example_state example_type example_style None None Private =
     Ok (example_memory, example_memory_state) \<and>
   om_inv example_os example_memory_state example_memory \<and>
   mem_contents om_pages om_byte example_memory_state example_memory = replicate 65536 0"
  using memory_new_correct [OF os_ok_example example_ok(2,3), where st = example_state and loc = None]
    example_memory_new
  by (simp add: om_new_def pages_bytes_eq example_type_def)

lemma wm_grow_alloc_Err:
  assumes "wm_wf os conf st w" and "wm_grow_alloc os st w conf d q = Err e"
  shows "\<exists>s. e = Region s"
  using assms(2)
  by (auto simp: wm_grow_alloc_def Let_def outcome_simps request_bytes_ok [OF assms(1)]
      slice_prefix_def copy_from_slice_def split: if_splits)

lemma om_grow_Err:
  assumes "os_ok os" and "om_inv os st m" and "om_grow os st m d = Err e"
  shows "if om_limit m < om_pages m + unat d
    then e = CouldNotGrow (wm_size (om_mmap m)) d else \<exists>s. e = Region s"
proof -
  have "wm_wf os (om_config m) st (om_mmap m)" using assms(2) by (simp add: om_inv_def)
  from wm_grow_alloc_Err [OF this] assms(3) show ?thesis
    by (auto simp: om_grow_def wm_grow_cases outcome_simps om_limit_def om_pages_def
        split: if_splits)
qed

text \<open>
  C7: growing. A request beyond the limit of the memory (its maximum, at most 65536 pages)
  fails with \<open>CouldNotGrow\<close>. Any other request can only fail because the system refuses it;
  when it succeeds it returns the previous size, adds exactly the requested pages, keeps every
  byte, adds zeros, and touches no mapping but the memory's own. It never panics.
\<close>

theorem memory_grow_correct:
  assumes "os_ok os" and "om_inv os st m"
  shows "case om_grow os st m d of
      Ok (p, m', st') \<Rightarrow> om_size m = (Ok p :: (_, unit) outcome) \<and> om_inv os st' m' \<and>
        om_pages m' = om_pages m + unat d \<and> om_pages m' \<le> om_limit m \<and>
        om_config m' = om_config m \<and>
        mem_contents om_pages om_byte st' m' =
          mem_contents om_pages om_byte st m @ replicate (pages_bytes d) 0 \<and>
        others_kept st st' (wm_alloc (om_mmap m))
    | Err e \<Rightarrow> if om_limit m < om_pages m + unat d
               then e = CouldNotGrow (wm_size (om_mmap m)) d else \<exists>s. e = Region s
    | Panic \<Rightarrow> False"
proof (cases "om_grow os st m d")
  case (Ok r)
  then obtain p m' st' where run: "om_grow os st m d = Ok (p, m', st')" by (cases r) auto
  note grown = om_grow_okD [OF assms run]
  from om.inv_limit [OF grown(1)] have "om_pages m' \<le> om_limit m"
    using grown(4) by (simp add: om_limit_def)
  with grown om.contents_grow [OF assms run] run show ?thesis
    by (simp add: om_size_inv [OF assms(2)] pages_bytes_eq)
next
  case (Err e)
  with om_grow_Err [OF assms Err] show ?thesis by simp
next
  case Panic
  with om.grow_total [OF assms] show ?thesis by simp
qed

theorem memory_grow_correct_witness:
  "om_grow example_os example_memory_state example_memory 5 = Err (CouldNotGrow 1 5) \<and>
   (\<exists>m' st'. om_grow example_os example_memory_state example_memory 1 = Ok (1, m', st') \<and>
     om_inv example_os st' m' \<and> om_pages m' = 2)"
proof -
  have lim: "om_limit example_memory = 3" "wm_size (om_mmap example_memory) = 1"
    "om_pages example_memory = 1"
    by (simp_all add: om_limit_def page_limit_def om_pages_def example_memory_def config_of_def
        example_type_def fresh_mmap_def)
  obtain m' st' where grow: "om_grow example_os example_memory_state example_memory 1 = Ok (1, m', st')"
    using example_grow by blast
  note correct = memory_grow_correct [OF os_ok_example example_memory_inv]
  from correct [of 5] lim
  have "om_grow example_os example_memory_state example_memory 5 = Err (CouldNotGrow 1 5)"
    by (auto split: outcome.splits)
  moreover from correct [of 1] lim grow
  have "om_inv example_os st' m' \<and> om_pages m' = 2" by simp
  ultimately show ?thesis using grow by blast
qed

text \<open>
  \<open>grow_at_least\<close> on an owned memory. When it succeeds with a request of at most
  \<open>2^48 - 65536\<close> bytes, the memory has at least that many bytes, is never smaller than before,
  and the invariant holds again; a request that is already met changes nothing.
\<close>

lemma memory_grow_at_least_reaches:
  assumes "os_ok os" and "om_inv os st m" and "unat min_size \<le> 2 ^ 48 - 65536"
  shows "case om_grow_at_least os st m min_size of
      Ok (m', st') \<Rightarrow> om_inv os st' m' \<and> unat min_size \<le> om_pages m' * 65536 \<and>
        om_pages m \<le> om_pages m' \<and> (unat min_size \<le> om_pages m * 65536 \<longrightarrow> m' = m \<and> st' = st)
    | Err _ \<Rightarrow> om_pages m * 65536 < unat min_size
    | Panic \<Rightarrow> False"
proof -
  let ?w = "om_mmap m" and ?c = "om_config m"
  let ?d = "as_u32 (growth_pages (om_pages m * 65536) (unat min_size))"
  have wf: "wm_wf os ?c st ?w" using assms(2) by (simp add: om_inv_def)
  have eq: "om_grow_at_least os st m min_size =
      (if om_pages m * 65536 < unat min_size
       then bind_ok (om_grow os st m ?d) (\<lambda>(_, m', st'). Ok (m', st')) else Ok (m, st))"
    by (cases "wm_grow os st ?w ?d ?c")
      (auto simp: om_grow_at_least_def wm_grow_at_least_cases om_grow_def pages_bytes_eq
        om_pages_def)
  have "unat min_size \<le> om_pages m' * 65536" if "om_grow_at_least os st m min_size = Ok (m', st')"
    for m' st'
    using that wm_grow_at_least_ok(1) [OF assms(1) wf assms(3)]
    by (auto simp: om_grow_at_least_def outcome_simps om_pages_def pages_bytes_eq)
  then show ?thesis
    using om_grow_okD(1,3) [OF assms(1,2), where d = ?d] om.grow_total [OF assms(1,2), of ?d] assms(2)
    by (cases "om_grow os st m ?d") (auto simp: eq)
qed

text \<open>
  The page count of \<open>grow_at_least\<close> is computed in 64 bits and cut to 32. A request for
  \<open>2^32\<close> pages more than the memory has is therefore taken for a request for none: it
  succeeds and leaves the memory as it is, although it cannot be met.
\<close>

lemma memory_grow_at_least_truncates:
  "om_grow_at_least os st m (of_nat (pages_bytes (wm_size (om_mmap m)) + 2 ^ 48)) = Ok (m, st)"
proof -
  let ?cur = "pages_bytes (wm_size (om_mmap m))"
  have big: "unat (of_nat (?cur + 2 ^ 48) :: u64) = ?cur + 2 ^ 48"
    using pages_bytes_less [of "wm_size (om_mmap m)"] by (simp add: unat_of_nat del: of_nat_add)
  have "growth_pages ?cur (?cur + 2 ^ 48) = 2 ^ 32" by (simp add: growth_pages_def)
  moreover have "as_u32 (2 ^ 32) = 0" by (simp add: as_u32_def)
  ultimately show ?thesis
    unfolding om_grow_at_least_def wm_grow_at_least_cases big by (simp add: wm_grow_cases)
qed

lemma wm_grow_from_zero:
  assumes "os_ok os" and "wm_wf os conf st w" and "wm_grow os st w d conf = Ok (p, w', st')"
    and "wm_size w = 0" and "pages_bytes d \<le> wm_capacity conf w"
  shows "wm_alloc w' = wm_alloc w \<and> st_heap st' = st_heap st"
proof (cases "d = 0")
  case True
  with assms(3) show ?thesis by (simp add: wm_grow_cases)
next
  case False
  with assms(3,4) have limit: "unat d \<le> page_limit conf" and
    run: "wm_grow_alloc os st w conf d d = Ok (wm_alloc w', st')"
    by (auto simp: wm_grow_cases outcome_simps split: if_splits)
  have add: "pages_checked_add (wm_size w) d = Some d"
    using within_limit_add(2) [of "wm_size w" d conf] limit assms(4) by simp
  show ?thesis
    using run protect_okD(1) [OF assms(1)]
    by (auto simp: wm_grow_alloc_in_place [OF assms(1,2,5) add False] outcome_simps)
qed

text \<open>
  C18: resetting a memory to size zero does not clear it. Growing it again by no more than it
  had before brings the old bytes back, where the specification of \<open>memory.grow\<close> has zeros.
\<close>

theorem memory_reset_grow_keeps_bytes:
  assumes "os_ok os" and "om_inv os st m" and "om_reset m = Ok m0"
    and "om_grow os st m0 d = Ok (p, m', st')" and "unat d \<le> om_pages m"
  shows "p = 0 \<and> om_pages m' = unat d \<and>
    (\<forall>i < unat d * 65536. om_byte st' m' i = om_byte st m i)"
proof -
  let ?w = "om_mmap m" and ?z = "om_mmap m0" and ?c = "om_config m"
  have wf: "wm_wf os ?c st ?w" using assms(2) by (simp add: om_inv_def)
  have m0: "om_config m0 = ?c" "wm_size ?z = 0" "wm_alloc ?z = wm_alloc ?w"
    "wm_definition ?z = owned_update (\<lambda>md. md\<lparr>md_current_length := 0\<rparr>) (wm_definition ?w)"
    using assms(3) by (auto simp: om_reset_def wm_reset_def)
  have wf0: "wm_wf os ?c st ?z"
    using wf by (auto simp: wm_wf_def wm_region_ok_def Let_def m0 wm_capacity_def
        wm_get_vm_memory_definition_def pages_bytes_eq in_range_def)
  obtain w' where run: "wm_grow os st ?z d ?c = Ok (p, w', st')" and m': "m' = m0\<lparr>om_mmap := w'\<rparr>"
    using assms(4) by (auto simp: om_grow_def outcome_simps m0)
  note ok = wm_grow_ok [OF assms(1) wf0 run]
  have "pages_bytes d \<le> wm_capacity ?c ?z"
    using wm_wf_region(10) [OF wf] assms(5)
    by (simp add: pages_bytes_eq om_pages_def wm_capacity_def m0)
  from wm_grow_from_zero [OF assms(1) wf0 run m0(2) this]
  have "wm_alloc w' = wm_alloc ?w \<and> st_heap st' = st_heap st" by (simp add: m0)
  moreover have "md_base (om_vmmemory m') = mm_ptr (wm_alloc w')"
    using ok(3) by (simp add: wm_wf_def Let_def m' om_vmmemory_def wm_get_vm_memory_definition_def)
  ultimately show ?thesis
    using ok(1,2) om_inv_base [OF assms(2)] by (simp add: om_pages_def m0 m' om_byte_def)
qed

theorem memory_reset_grow_keeps_bytes_witness:
  "\<exists>m0 m' st'. om_reset example_memory = Ok m0 \<and>
     om_grow example_os (om_store example_memory_state example_memory 5 42) m0 1 = Ok (0, m', st') \<and>
     om_byte st' m' 5 = 42"
proof -
  let ?st = "om_store example_memory_state example_memory 5 42"
  let ?m = "example_memory\<lparr>om_mmap := (om_mmap example_memory)\<lparr>wm_size := 0,
    wm_definition := Host \<lparr>md_base = 1048576, md_current_length = 0\<rparr>\<rparr>\<rparr>"
  have reset: "om_reset example_memory = Ok ?m"
    by (simp add: om_reset_def wm_reset_def example_memory_def fresh_mmap_def Let_def
        example_alloc_def)
  have pages: "om_pages example_memory = 1"
    by (simp add: om_pages_def example_memory_def fresh_mmap_def example_type_def)
  have inv: "om_inv example_os ?st example_memory"
    by (rule om_store_inv [OF example_memory_inv]) (simp add: pages)
  obtain m' st' where grow: "om_grow example_os ?st ?m 1 = Ok (0, m', st')"
    by (simp add: om_grow_def wm_grow_cases wm_grow_alloc_def example_memory_def fresh_mmap_def
        config_of_def page_limit_def example_alloc_def example_type_def example_style_def
        pages_bytes_eq usize_sub_def make_accessible_eq [OF os_ok_example] Let_def)
  from memory_reset_grow_keeps_bytes [OF os_ok_example inv reset grow]
  have "om_byte st' m' 5 = om_byte ?st example_memory 5" by (simp add: pages)
  then show ?thesis using reset grow by (auto simp: om_byte_def om_store_def)
qed

lemma om_inv_kept:
  assumes "om_inv os st m"
    and "\<forall>a. st_mapped st a \<longrightarrow> st_heap st' a = st_heap st a \<and> st_mapped st' a \<and> st_rw st' a = st_rw st a"
  shows "om_inv os st' m"
proof -
  have wf: "wm_wf os (om_config m) st (om_mmap m)" using assms(1) by (simp add: om_inv_def)
  note reg = wm_wf_region(5,7,10) [OF wf]
  have "st_mapped st a" if "in_range (mm_ptr (wm_alloc (om_mmap m)))
      (wm_capacity (om_config m) (om_mmap m)) a" for a
    using that reg by (auto simp: in_range_def)
  with assms reg show ?thesis
    by (auto simp: om_inv_def wm_wf_def wm_region_ok_def wm_zero_tail_def Let_def in_range_def)
qed

text \<open>
  C16: copying a memory. The copy has the same size, configuration and bytes, satisfies the
  invariant, lies in a region that was not mapped before and so shares no byte with the
  original, and the original is left as it was. Only the system can make it fail.
\<close>

theorem memory_copy_correct:
  assumes "os_ok os" and "om_inv os st m"
  shows "case om_copy os st m of
      Ok (m', st') \<Rightarrow> om_inv os st' m' \<and> om_inv os st' m \<and> om_config m' = om_config m \<and>
        mem_contents om_pages om_byte st' m' = mem_contents om_pages om_byte st m \<and>
        mem_contents om_pages om_byte st' m = mem_contents om_pages om_byte st m \<and>
        (\<forall>a. st_mapped st a \<longrightarrow> st_heap st' a = st_heap st a \<and>
           \<not> in_range (mm_ptr (wm_alloc (om_mmap m'))) (mm_total_size (wm_alloc (om_mmap m'))) a)
    | Err e \<Rightarrow> \<exists>s. e = Generic s
    | Panic \<Rightarrow> False"
proof -
  let ?w = "om_mmap m" and ?c = "om_config m"
  have wf: "wm_wf os ?c st ?w" and zero: "wm_zero_tail ?c st ?w"
    using assms(2) by (simp_all add: om_inv_def)
  show ?thesis
  proof (cases "wm_copy os st ?w")
    case (Ok r)
    then obtain w' st' where run: "wm_copy os st ?w = Ok (w', st')" by (cases r) auto
    let ?m = "\<lparr>om_mmap = w', om_config = ?c\<rparr>"
    note copy = wm_copy_ok [OF assms(1) wf run]
    have inv': "om_inv os st' ?m" using copy(2,4) zero by (simp add: om_inv_def)
    have inv: "om_inv os st' m"
      by (rule om_inv_kept [OF assms(2)]) (use copy(5) in blast)
    have "mem_contents om_pages om_byte st' m = mem_contents om_pages om_byte st m"
      using copy(5) wm_wf_region(5,7,10) [OF wf] om_inv_base [OF assms(2)]
      by (auto simp: mem_contents_def om_pages_def om_byte_def in_range_def pages_bytes_eq)
    moreover have "mem_contents om_pages om_byte st' ?m = mem_contents om_pages om_byte st m"
      using copy(1,3) om_inv_base [OF assms(2)] om_inv_base [OF inv']
      by (auto simp: mem_contents_def om_pages_def om_byte_def pages_bytes_eq)
    ultimately show ?thesis using run inv inv' copy(5) by (simp add: om_copy_def)
  next
    case (Err e)
    then show ?thesis by (auto simp: om_copy_def wm_copy_eq [OF assms(1) wf] outcome_simps)
  next
    case Panic
    with wm_copy_no_panic [OF assms(1) wf] show ?thesis by simp
  qed
qed

theorem memory_copy_correct_witness:
  "case om_copy example_os example_memory_state example_memory of
     Ok (m', st') \<Rightarrow> om_inv example_os st' m' \<and>
       mem_contents om_pages om_byte st' m' =
         mem_contents om_pages om_byte example_memory_state example_memory
   | Err e \<Rightarrow> \<exists>s. e = Generic s | Panic \<Rightarrow> False"
  using memory_copy_correct [OF os_ok_example example_memory_inv]
  by (auto split: outcome.splits)

lemma initialize_data_eq:
  assumes "om_inv os st m" and "start < usize_limit" and "length data < usize_limit"
  shows "initialize_memory_with_data st (om_vmmemory m) start data =
    (if start + length data \<le> om_pages m * 65536
     then Ok (st\<lparr>st_heap := heap_write (st_heap st) (md_base (om_vmmemory m) + start) data\<rparr>)
     else Panic)"
proof -
  have wf: "wm_wf os (om_config m) st (om_mmap m)" using assms(1) by (simp add: om_inv_def)
  have len: "md_current_length (om_vmmemory m) = om_pages m * 65536"
    using wf by (simp add: wm_wf_def Let_def om_vmmemory_def wm_get_vm_memory_definition_def
        om_pages_def pages_bytes_eq)
  have "readable st (md_base (om_vmmemory m) + start) (length data)"
    if "start + length data \<le> om_pages m * 65536"
    using that wf om_inv_base [OF assms(1)]
    by (auto simp: readable_def wm_wf_def Let_def in_range_def om_pages_def pages_bytes_eq)
  moreover have "om_pages m * 65536 < usize_limit"
    using unat_u32_less [of "wm_size (om_mmap m)"] by (simp add: om_pages_def del: unat_u32_less)
  ultimately show ?thesis
    by (auto simp: initialize_memory_with_data_def len usize_add_def usize_checked_add_def)
qed

text \<open>
  Writing initial data into a memory stores the bytes at the given offset and changes
  nothing else in the process; it panics exactly when they do not fit, so that it never writes
  beyond the current length.
\<close>

lemma memory_initialize_data:
  assumes "om_inv os st m" and "start < usize_limit" and "length data < usize_limit"
  shows "initialize_memory_with_data st (om_vmmemory m) start data =
    (if start + length data \<le> om_pages m * 65536
     then Ok (st\<lparr>st_heap := heap_write (st_heap st) (md_base (om_vmmemory m) + start) data\<rparr>)
     else Panic)"
  by (rule initialize_data_eq [OF assms])

end
