(* ===== verification/Thread_Conditions.thy ===== *)
theory Thread_Conditions
  imports Prelude
begin

text \<open>
  The wait lists behind \<open>memory.atomic.wait\<close> and \<open>memory.atomic.notify\<close>,
  \<open>lib/vm/src/threadconditions.rs\<close>, as threads that interleave. Every operation is cut where
  another thread can run: at the acquisition of the lock of a map shard, of the mutex of an
  entry, and at the wait on its condition variable. A thread is a program counter with the local
  variables of the operation at that point; which locks it holds follows from it.

  \<open>DashMap\<close> and \<open>parking_lot\<close> are libraries: how the map is cut into shards and which sleeper
  \<open>notify_one\<close> wakes are parameters (\<open>sync_lib\<close>), with \<open>sync_ok\<close> as what is documented of them.
  A shard lock excludes writers of the same shard, a mutex excludes everybody, and a thread that
  waits on a condition variable sleeps until it is woken or its timeout runs out.
\<close>

section \<open>State\<close>

datatype WaiterError = Unimplemented | TooManyWaiters | AtomicsDisabled

datatype ExpectedValue = NoExpected | U32 u32 | U64 u64

record NotifyLocation =
  nl_address :: u32
  nl_memory_base :: usize

text \<open>
  Where a thread is in \<open>do_wait\<close> (\<open>W_\<close>, and \<open>C_\<close> for the cleanup at its end), \<open>do_notify\<close>
  (\<open>N_\<close>), \<open>wake_all_atomic_waiters\<close> (\<open>K_\<close>) and \<open>disable_atomics\<close> (\<open>D_store\<close>, then \<open>K_\<close>). The
  flag of a waiter says whether it has a timeout; a number is the entry's \<open>Arc\<close>.
\<close>

datatype pc =
    Idle
  | W_closed NotifyLocation ExpectedValue bool
  | W_len NotifyLocation ExpectedValue bool
  | W_entry NotifyLocation ExpectedValue bool
  | W_lock NotifyLocation ExpectedValue bool nat
  | W_unlock_key NotifyLocation ExpectedValue bool nat
  | W_check NotifyLocation ExpectedValue bool nat
  | W_sleep NotifyLocation bool nat
  | W_wake NotifyLocation nat u32
  | W_leave NotifyLocation nat u32
  | C_entry NotifyLocation u32
  | C_lock NotifyLocation u32 nat
  | C_remove NotifyLocation u32 nat
  | N_get u32 u32
  | N_lock u32 u32 nat
  | N_loop u32 u32 u32 nat
  | K_shard nat
  | K_items nat "(u32 \<times> nat) list"
  | D_store
  | Finished "(u32, WaiterError) outcome"

text \<open>
  \<open>NotifyMap\<close>, together with the memory the waiters look at and the threads. An \<open>Arc\<close> is an
  index into the waiter counts; who holds which lock is determined by where the threads are.
\<close>

record tc_state =
  tc_closed :: bool
  tc_map :: "(u32 \<times> nat) list"
  tc_counts :: "nat list"
  tc_heap :: heap
  tc_threads :: "pc list"

text \<open>
  The two libraries: the sharding of \<open>DashMap\<close> and the choice that \<open>Condvar::notify_one\<close> makes
  among the threads that sleep.
\<close>

record sync_lib =
  sl_shard :: "u32 \<Rightarrow> nat"
  sl_shards :: nat
  sl_pick :: "nat list \<Rightarrow> nat option"

definition sync_ok :: "sync_lib \<Rightarrow> bool" where
  "sync_ok lib = ((\<forall>k. sl_shard lib k < sl_shards lib) \<and>
     (\<forall>js. case sl_pick lib js of None \<Rightarrow> js = [] | Some j \<Rightarrow> j \<in> set js))"

section \<open>Locks\<close>

fun mutex_of :: "pc \<Rightarrow> nat option" where
  "mutex_of (W_unlock_key _ _ _ a) = Some a"
| "mutex_of (W_check _ _ _ a) = Some a"
| "mutex_of (W_leave _ a _) = Some a"
| "mutex_of (C_remove _ _ a) = Some a"
| "mutex_of (N_loop _ _ _ a) = Some a"
| "mutex_of _ = None"

fun write_lock :: "sync_lib \<Rightarrow> pc \<Rightarrow> nat option" where
  "write_lock lib (W_lock l _ _ _) = Some (sl_shard lib (nl_address l))"
| "write_lock lib (W_unlock_key l _ _ _) = Some (sl_shard lib (nl_address l))"
| "write_lock lib (C_lock l _ _) = Some (sl_shard lib (nl_address l))"
| "write_lock lib (C_remove l _ _) = Some (sl_shard lib (nl_address l))"
| "write_lock lib (K_items n _) = Some n"
| "write_lock lib _ = None"

fun read_lock :: "sync_lib \<Rightarrow> pc \<Rightarrow> nat option" where
  "read_lock lib (N_lock d _ _) = Some (sl_shard lib d)"
| "read_lock lib (N_loop d _ _ _) = Some (sl_shard lib d)"
| "read_lock lib _ = None"

definition mutex_free :: "tc_state \<Rightarrow> nat \<Rightarrow> bool" where
  "mutex_free s a = list_all (\<lambda>p. mutex_of p \<noteq> Some a) (tc_threads s)"

definition may_read :: "sync_lib \<Rightarrow> tc_state \<Rightarrow> nat \<Rightarrow> bool" where
  "may_read lib s n = list_all (\<lambda>p. write_lock lib p \<noteq> Some n) (tc_threads s)"

definition may_write :: "sync_lib \<Rightarrow> tc_state \<Rightarrow> nat \<Rightarrow> bool" where
  "may_write lib s n =
     list_all (\<lambda>p. write_lock lib p \<noteq> Some n \<and> read_lock lib p \<noteq> Some n) (tc_threads s)"

section \<open>Operations\<close>

definition read_le :: "heap \<Rightarrow> nat \<Rightarrow> nat \<Rightarrow> nat" where
  "read_le h p n = sum_list (map (\<lambda>i. unat (h (p + i)) * 256 ^ i) [0..<n])"

fun should_sleep :: "heap \<Rightarrow> NotifyLocation \<Rightarrow> ExpectedValue \<Rightarrow> bool" where
  "should_sleep h dst NoExpected = True"
| "should_sleep h dst (U32 v) = (read_le h (nl_memory_base dst + unat (nl_address dst)) 4 = unat v)"
| "should_sleep h dst (U64 v) = (read_le h (nl_memory_base dst + unat (nl_address dst)) 8 = unat v)"

fun sleeps_on :: "nat \<Rightarrow> pc \<Rightarrow> bool" where
  "sleeps_on a (W_sleep _ _ b) = (a = b)"
| "sleeps_on a _ = False"

definition sleepers :: "tc_state \<Rightarrow> nat \<Rightarrow> nat list" where
  "sleepers s a = filter (\<lambda>j. sleeps_on a (tc_threads s ! j)) [0..<length (tc_threads s)]"

fun woken :: "u32 \<Rightarrow> pc \<Rightarrow> pc" where
  "woken r (W_sleep l _ a) = W_wake l a r"
| "woken r p = p"

text \<open>\<open>do_wait\<close> up to the point where the thread sleeps or finds another value.\<close>

fun enter_act :: "sync_lib \<Rightarrow> tc_state \<Rightarrow> pc \<Rightarrow> (tc_state \<times> pc) option" where
  "enter_act lib s (W_closed l e t) =
     Some (s, if tc_closed s then Finished (Err AtomicsDisabled) else W_len l e t)"
| "enter_act lib s (W_len l e t) =
     Some (s, if 2 ^ 32 \<le> length (tc_map s) then Finished (Err TooManyWaiters) else W_entry l e t)"
| "enter_act lib s (W_entry l e t) =
     (if may_write lib s (sl_shard lib (nl_address l)) then
        (case map_of (tc_map s) (nl_address l) of
           Some a \<Rightarrow> Some (s, W_lock l e t a)
         | None \<Rightarrow>
             let a = length (tc_counts s) in
             Some (s\<lparr>tc_map := (nl_address l, a) # tc_map s, tc_counts := tc_counts s @ [0]\<rparr>,
                   W_lock l e t a))
      else None)"
| "enter_act lib s (W_lock l e t a) =
     (if mutex_free s a then Some (s, W_unlock_key l e t a) else None)"
| "enter_act lib s (W_unlock_key l e t a) = Some (s, W_check l e t a)"
| "enter_act lib s (W_check l e t a) =
     (if should_sleep (tc_heap s) l e
      then Some (s\<lparr>tc_counts := (tc_counts s)[a := tc_counts s ! a + 1]\<rparr>, W_sleep l t a)
      else Some (s, C_entry l 1))"
| "enter_act lib s _ = None"

text \<open>\<open>do_wait\<close> after the thread is woken, with the cleanup of the map entry.\<close>

fun leave_act :: "sync_lib \<Rightarrow> tc_state \<Rightarrow> pc \<Rightarrow> (tc_state \<times> pc) option" where
  "leave_act lib s (W_wake l a r) = (if mutex_free s a then Some (s, W_leave l a r) else None)"
| "leave_act lib s (W_leave l a r) =
     Some (s\<lparr>tc_counts := (tc_counts s)[a := tc_counts s ! a - 1]\<rparr>, C_entry l r)"
| "leave_act lib s (C_entry l r) =
     (if may_write lib s (sl_shard lib (nl_address l)) then
        (case map_of (tc_map s) (nl_address l) of
           Some a \<Rightarrow> Some (s, C_lock l r a)
         | None \<Rightarrow> Some (s, Finished (Ok r)))
      else None)"
| "leave_act lib s (C_lock l r a) = (if mutex_free s a then Some (s, C_remove l r a) else None)"
| "leave_act lib s (C_remove l r a) =
     Some (if tc_counts s ! a = 0
           then s\<lparr>tc_map := filter (\<lambda>(k, _). k \<noteq> nl_address l) (tc_map s)\<rparr> else s,
           Finished (Ok r))"
| "leave_act lib s _ = None"

fun notify_act :: "sync_lib \<Rightarrow> tc_state \<Rightarrow> pc \<Rightarrow> (tc_state \<times> pc) option" where
  "notify_act lib s (N_get d c) =
     (if may_read lib s (sl_shard lib d) then
        (case map_of (tc_map s) d of
           Some a \<Rightarrow> Some (s, N_lock d c a)
         | None \<Rightarrow> Some (s, Finished (Ok 0)))
      else None)"
| "notify_act lib s (N_lock d c a) = (if mutex_free s a then Some (s, N_loop d c 0 a) else None)"
| "notify_act lib s (N_loop d c n a) =
     (if n < c then
        (case sl_pick lib (sleepers s a) of
           None \<Rightarrow> Some (s, Finished (Ok n))
         | Some j \<Rightarrow> Some (s\<lparr>tc_threads := (tc_threads s)[j := woken 0 (tc_threads s ! j)]\<rparr>,
                          N_loop d c (n + 1) a))
      else Some (s, Finished (Ok n)))"
| "notify_act lib s _ = None"

definition notify_all :: "tc_state \<Rightarrow> nat \<Rightarrow> tc_state" where
  "notify_all s a = s\<lparr>tc_threads :=
     map (\<lambda>p. if sleeps_on a p then woken 0 p else p) (tc_threads s)\<rparr>"

fun wake_all_act :: "sync_lib \<Rightarrow> tc_state \<Rightarrow> pc \<Rightarrow> (tc_state \<times> pc) option" where
  "wake_all_act lib s (K_shard n) =
     (if n < sl_shards lib then
        (if may_write lib s n
         then Some (s, K_items n (filter (\<lambda>(k, _). sl_shard lib k = n) (tc_map s))) else None)
      else Some (s, Finished (Ok 0)))"
| "wake_all_act lib s (K_items n []) = Some (s, K_shard (n + 1))"
| "wake_all_act lib s (K_items n ((k, a) # es)) =
     (if mutex_free s a then Some (notify_all s a, K_items n es) else None)"
| "wake_all_act lib s D_store = Some (s\<lparr>tc_closed := True\<rparr>, K_shard 0)"
| "wake_all_act lib s _ = None"

text \<open>The next step of thread \<open>i\<close>; \<open>None\<close> when it has none or has to wait for a lock.\<close>

fun first_some :: "'a option list \<Rightarrow> 'a option" where
  "first_some [] = None"
| "first_some (Some x # xs) = Some x"
| "first_some (None # xs) = first_some xs"

definition tc_act :: "sync_lib \<Rightarrow> tc_state \<Rightarrow> nat \<Rightarrow> tc_state option" where
  "tc_act lib s i =
     (if i < length (tc_threads s) then
        (let p = tc_threads s ! i in
         case first_some [enter_act lib s p, leave_act lib s p, notify_act lib s p,
                wake_all_act lib s p] of
           Some (s', p') \<Rightarrow> Some (s'\<lparr>tc_threads := (tc_threads s')[i := p']\<rparr>)
         | None \<Rightarrow> None)
      else None)"

text \<open>
  The whole system: a thread takes its next step, the timeout of a sleeping thread runs out,
  some thread stores to the memory, or an idle thread calls one of the operations.
\<close>

fun entry_point :: "pc \<Rightarrow> bool" where
  "entry_point (W_closed _ _ _) = True"
| "entry_point (N_get _ _) = True"
| "entry_point (K_shard n) = (n = 0)"
| "entry_point D_store = True"
| "entry_point _ = False"

inductive tc_step :: "sync_lib \<Rightarrow> tc_state \<Rightarrow> tc_state \<Rightarrow> bool" for lib where
  tc_thread: "tc_act lib s i = Some s' \<Longrightarrow> tc_step lib s s'"
| tc_timeout: "i < length (tc_threads s) \<Longrightarrow> tc_threads s ! i = W_sleep l True a \<Longrightarrow>
     tc_step lib s (s\<lparr>tc_threads := (tc_threads s)[i := W_wake l a 2]\<rparr>)"
| tc_store: "tc_step lib s (s\<lparr>tc_heap := h\<rparr>)"
| tc_call: "i < length (tc_threads s) \<Longrightarrow>
     tc_threads s ! i = Idle \<or> (\<exists>r. tc_threads s ! i = Finished r) \<Longrightarrow> entry_point p \<Longrightarrow>
     tc_step lib s (s\<lparr>tc_threads := (tc_threads s)[i := p]\<rparr>)"

definition tc_new :: "nat \<Rightarrow> heap \<Rightarrow> tc_state" where
  "tc_new n h = \<lparr>tc_closed = False, tc_map = [], tc_counts = [], tc_heap = h,
     tc_threads = replicate n Idle\<rparr>"

inductive tc_reachable :: "sync_lib \<Rightarrow> tc_state \<Rightarrow> bool" for lib where
  tc_init: "tc_reachable lib (tc_new n h)"
| tc_next: "tc_reachable lib s \<Longrightarrow> tc_step lib s s' \<Longrightarrow> tc_reachable lib s'"

section \<open>Invariant\<close>

text \<open>The entries of the map that a thread relies on, and the arcs it is counted in.\<close>

fun attached :: "pc \<Rightarrow> (u32 \<times> nat) list" where
  "attached (W_lock l _ _ a) = [(nl_address l, a)]"
| "attached (W_unlock_key l _ _ a) = [(nl_address l, a)]"
| "attached (W_check l _ _ a) = [(nl_address l, a)]"
| "attached (W_sleep l _ a) = [(nl_address l, a)]"
| "attached (W_wake l a _) = [(nl_address l, a)]"
| "attached (W_leave l a _) = [(nl_address l, a)]"
| "attached (C_lock l _ a) = [(nl_address l, a)]"
| "attached (C_remove l _ a) = [(nl_address l, a)]"
| "attached (N_lock d _ a) = [(d, a)]"
| "attached (N_loop d _ _ a) = [(d, a)]"
| "attached (K_items _ es) = es"
| "attached _ = []"

fun counted :: "nat \<Rightarrow> pc \<Rightarrow> bool" where
  "counted a (W_sleep _ _ b) = (a = b)"
| "counted a (W_wake _ b _) = (a = b)"
| "counted a (W_leave _ b _) = (a = b)"
| "counted a _ = False"

text \<open>A thread that is going to remove the entry of its address, unless others still wait.\<close>

fun cleans :: "u32 \<Rightarrow> pc \<Rightarrow> bool" where
  "cleans k (W_lock l _ _ _) = (k = nl_address l)"
| "cleans k (W_unlock_key l _ _ _) = (k = nl_address l)"
| "cleans k (W_check l _ _ _) = (k = nl_address l)"
| "cleans k (W_sleep l _ _) = (k = nl_address l)"
| "cleans k (W_wake l _ _) = (k = nl_address l)"
| "cleans k (W_leave l _ _) = (k = nl_address l)"
| "cleans k (C_entry l _) = (k = nl_address l)"
| "cleans k (C_lock l _ _) = (k = nl_address l)"
| "cleans k (C_remove l _ _) = (k = nl_address l)"
| "cleans k _ = False"

definition locks_apart :: "sync_lib \<Rightarrow> pc \<Rightarrow> pc \<Rightarrow> bool" where
  "locks_apart lib p q =
     ((\<forall>a. mutex_of p = Some a \<longrightarrow> mutex_of q \<noteq> Some a) \<and>
      (\<forall>n. write_lock lib p = Some n \<longrightarrow> write_lock lib q \<noteq> Some n \<and> read_lock lib q \<noteq> Some n) \<and>
      (\<forall>n. read_lock lib p = Some n \<longrightarrow> write_lock lib q \<noteq> Some n))"

definition locks_ok :: "sync_lib \<Rightarrow> pc list \<Rightarrow> bool" where
  "locks_ok lib ps =
     (\<forall>i < length ps. \<forall>j < length ps. i \<noteq> j \<longrightarrow> locks_apart lib (ps ! i) (ps ! j))"

definition entries_ok :: "tc_state \<Rightarrow> bool" where
  "entries_ok s = (distinct (map fst (tc_map s)) \<and> distinct (map snd (tc_map s)) \<and>
     (\<forall>a \<in> snd ` set (tc_map s). a < length (tc_counts s)))"

definition attached_ok :: "tc_state \<Rightarrow> bool" where
  "attached_ok s = (\<forall>p \<in> set (tc_threads s). set (attached p) \<subseteq> set (tc_map s))"

definition counts_ok :: "tc_state \<Rightarrow> bool" where
  "counts_ok s = (\<forall>a < length (tc_counts s).
     tc_counts s ! a = length (filter (counted a) (tc_threads s)))"

definition cleaned_ok :: "tc_state \<Rightarrow> bool" where
  "cleaned_ok s = (\<forall>k \<in> fst ` set (tc_map s). \<exists>p \<in> set (tc_threads s). cleans k p)"

text \<open>What holds of a thread by itself.\<close>

fun pc_ok :: "sync_lib \<Rightarrow> pc \<Rightarrow> bool" where
  "pc_ok lib (K_items n es) = (\<forall>e \<in> set es. sl_shard lib (fst e) = n)"
| "pc_ok lib (N_loop d c n a) = (n \<le> c)"
| "pc_ok lib _ = True"

definition pcs_ok :: "sync_lib \<Rightarrow> tc_state \<Rightarrow> bool" where
  "pcs_ok lib s = (\<forall>p \<in> set (tc_threads s). pc_ok lib p)"

definition tc_inv :: "sync_lib \<Rightarrow> tc_state \<Rightarrow> bool" where
  "tc_inv lib s = (locks_ok lib (tc_threads s) \<and> entries_ok s \<and> attached_ok s \<and> counts_ok s \<and>
     cleaned_ok s \<and> pcs_ok lib s)"

section \<open>The invariant is kept\<close>

lemma filter_update_count:
  "i < length xs \<Longrightarrow> length (filter P (xs[i := x])) + (if P (xs ! i) then 1 else 0) =
     length (filter P xs) + (if P x then 1 else (0 :: nat))"
  by (induction xs arbitrary: i) (fastforce split: nat.splits)+

lemma locks_apart_sym: "locks_apart lib p q \<Longrightarrow> locks_apart lib q p"
  by (auto simp: locks_apart_def)

lemma locks_ok_update:
  assumes ok: "locks_ok lib ps" and i: "i < length ps"
    and apart: "\<And>j. j < length ps \<Longrightarrow> j \<noteq> i \<Longrightarrow> locks_apart lib p (ps ! j)"
  shows "locks_ok lib (ps[i := p])"
  using ok i apart locks_apart_sym [OF apart]
  by (auto simp: locks_ok_def nth_list_update)

lemma locks_apart_acquire:
  assumes inv: "locks_ok lib (tc_threads s)" and i: "i < length (tc_threads s)"
    and j: "j < length (tc_threads s)" "j \<noteq> i"
    and "\<forall>a. mutex_of p = Some a \<longrightarrow> mutex_of (tc_threads s ! i) = Some a \<or> mutex_free s a"
    and "\<forall>n. write_lock lib p = Some n \<longrightarrow> write_lock lib (tc_threads s ! i) = Some n \<or> may_write lib s n"
    and "\<forall>n. read_lock lib p = Some n \<longrightarrow> read_lock lib (tc_threads s ! i) = Some n \<or> may_read lib s n"
  shows "locks_apart lib p (tc_threads s ! j)"
proof -
  have "locks_apart lib (tc_threads s ! i) (tc_threads s ! j)"
    using inv i j by (simp add: locks_ok_def)
  with assms(5-7) j(1) show ?thesis
    by (auto simp: locks_apart_def mutex_free_def may_write_def may_read_def list_all_length)
qed

lemma ball_update: "\<forall>q \<in> set ps. P q \<Longrightarrow> P p \<Longrightarrow> \<forall>q \<in> set (ps[i := p]). P q"
  using set_update_subset_insert [of ps i p] by blast

lemma cleans_update:
  assumes "i < length ps" and "cleans k p \<or> (\<exists>j < length ps. j \<noteq> i \<and> cleans k (ps ! j))"
  shows "\<exists>q \<in> set (ps[i := p]). cleans k q"
proof -
  obtain j where "j < length (ps[i := p])" "cleans k (ps[i := p] ! j)"
    using assms by (cases "cleans k p") (auto intro: that)
  then show ?thesis using nth_mem by blast
qed

text \<open>A step of one thread that leaves the map alone.\<close>

lemma tc_inv_step:
  assumes inv: "tc_inv lib s" and i: "i < length (tc_threads s)"
    and "\<forall>a. mutex_of p = Some a \<longrightarrow> mutex_of (tc_threads s ! i) = Some a \<or> mutex_free s a"
    and "\<forall>n. write_lock lib p = Some n \<longrightarrow> write_lock lib (tc_threads s ! i) = Some n \<or> may_write lib s n"
    and "\<forall>n. read_lock lib p = Some n \<longrightarrow> read_lock lib (tc_threads s ! i) = Some n \<or> may_read lib s n"
    and att: "set (attached p) \<subseteq> set (tc_map s)"
    and len: "length cs = length (tc_counts s)"
    and cnt: "\<forall>a < length cs. cs ! a + (if counted a (tc_threads s ! i) then 1 else 0) =
      tc_counts s ! a + (if counted a p then 1 else 0)"
    and cl: "\<forall>k. cleans k (tc_threads s ! i) \<longrightarrow> cleans k p \<or> k \<notin> fst ` set (tc_map s) \<or>
      (\<exists>j < length (tc_threads s). j \<noteq> i \<and> cleans k (tc_threads s ! j))"
    and sh: "pc_ok lib p"
  shows "tc_inv lib (s\<lparr>tc_counts := cs, tc_threads := (tc_threads s)[i := p]\<rparr>)"
proof -
  let ?ps = "tc_threads s"
  have "locks_ok lib (?ps[i := p])"
    using inv i locks_apart_acquire [OF _ i _ _ assms(3-5)]
    by (intro locks_ok_update) (auto simp: tc_inv_def)
  moreover have "attached_ok (s\<lparr>tc_counts := cs, tc_threads := ?ps[i := p]\<rparr>)"
  proof -
    have "\<forall>q \<in> set (?ps[i := p]). set (attached q) \<subseteq> set (tc_map s)"
      by (rule ball_update) (use inv att in \<open>simp_all add: tc_inv_def attached_ok_def\<close>)
    then show ?thesis by (simp add: attached_ok_def)
  qed
  moreover have "counts_ok (s\<lparr>tc_counts := cs, tc_threads := ?ps[i := p]\<rparr>)"
    unfolding counts_ok_def
  proof (intro allI impI)
    fix a assume "a < length (tc_counts (s\<lparr>tc_counts := cs, tc_threads := ?ps[i := p]\<rparr>))"
    then have "a < length cs" "tc_counts s ! a = length (filter (counted a) ?ps)"
      using inv len by (simp_all add: tc_inv_def counts_ok_def)
    with cnt filter_update_count [OF i, of "counted a" p]
    show "tc_counts (s\<lparr>tc_counts := cs, tc_threads := ?ps[i := p]\<rparr>) ! a =
        length (filter (counted a) (tc_threads (s\<lparr>tc_counts := cs, tc_threads := ?ps[i := p]\<rparr>)))"
      by (auto split: if_splits)
  qed
  moreover have "cleaned_ok (s\<lparr>tc_counts := cs, tc_threads := ?ps[i := p]\<rparr>)"
    unfolding cleaned_ok_def
  proof
    fix k assume k: "k \<in> fst ` set (tc_map (s\<lparr>tc_counts := cs, tc_threads := ?ps[i := p]\<rparr>))"
    then have "\<exists>q \<in> set ?ps. cleans k q" using inv by (auto simp: tc_inv_def cleaned_ok_def)
    then obtain j where j: "j < length ?ps" "cleans k (?ps ! j)" by (auto simp: in_set_conv_nth)
    then have "cleans k p \<or> (\<exists>j < length ?ps. j \<noteq> i \<and> cleans k (?ps ! j))"
      using cl k by (cases "j = i") auto
    then show "\<exists>q \<in> set (tc_threads (s\<lparr>tc_counts := cs, tc_threads := ?ps[i := p]\<rparr>)). cleans k q"
      using cleans_update [OF i] by simp
  qed
  moreover have "pcs_ok lib (s\<lparr>tc_counts := cs, tc_threads := ?ps[i := p]\<rparr>)"
  proof -
    have "\<forall>q \<in> set (?ps[i := p]). pc_ok lib q"
      by (rule ball_update) (use inv sh in \<open>simp_all add: tc_inv_def pcs_ok_def\<close>)
    then show ?thesis by (simp add: pcs_ok_def)
  qed
  ultimately show ?thesis
    using inv len by (simp add: tc_inv_def entries_ok_def)
qed

text \<open>Waking a thread does not show in anything that the invariant looks at.\<close>

lemma woken_same [simp]:
  "mutex_of (woken r p) = mutex_of p" "write_lock lib (woken r p) = write_lock lib p"
  "read_lock lib (woken r p) = read_lock lib p" "attached (woken r p) = attached p"
  "counted a (woken r p) = counted a p" "cleans k (woken r p) = cleans k p"
  "pc_ok lib (woken r p) = pc_ok lib p"
  by (cases p; simp)+

lemma tc_inv_woken:
  assumes "tc_inv lib s" and "\<forall>p. f p = p \<or> f p = woken r p"
  shows "tc_inv lib (s\<lparr>tc_threads := map f (tc_threads s)\<rparr>)"
proof -
  have same: "mutex_of (f p) = mutex_of p" "write_lock lib (f p) = write_lock lib p"
    "read_lock lib (f p) = read_lock lib p" "attached (f p) = attached p"
    "counted a (f p) = counted a p" "cleans k (f p) = cleans k p"
    "pc_ok lib (f p) = pc_ok lib p" for p a k
    using assms(2) [rule_format, of p] by (cases p; auto)+
  let ?s = "s\<lparr>tc_threads := map f (tc_threads s)\<rparr>"
  have "locks_apart lib (f p) (f q) = locks_apart lib p q" for p q
    by (simp add: locks_apart_def same)
  then have "locks_ok lib (tc_threads ?s)"
    using assms(1) by (simp add: tc_inv_def locks_ok_def)
  moreover have "length (filter (counted a) (map f ps)) = length (filter (counted a) ps)" for a ps
    by (simp add: filter_map o_def same)
  then have "counts_ok ?s" using assms(1) by (simp add: tc_inv_def counts_ok_def)
  moreover have "attached_ok ?s" "cleaned_ok ?s" "entries_ok ?s"
    using assms(1) by (simp_all add: tc_inv_def attached_ok_def cleaned_ok_def entries_ok_def same)
  moreover have "pcs_ok lib ?s"
    using assms(1) by (simp add: tc_inv_def pcs_ok_def same)
  ultimately show ?thesis by (simp add: tc_inv_def)
qed

text \<open>The four steps that change the map or the counts.\<close>

lemma tc_inv_parts:
  "tc_inv lib s \<Longrightarrow> locks_ok lib (tc_threads s)" "tc_inv lib s \<Longrightarrow> entries_ok s"
  "tc_inv lib s \<Longrightarrow> attached_ok s" "tc_inv lib s \<Longrightarrow> counts_ok s"
  "tc_inv lib s \<Longrightarrow> cleaned_ok s" "tc_inv lib s \<Longrightarrow> pcs_ok lib s"
  by (simp_all add: tc_inv_def)

lemma attached_in_map:
  assumes "tc_inv lib s" and "i < length (tc_threads s)" and "e \<in> set (attached (tc_threads s ! i))"
  shows "e \<in> set (tc_map s)"
  using assms tc_inv_parts(3) [OF assms(1)] by (force simp: attached_ok_def)

lemma map_arc_less: "tc_inv lib s \<Longrightarrow> (k, a) \<in> set (tc_map s) \<Longrightarrow> a < length (tc_counts s)"
  by (force simp: tc_inv_def entries_ok_def)

lemma map_lookup: "tc_inv lib s \<Longrightarrow> (k, a) \<in> set (tc_map s) \<longleftrightarrow> map_of (tc_map s) k = Some a"
  by (auto simp: tc_inv_def entries_ok_def dest: map_of_SomeD)

lemma arc_fresh:
  assumes "tc_inv lib s" and "p \<in> set (tc_threads s)"
  shows "\<not> counted (length (tc_counts s)) p"
proof
  assume "counted (length (tc_counts s)) p"
  then have "length (tc_counts s) \<in> snd ` set (attached p)" by (cases p) auto
  then have "length (tc_counts s) \<in> snd ` set (tc_map s)"
    using assms tc_inv_parts(3) [OF assms(1)] by (force simp: attached_ok_def)
  then show False using map_arc_less [OF assms(1)] by fastforce
qed

lemma tc_inv_new_entry:
  assumes inv: "tc_inv lib s" and i: "i < length (tc_threads s)"
    and pc: "tc_threads s ! i = W_entry l e t"
    and free: "may_write lib s (sl_shard lib (nl_address l))"
    and new: "map_of (tc_map s) (nl_address l) = None"
  shows "tc_inv lib (s\<lparr>tc_map := (nl_address l, length (tc_counts s)) # tc_map s,
    tc_counts := tc_counts s @ [0],
    tc_threads := (tc_threads s)[i := W_lock l e t (length (tc_counts s))]\<rparr>)" (is "tc_inv lib ?s")
proof -
  let ?ps = "tc_threads s" and ?n = "length (tc_counts s)"
  let ?p = "W_lock l e t ?n"
  have cleans_pc: "\<not> cleans k (?ps ! i)" for k by (simp add: pc)
  have old: "a < ?n" if "a \<in> snd ` set (tc_map s)" for a
    using inv that by (auto simp: tc_inv_def entries_ok_def)
  have "locks_ok lib (tc_threads ?s)"
    using locks_apart_acquire [OF tc_inv_parts(1) [OF inv] i, where p = ?p] free
    by (simp, intro locks_ok_update [OF tc_inv_parts(1) [OF inv] i]) (simp add: pc)
  moreover have "entries_ok ?s"
    using tc_inv_parts(2) [OF inv] new old
    by (auto simp: entries_ok_def map_of_eq_None_iff less_Suc_eq)
  moreover have "attached_ok ?s"
  proof -
    have "\<forall>q \<in> set (?ps[i := ?p]). set (attached q) \<subseteq> set (tc_map ?s)"
      by (rule ball_update) (use tc_inv_parts(3) [OF inv] in \<open>auto simp: attached_ok_def\<close>)
    then show ?thesis by (simp add: attached_ok_def)
  qed
  moreover have "counts_ok ?s"
  proof -
    have "filter (counted ?n) ?ps = []"
      using arc_fresh [OF inv] by (simp add: filter_empty_conv)
    moreover have "length (filter (counted a) (?ps[i := ?p])) = length (filter (counted a) ?ps)" for a
      using filter_update_count [OF i, of "counted a" ?p] by (simp add: pc)
    ultimately show ?thesis
      using tc_inv_parts(4) [OF inv] by (auto simp: counts_ok_def nth_append less_Suc_eq)
  qed
  moreover have "cleaned_ok ?s"
    unfolding cleaned_ok_def
  proof
    fix k assume "k \<in> fst ` set (tc_map ?s)"
    then consider "k = nl_address l" | "\<exists>q \<in> set ?ps. cleans k q"
      using tc_inv_parts(5) [OF inv] by (auto simp: cleaned_ok_def)
    then have "cleans k ?p \<or> (\<exists>j < length ?ps. j \<noteq> i \<and> cleans k (?ps ! j))"
      using cleans_pc by cases (simp, force simp: in_set_conv_nth)
    then show "\<exists>q \<in> set (tc_threads ?s). cleans k q"
      using cleans_update [OF i, of k ?p] by simp
  qed
  moreover have "pcs_ok lib ?s"
  proof -
    have "\<forall>q \<in> set (?ps[i := ?p]). pc_ok lib q"
      by (rule ball_update) (use tc_inv_parts(6) [OF inv] in \<open>simp_all add: pcs_ok_def\<close>)
    then show ?thesis by (simp add: pcs_ok_def)
  qed
  ultimately show ?thesis by (simp add: tc_inv_def)
qed

text \<open>
  Whatever entry a thread relies on is protected: by the lock of its shard, by its mutex, or by
  being counted there. So the entry can be removed when the count is zero.
\<close>

lemma attached_protected:
  assumes "(k, a) \<in> set (attached p)"
    and "pc_ok lib p"
  shows "write_lock lib p = Some (sl_shard lib k) \<or> read_lock lib p = Some (sl_shard lib k) \<or>
    mutex_of p = Some a \<or> counted a p"
  using assms by (cases p) auto

lemma entry_unused:
  assumes inv: "tc_inv lib s" and i: "i < length (tc_threads s)"
    and pc: "tc_threads s ! i = C_remove l r a" and zero: "tc_counts s ! a = 0"
    and j: "j < length (tc_threads s)" "j \<noteq> i"
  shows "nl_address l \<notin> fst ` set (attached (tc_threads s ! j))"
proof
  let ?ps = "tc_threads s" and ?k = "nl_address l"
  have here: "(?k, a) \<in> set (tc_map s)" using attached_in_map [OF inv i] by (simp add: pc)
  have none: "\<not> counted a q" if "q \<in> set ?ps" for q
    using tc_inv_parts(4) [OF inv] map_arc_less [OF inv here] zero that
    by (auto simp: counts_ok_def filter_empty_conv)
  assume "?k \<in> fst ` set (attached (?ps ! j))"
  then obtain b where b: "(?k, b) \<in> set (attached (?ps ! j))" by force
  then have "(?k, b) \<in> set (tc_map s)" using attached_in_map [OF inv j(1)] by blast
  then have "b = a" using here by (simp add: map_lookup [OF inv])
  moreover have "locks_apart lib (C_remove l r a) (?ps ! j)"
    using tc_inv_parts(1) [OF inv] i j by (force simp: locks_ok_def pc [symmetric])
  moreover have "pc_ok lib (?ps ! j)"
    using tc_inv_parts(6) [OF inv] nth_mem [OF j(1)] unfolding pcs_ok_def by blast
  ultimately show False
    using attached_protected [OF b, of lib] none [OF nth_mem [OF j(1)]]
    by (auto simp: locks_apart_def)
qed

lemma tc_inv_remove:
  assumes inv: "tc_inv lib s" and i: "i < length (tc_threads s)"
    and pc: "tc_threads s ! i = C_remove l r a" and zero: "tc_counts s ! a = 0"
  shows "tc_inv lib (s\<lparr>tc_map := filter (\<lambda>(k, _). k \<noteq> nl_address l) (tc_map s),
    tc_threads := (tc_threads s)[i := Finished (Ok r)]\<rparr>)" (is "tc_inv lib ?s")
proof -
  let ?ps = "tc_threads s" and ?p = "Finished (Ok r)" and ?k = "nl_address l"
  have gone: "?k \<notin> fst ` set (attached (?ps ! j))" if "j < length ?ps" "j \<noteq> i" for j
    using entry_unused [OF inv i pc zero that] .
  have "locks_ok lib (tc_threads ?s)"
    by (simp, intro locks_ok_update [OF tc_inv_parts(1) [OF inv] i]) (simp add: locks_apart_def)
  moreover have "entries_ok ?s"
    using tc_inv_parts(2) [OF inv] by (auto simp: entries_ok_def distinct_map inj_on_def)
  moreover have "attached_ok ?s"
  proof -
    have "set (attached (?ps ! j)) \<subseteq> set (tc_map ?s)" if "j < length ?ps" "j \<noteq> i" for j
      using gone [OF that] attached_in_map [OF inv that(1)] by force
    then have "set (attached (?ps[i := ?p] ! j)) \<subseteq> set (tc_map ?s)" if "j < length ?ps" for j
      using that by (cases "j = i") auto
    then show ?thesis by (simp add: attached_ok_def all_set_conv_all_nth)
  qed
  moreover have "length (filter (counted b) (?ps[i := ?p])) = length (filter (counted b) ?ps)" for b
    using filter_update_count [OF i, of "counted b" ?p] by (simp add: pc)
  then have "counts_ok ?s" using tc_inv_parts(4) [OF inv] by (simp add: counts_ok_def)
  moreover have "cleaned_ok ?s"
    unfolding cleaned_ok_def
  proof
    fix k assume "k \<in> fst ` set (tc_map ?s)"
    then have "k \<noteq> ?k" "\<exists>q \<in> set ?ps. cleans k q"
      using tc_inv_parts(5) [OF inv] by (auto simp: cleaned_ok_def)
    then have "\<exists>j < length ?ps. j \<noteq> i \<and> cleans k (?ps ! j)"
      by (force simp: in_set_conv_nth pc)
    then show "\<exists>q \<in> set (tc_threads ?s). cleans k q"
      using cleans_update [OF i, of k ?p] by simp
  qed
  moreover have "pcs_ok lib ?s"
  proof -
    have "\<forall>q \<in> set (?ps[i := ?p]). pc_ok lib q"
      by (rule ball_update) (use tc_inv_parts(6) [OF inv] in \<open>simp_all add: pcs_ok_def\<close>)
    then show ?thesis by (simp add: pcs_ok_def)
  qed
  ultimately show ?thesis by (simp add: tc_inv_def)
qed

text \<open>A waiter that leaves behind an entry with waiters leaves one of them to remove it.\<close>

lemma counted_cleans:
  assumes inv: "tc_inv lib s" and here: "(k, a) \<in> set (tc_map s)" and pos: "tc_counts s ! a \<noteq> 0"
  shows "\<exists>j < length (tc_threads s). counted a (tc_threads s ! j) \<and> cleans k (tc_threads s ! j)"
proof -
  have "filter (counted a) (tc_threads s) \<noteq> []"
    using tc_inv_parts(4) [OF inv] map_arc_less [OF inv here] pos by (auto simp: counts_ok_def)
  then obtain j where j: "j < length (tc_threads s)" "counted a (tc_threads s ! j)"
    by (auto simp: filter_empty_conv in_set_conv_nth)
  then obtain k' where k': "(k', a) \<in> set (attached (tc_threads s ! j))" "cleans k' (tc_threads s ! j)"
    by (cases "tc_threads s ! j") auto
  then have "(k', a) \<in> set (tc_map s)" using attached_in_map [OF inv j(1)] by blast
  with here have "k' = k"
    using tc_inv_parts(2) [OF inv] by (force simp: entries_ok_def distinct_map inj_on_def)
  with j k' show ?thesis by blast
qed

lemma tc_inv_pc:
  assumes "tc_inv lib s" and "i < length (tc_threads s)"
    and "\<forall>a. mutex_of p = Some a \<longrightarrow> mutex_of (tc_threads s ! i) = Some a \<or> mutex_free s a"
    and "\<forall>n. write_lock lib p = Some n \<longrightarrow> write_lock lib (tc_threads s ! i) = Some n \<or> may_write lib s n"
    and "\<forall>n. read_lock lib p = Some n \<longrightarrow> read_lock lib (tc_threads s ! i) = Some n \<or> may_read lib s n"
    and "set (attached p) \<subseteq> set (tc_map s)"
    and "\<forall>a. counted a p = counted a (tc_threads s ! i)"
    and "\<forall>k. cleans k (tc_threads s ! i) \<longrightarrow> cleans k p \<or> k \<notin> fst ` set (tc_map s) \<or>
      (\<exists>j < length (tc_threads s). j \<noteq> i \<and> cleans k (tc_threads s ! j))"
    and "pc_ok lib p"
  shows "tc_inv lib (s\<lparr>tc_threads := (tc_threads s)[i := p]\<rparr>)"
  using tc_inv_step [OF assms(1-6), of "tc_counts s"] assms(7-9) by simp

lemma enter_act_inv:
  assumes inv: "tc_inv lib s" and i: "i < length (tc_threads s)"
    and run: "enter_act lib s (tc_threads s ! i) = Some (s', p)"
  shows "tc_inv lib (s'\<lparr>tc_threads := (tc_threads s')[i := p]\<rparr>)"
proof (cases "tc_threads s ! i")
  case (W_closed l e t)
  with inv i run show ?thesis by (auto intro!: tc_inv_pc split: if_splits)
next
  case (W_len l e t)
  with inv i run show ?thesis by (auto intro!: tc_inv_pc split: if_splits)
next
  case (W_entry l e t)
  then have free: "may_write lib s (sl_shard lib (nl_address l))"
    using run by (auto split: if_splits)
  show ?thesis
  proof (cases "map_of (tc_map s) (nl_address l)")
    case None
    with inv i run W_entry free tc_inv_new_entry [OF inv i W_entry free None] show ?thesis
      by (auto simp: Let_def)
  next
    case (Some a)
    with inv i run W_entry free map_of_SomeD [OF Some] show ?thesis
      by (auto intro!: tc_inv_pc)
  qed
next
  case (W_lock l e t a)
  with inv i run attached_in_map [OF inv i] show ?thesis
    by (auto intro!: tc_inv_pc split: if_splits)
next
  case (W_unlock_key l e t a)
  with inv i run attached_in_map [OF inv i] show ?thesis by (auto intro!: tc_inv_pc)
next
  case (W_check l e t a)
  have "(nl_address l, a) \<in> set (tc_map s)" using attached_in_map [OF inv i] by (simp add: W_check)
  then show ?thesis
    using inv i run W_check map_arc_less [OF inv]
    by (cases "should_sleep (tc_heap s) l e")
      (auto intro!: tc_inv_step [OF inv i] simp: nth_list_update, auto intro!: tc_inv_pc)
qed (use run in auto)

lemma leave_act_inv:
  assumes inv: "tc_inv lib s" and i: "i < length (tc_threads s)"
    and run: "leave_act lib s (tc_threads s ! i) = Some (s', p)"
  shows "tc_inv lib (s'\<lparr>tc_threads := (tc_threads s')[i := p]\<rparr>)"
proof (cases "tc_threads s ! i")
  case (W_wake l a r)
  with inv i run attached_in_map [OF inv i] show ?thesis
    by (auto intro!: tc_inv_pc split: if_splits)
next
  case (W_leave l a r)
  have here: "(nl_address l, a) \<in> set (tc_map s)" 
    using attached_in_map [OF inv i] by (simp add: W_leave)
  have "filter (counted a) (tc_threads s) \<noteq> []"
    using W_leave nth_mem [OF i] by (auto simp: filter_empty_conv intro!: bexI [of _ "W_leave l a r"])
  then have "tc_counts s ! a \<noteq> 0"
    using tc_inv_parts(4) [OF inv] map_arc_less [OF inv here] by (auto simp: counts_ok_def)
  then show ?thesis
    using inv i run W_leave map_arc_less [OF inv here]
    by (auto intro!: tc_inv_step simp: nth_list_update)
next
  case (C_entry l r)
  then have free: "may_write lib s (sl_shard lib (nl_address l))"
    using run by (auto split: if_splits)
  show ?thesis
  proof (cases "map_of (tc_map s) (nl_address l)")
    case None
    then have "nl_address l \<notin> fst ` set (tc_map s)" by (simp add: map_of_eq_None_iff)
    with inv i run C_entry free None show ?thesis by (force intro!: tc_inv_pc)
  next
    case (Some a)
    with inv i run C_entry free map_of_SomeD [OF Some] show ?thesis by (auto intro!: tc_inv_pc)
  qed
next
  case (C_lock l r a)
  with inv i run attached_in_map [OF inv i] show ?thesis
    by (auto intro!: tc_inv_pc split: if_splits)
next
  case (C_remove l r a)
  have here: "(nl_address l, a) \<in> set (tc_map s)"
    using attached_in_map [OF inv i] by (simp add: C_remove)
  show ?thesis
  proof (cases "tc_counts s ! a = 0")
    case True
    with inv i run C_remove tc_inv_remove [OF inv i C_remove True] show ?thesis by auto
  next
    case False
    from counted_cleans [OF inv here False]
    have "\<exists>j < length (tc_threads s). j \<noteq> i \<and> cleans (nl_address l) (tc_threads s ! j)"
      using C_remove by force
    with inv i run C_remove False show ?thesis by (auto intro!: tc_inv_pc)
  qed
qed (use run in auto)

lemma tc_inv_wake_one:
  assumes "tc_inv lib s" and "j < length (tc_threads s)"
    and "sleeps_on a (tc_threads s ! j)"
  shows "tc_inv lib (s\<lparr>tc_threads := (tc_threads s)[j := woken r (tc_threads s ! j)]\<rparr>)"
  using assms(3) attached_in_map [OF assms(1,2)]
  by (intro tc_inv_pc [OF assms(1,2)]; cases "tc_threads s ! j") auto

lemma sleepers_iff: "j \<in> set (sleepers s a) \<longleftrightarrow>
    j < length (tc_threads s) \<and> sleeps_on a (tc_threads s ! j)"
  by (auto simp: sleepers_def)

lemma notify_act_inv:
  assumes inv: "tc_inv lib s" and i: "i < length (tc_threads s)" and lib: "sync_ok lib"
    and run: "notify_act lib s (tc_threads s ! i) = Some (s', p)"
  shows "tc_inv lib (s'\<lparr>tc_threads := (tc_threads s')[i := p]\<rparr>)"
proof (cases "tc_threads s ! i")
  case (N_get d c)
  with inv i run show ?thesis
    by (auto intro!: tc_inv_pc split: if_splits option.splits dest: map_of_SomeD)
next
  case (N_lock d c a)
  with inv i run attached_in_map [OF inv i] show ?thesis
    by (auto intro!: tc_inv_pc split: if_splits)
next
  case (N_loop d c n a)
  show ?thesis
  proof (cases "n < c \<and> sl_pick lib (sleepers s a) \<noteq> None")
    case False
    with inv i run N_loop show ?thesis
      by (auto intro!: tc_inv_pc split: if_splits option.splits)
  next
    case True
    then obtain j where j: "sl_pick lib (sleepers s a) = Some j" by auto
    then have "j \<in> set (sleepers s a)"
      using lib [unfolded sync_ok_def] by (metis (mono_tags, lifting) option.simps(5))
    then have "j < length (tc_threads s)" and sl: "sleeps_on a (tc_threads s ! j)"
      by (simp_all add: sleepers_iff)
    note woke = tc_inv_wake_one [OF inv this, of 0]
    have le: "n + 1 \<le> c" using True by (simp add: inc_le)
    have "j \<noteq> i" using sl N_loop by auto
    with inv i run N_loop True j attached_in_map [OF inv i] woke le show ?thesis
      by (auto intro!: tc_inv_pc)
  qed
qed (use run in auto)

lemma notify_all_inv: "tc_inv lib s \<Longrightarrow> tc_inv lib (notify_all s a)"
  unfolding notify_all_def by (rule tc_inv_woken) auto

lemma wake_all_act_inv:
  assumes inv: "tc_inv lib s" and i: "i < length (tc_threads s)"
    and run: "wake_all_act lib s (tc_threads s ! i) = Some (s', p)"
  shows "tc_inv lib (s'\<lparr>tc_threads := (tc_threads s')[i := p]\<rparr>)"
proof (cases "tc_threads s ! i")
  case (K_shard n)
  with inv i run show ?thesis by (auto intro!: tc_inv_pc split: if_splits)
next
  case (K_items n es)
  show ?thesis
  proof (cases es)
    case Nil
    with inv i run K_items show ?thesis by (auto intro!: tc_inv_pc)
  next
    case (Cons e es')
    obtain k a where e: "e = (k, a)" by (cases e)
    have sh: "pc_ok lib (K_items n es)"
      using tc_inv_parts(6) [OF inv] nth_mem [OF i] unfolding pcs_ok_def K_items by blast
    have pc: "tc_threads (notify_all s a) ! i = K_items n es" "i < length (tc_threads (notify_all s a))"
      using i by (simp_all add: notify_all_def K_items)
    have "set es \<subseteq> set (tc_map (notify_all s a))"
      using attached_in_map [OF inv i] by (auto simp: K_items notify_all_def)
    with inv pc run K_items Cons e sh notify_all_inv [OF inv, of a] show ?thesis
      by (auto intro!: tc_inv_pc split: if_splits)
  qed
next
  case D_store
  have "tc_inv lib (s\<lparr>tc_closed := True\<rparr>)"
    using inv by (simp add: tc_inv_def entries_ok_def attached_ok_def counts_ok_def cleaned_ok_def
        pcs_ok_def)
  with inv i run D_store show ?thesis by (auto intro!: tc_inv_pc)
qed (use run in auto)

lemma first_some_Some:
  "first_some [a, b, c, d] = Some x \<longleftrightarrow>
     a = Some x \<or> a = None \<and> (b = Some x \<or> b = None \<and> (c = Some x \<or> c = None \<and> d = Some x))"
  by (cases a; cases b; cases c; cases d) auto

lemma tc_act_inv:
  assumes "tc_inv lib s" and "sync_ok lib" and "tc_act lib s i = Some s'"
  shows "tc_inv lib s'"
  using assms(3) enter_act_inv [OF assms(1), of i] leave_act_inv [OF assms(1), of i]
    notify_act_inv [OF assms(1) _ assms(2), of i]
    wake_all_act_inv [OF assms(1), of i]
  by (auto simp: tc_act_def Let_def first_some_Some split: if_splits option.splits)

lemma tc_step_inv:
  assumes "tc_inv lib s" and "sync_ok lib" and "tc_step lib s s'"
  shows "tc_inv lib s'"
  using assms(3)
proof cases
  case (tc_thread i)
  with assms(1,2) show ?thesis by (blast intro: tc_act_inv)
next
  case (tc_timeout i l a)
  with attached_in_map [OF assms(1) tc_timeout(2)] assms(1) show ?thesis
    by (auto intro!: tc_inv_pc)
next
  case (tc_store h)
  with assms(1) show ?thesis
    by (simp add: tc_inv_def entries_ok_def attached_ok_def counts_ok_def cleaned_ok_def pcs_ok_def)
next
  case (tc_call i p)
  then show ?thesis using assms(1) by (cases p) (auto intro!: tc_inv_pc)
qed

lemma tc_reachable_inv: "tc_reachable lib s \<Longrightarrow> sync_ok lib \<Longrightarrow> tc_inv lib s"
proof (induction rule: tc_reachable.induct)
  case (tc_init n h)
  show ?case
    by (auto simp: tc_new_def tc_inv_def locks_ok_def locks_apart_def entries_ok_def attached_ok_def
        counts_ok_def cleaned_ok_def pcs_ok_def)
next
  case (tc_next s s')
  then show ?case using tc_step_inv by blast
qed

section \<open>A concrete system\<close>

text \<open>One shard, and the sleeper with the lowest number is woken first.\<close>

definition example_lib :: sync_lib where
  "example_lib = \<lparr>sl_shard = (\<lambda>_. 0), sl_shards = 1,
     sl_pick = (\<lambda>js. case js of [] \<Rightarrow> None | j # _ \<Rightarrow> Some j)\<rparr>"

lemma sync_ok_example: "sync_ok example_lib"
  by (auto simp: sync_ok_def example_lib_def split: list.splits)

text \<open>A schedule: which thread moves next, and which call an idle thread makes.\<close>

datatype event = Run nat | Call nat pc

fun tc_event :: "sync_lib \<Rightarrow> tc_state \<Rightarrow> event \<Rightarrow> tc_state option" where
  "tc_event lib s (Run i) = tc_act lib s i"
| "tc_event lib s (Call i p) =
     (if i < length (tc_threads s) \<and> tc_threads s ! i = Idle \<and> entry_point p
      then Some (s\<lparr>tc_threads := (tc_threads s)[i := p]\<rparr>) else None)"

fun tc_run :: "sync_lib \<Rightarrow> tc_state \<Rightarrow> event list \<Rightarrow> tc_state option" where
  "tc_run lib s [] = Some s"
| "tc_run lib s (e # es) = (case tc_event lib s e of None \<Rightarrow> None | Some s' \<Rightarrow> tc_run lib s' es)"

lemma tc_event_step: "tc_event lib s e = Some s' \<Longrightarrow> tc_step lib s s'"
  by (cases e) (auto intro: tc_step.intros split: if_splits)

lemma tc_run_reachable:
  "tc_reachable lib s \<Longrightarrow> tc_run lib s es = Some s' \<Longrightarrow> tc_reachable lib s'"
proof (induction es arbitrary: s)
  case (Cons e es)
  then show ?case by (auto split: option.splits dest: tc_event_step tc_next)
qed simp

definition example_loc :: NotifyLocation where
  "example_loc = \<lparr>nl_address = 8, nl_memory_base = 4096\<rparr>"

definition sleep_schedule :: "event list" where
  "sleep_schedule = [Call 0 (W_closed example_loc NoExpected False),
     Run 0, Run 0, Run 0, Run 0, Run 0, Run 0]"

lemma sleep_schedule_run:
  "tc_run example_lib (tc_new 2 (\<lambda>_. 0)) sleep_schedule =
     Some \<lparr>tc_closed = False, tc_map = [(8, 0)], tc_counts = [1], tc_heap = (\<lambda>_. 0),
           tc_threads = [W_sleep example_loc False 0, Idle]\<rparr>"
  by (simp add: sleep_schedule_def tc_new_def tc_act_def example_lib_def example_loc_def
      mutex_free_def may_write_def may_read_def numeral_2_eq_2)

lemma sleep_schedule_reachable:
  "tc_reachable example_lib \<lparr>tc_closed = False, tc_map = [(8, 0)], tc_counts = [1],
     tc_heap = (\<lambda>_. 0), tc_threads = [W_sleep example_loc False 0, Idle]\<rparr>"
  using tc_run_reachable [OF tc_init sleep_schedule_run] .

section \<open>Properties\<close>

text \<open>
  C3: no waiter is ever lost by the cleanup of the map. In every reachable state a thread that
  sleeps on an address sleeps on the condition variable that the map holds for this address,
  where every later notification looks for it, and the waiter count kept there is the number
  of threads that sleep or have been woken and not yet left; two threads are never inside the
  same mutex.
\<close>

theorem waiters_registered:
  assumes "tc_reachable lib s" and "sync_ok lib"
    and "i < length (tc_threads s)" and "tc_threads s ! i = W_sleep l t a"
  shows "map_of (tc_map s) (nl_address l) = Some a \<and> i \<in> set (sleepers s a) \<and>
    tc_counts s ! a = length (filter (counted a) (tc_threads s)) \<and>
    (\<forall>j k b. j < length (tc_threads s) \<and> k < length (tc_threads s) \<and>
       mutex_of (tc_threads s ! j) = Some b \<and> mutex_of (tc_threads s ! k) = Some b \<longrightarrow> j = k)"
proof -
  have inv: "tc_inv lib s" by (rule tc_reachable_inv [OF assms(1,2)])
  have here: "(nl_address l, a) \<in> set (tc_map s)"
    using attached_in_map [OF inv assms(3)] by (simp add: assms(4))
  moreover have "tc_counts s ! a = length (filter (counted a) (tc_threads s))"
    using tc_inv_parts(4) [OF inv] map_arc_less [OF inv here] by (simp add: counts_ok_def)
  moreover have "j = k" if "j < length (tc_threads s)" "k < length (tc_threads s)"
    "mutex_of (tc_threads s ! j) = Some b" "mutex_of (tc_threads s ! k) = Some b" for j k b
    using tc_inv_parts(1) [OF inv] that by (force simp: locks_ok_def locks_apart_def)
  ultimately show ?thesis using assms(3,4) by (auto simp: map_lookup [OF inv] sleepers_iff)
qed

theorem waiters_registered_witness:
  "map_of [(8 :: u32, 0 :: nat)] (nl_address example_loc) = Some 0"
  using waiters_registered [OF sleep_schedule_reachable sync_ok_example, of 0 example_loc False 0]
  by simp



text \<open>A sleeper of an address sleeps on the arc of that address.\<close>

lemma sleeper_arc:
  assumes "tc_inv lib s" and "W_sleep l t b \<in> set (tc_threads s)"
  shows "map_of (tc_map s) (nl_address l) = Some b"
proof -
  obtain j where "j < length (tc_threads s)" "tc_threads s ! j = W_sleep l t b"
    using assms(2) by (auto simp: in_set_conv_nth)
  then have "(nl_address l, b) \<in> set (tc_map s)" using attached_in_map [OF assms(1)] by force
  then show ?thesis by (simp add: map_lookup [OF assms(1)])
qed

lemma set_update_Finished:
  "W_sleep l t b \<in> set (ps[i := Finished r]) \<Longrightarrow> W_sleep l t b \<in> set ps"
  using set_update_subset_insert [of ps i "Finished r"] by auto

lemma pick_None: "sync_ok lib \<Longrightarrow> sl_pick lib js = None \<Longrightarrow> js = []"
  unfolding sync_ok_def by (metis (mono_tags, lifting) option.simps(4))

lemma pick_Some: "sync_ok lib \<Longrightarrow> sl_pick lib js = Some j \<Longrightarrow> j \<in> set js"
  unfolding sync_ok_def by (metis (mono_tags, lifting) option.simps(5))

lemma notify_get_complete:
  assumes "tc_inv lib s" and "i < length (tc_threads s)" and "tc_threads s ! i = N_get d c"
    and "tc_act lib s i = Some s'"
  shows "(\<exists>b. tc_threads s' ! i = N_lock d c b) \<or> tc_threads s' ! i = Finished (Ok 0) \<and>
    (\<forall>l t b. W_sleep l t b \<in> set (tc_threads s') \<longrightarrow> nl_address l \<noteq> d)"
  using assms(2-4)
  by (auto simp: tc_act_def split: if_splits option.splits
      dest!: set_update_Finished sleeper_arc [OF assms(1)])

lemma notify_loop_complete:
  assumes inv: "tc_inv lib s" and lib: "sync_ok lib" and i: "i < length (tc_threads s)"
    and pc: "tc_threads s ! i = N_loop d c n a" and run: "tc_act lib s i = Some s'"
  shows "tc_threads s' ! i = Finished (Ok n) \<and> n \<le> c \<and>
       (n < c \<longrightarrow> (\<forall>l t b. W_sleep l t b \<in> set (tc_threads s') \<longrightarrow> nl_address l \<noteq> d)) \<or>
    (\<exists>j l t. tc_threads s ! j = W_sleep l t a \<and> nl_address l = d \<and> j < length (tc_threads s) \<and>
       tc_threads s' = (tc_threads s)[j := W_wake l a 0, i := N_loop d c (n + 1) a])"
proof -
  have le: "n \<le> c" using tc_inv_parts(6) [OF inv] nth_mem [OF i] pc by (force simp: pcs_ok_def)
  have da: "map_of (tc_map s) d = Some a"
    using attached_in_map [OF inv i] by (simp add: pc map_lookup [OF inv])
  consider "\<not> n < c" | "n < c" "sl_pick lib (sleepers s a) = None" |
    j where "n < c" "sl_pick lib (sleepers s a) = Some j" by fastforce
  then show ?thesis
  proof cases
    case 1
    with run i pc le show ?thesis by (auto simp: tc_act_def)
  next
    case 2
    have "nl_address l \<noteq> d" if "W_sleep l t b \<in> set (tc_threads s)" for l t b
    proof
      assume "nl_address l = d"
      then have "b = a" using sleeper_arc [OF inv that] da by simp
      with that have "sleepers s a \<noteq> []"
        by (auto simp: sleepers_def filter_empty_conv in_set_conv_nth) force
      with pick_None [OF lib 2(2)] show False by simp
    qed
    then have none: "W_sleep l t b \<notin> set (tc_threads s)" if "nl_address l = d" for l t b
      using that by blast
    from 2 run i pc have "s' = s\<lparr>tc_threads := (tc_threads s)[i := Finished (Ok n)]\<rparr>"
      by (simp add: tc_act_def)
    with i le none show ?thesis by (auto dest!: set_update_Finished)
  next
    case (3 j)
    from pick_Some [OF lib 3(2)] have j: "j < length (tc_threads s)" "sleeps_on a (tc_threads s ! j)"
      by (simp_all add: sleepers_iff)
    then obtain l t where sl: "tc_threads s ! j = W_sleep l t a"
      by (cases "tc_threads s ! j") auto
    have "map_of (tc_map s) (nl_address l) = Some a"
      using sleeper_arc [OF inv, of l t a] nth_mem [OF j(1)] sl by simp
    then have "nl_address l = d"
      using da tc_inv_parts(2) [OF inv]
      by (force simp: entries_ok_def distinct_map inj_on_def dest!: map_of_SomeD)
    moreover from 3 run i pc j sl
    have "tc_threads s' = (tc_threads s)[j := W_wake l a 0, i := N_loop d c (n + 1) a]"
      by (auto simp: tc_act_def)
    ultimately show ?thesis using sl j(1) by blast
  qed
qed

text \<open>
  C4: what \<open>do_notify\<close> returns. When it returns the number \<open>r\<close> for an address, \<open>r\<close> is at most
  the requested count, and if it is smaller then no thread sleeps on that address any more; each
  round of its loop before that wakes exactly one thread that slept on the address.
\<close>

theorem notify_complete:
  assumes "tc_reachable lib s" and "sync_ok lib" and "i < length (tc_threads s)"
    and "tc_threads s ! i = N_get d c \<or> tc_threads s ! i = N_loop d c n a"
    and "tc_act lib s i = Some s'"
  shows "(\<exists>r. tc_threads s' ! i = Finished (Ok r) \<and> r \<le> c \<and>
       (r < c \<longrightarrow> (\<forall>l t b. W_sleep l t b \<in> set (tc_threads s') \<longrightarrow> nl_address l \<noteq> d))) \<or>
    (\<exists>b. tc_threads s' ! i = N_lock d c b) \<or>
    (\<exists>j l t. tc_threads s ! j = W_sleep l t a \<and> nl_address l = d \<and> j < length (tc_threads s) \<and>
       tc_threads s' = (tc_threads s)[j := W_wake l a 0, i := N_loop d c (n + 1) a])"
proof -
  have inv: "tc_inv lib s" by (rule tc_reachable_inv [OF assms(1,2)])
  from assms(4) show ?thesis
    using notify_get_complete [OF inv assms(3) _ assms(5)]
      notify_loop_complete [OF inv assms(2,3) _ assms(5)]
    by (elim disjE) (metis word_zero_le, metis)
qed

theorem notify_complete_witness:
  "\<exists>s s'. tc_reachable example_lib s \<and> tc_threads s ! 1 = N_loop 8 5 0 0 \<and>
     tc_act example_lib s 1 = Some s' \<and>
     tc_threads s' = [W_wake example_loc 0 0, N_loop 8 5 1 0]"
proof -
  let ?s = "\<lparr>tc_closed = False, tc_map = [(8, 0)], tc_counts = [1], tc_heap = (\<lambda>_. 0),
     tc_threads = [W_sleep example_loc False 0, N_loop 8 5 0 0]\<rparr>"
  have "tc_run example_lib \<lparr>tc_closed = False, tc_map = [(8, 0)], tc_counts = [1],
     tc_heap = (\<lambda>_. 0), tc_threads = [W_sleep example_loc False 0, Idle]\<rparr>
     [Call 1 (N_get 8 5), Run 1, Run 1] = Some ?s"
    by (simp add: tc_act_def example_lib_def example_loc_def mutex_free_def may_write_def
        may_read_def)
  from tc_run_reachable [OF sleep_schedule_reachable this] have r: "tc_reachable example_lib ?s" .
  obtain s' where s': "tc_act example_lib ?s 1 = Some s'"
    by (simp add: tc_act_def example_lib_def sleepers_def)
  from notify_complete [OF r sync_ok_example, of 1 8 5 0 0 s'] s' r show ?thesis
    by (auto simp: less_Suc_eq tc_act_def example_lib_def sleepers_def)
qed


text \<open>
  A waiter woken by \<open>wake_all_atomic_waiters\<close> returns 0, like a notified one, although no
  notification was made.
\<close>

lemma wake_all_returns_notified:
  "\<exists>s. tc_run example_lib (tc_new 2 (\<lambda>_. 0))
     (sleep_schedule @ [Call 1 (K_shard 0), Run 1, Run 1, Run 1, Run 1,
        Run 0, Run 0, Run 0, Run 0, Run 0]) = Some s \<and>
     tc_threads s = [Finished (Ok 0), Finished (Ok 0)] \<and> tc_map s = []"
  by (simp add: sleep_schedule_def tc_new_def tc_act_def example_lib_def example_loc_def
      mutex_free_def may_write_def may_read_def numeral_2_eq_2 notify_all_def)

end
