(* ===== verification/Shared_Memory.thy ===== *)
theory Shared_Memory
  imports Linear_Memory Thread_Conditions
begin

text \<open>
  Shared memories and memories of either kind, \<open>lib/vm/src/memory.rs\<close>: \<open>VMSharedMemory\<close>, the
  boxed \<open>VMMemory\<close> and the methods of \<open>LinearMemory\<close> that dispatch on it. The reference-counted
  cells of shared memories are explicit (\<open>cells\<close>), so that clones alias. Both kinds are reduced
  to an owned memory by \<open>vm_view\<close>, through which the interface of \<open>Linear_Memory\<close> is interpreted
  for them; several memories in one process are shown not to interfere.
\<close>

section \<open>Shared memories\<close>

text \<open>
  The \<open>Rc<RwLock<WasmMmap>>\<close> of a shared memory is an index into the list of all such cells;
  clones have the same index. The wait lists are identified by a number as well.
\<close>

record VMSharedMemory =
  shm_mmap :: nat
  shm_config :: VMMemoryConfig
  shm_conditions :: nat

record cells =
  ce_mmaps :: "WasmMmap list"
  ce_conditions :: nat

definition to_shared :: "cells \<Rightarrow> VMOwnedMemory \<Rightarrow> VMSharedMemory \<times> cells" where
  "to_shared c m =
     (\<lparr>shm_mmap = length (ce_mmaps c), shm_config = om_config m, shm_conditions = ce_conditions c\<rparr>,
      \<lparr>ce_mmaps = ce_mmaps c @ [om_mmap m], ce_conditions = ce_conditions c + 1\<rparr>)"

definition shm_made :: "cells \<Rightarrow> (VMOwnedMemory \<times> os_state, MemoryError) outcome \<Rightarrow>
    (VMSharedMemory \<times> cells \<times> os_state, MemoryError) outcome" where
  "shm_made c r = bind_ok r (\<lambda>(m, st). let (h, c') = to_shared c m in Ok (h, c', st))"

definition shm_new ::
  "os \<Rightarrow> os_state \<Rightarrow> cells \<Rightarrow> MemoryType \<Rightarrow> MemoryStyle \<Rightarrow>
   (VMSharedMemory \<times> cells \<times> os_state, MemoryError) outcome" where
  "shm_new os st c memory style = shm_made c (om_new os st memory style)"

definition shm_new_with_file ::
  "os \<Rightarrow> os_state \<Rightarrow> cells \<Rightarrow> MemoryType \<Rightarrow> MemoryStyle \<Rightarrow> string \<Rightarrow> MmapType \<Rightarrow>
   (VMSharedMemory \<times> cells \<times> os_state, MemoryError) outcome" where
  "shm_new_with_file os st c memory style backing_file memory_type =
     shm_made c (om_new_with_file os st memory style backing_file memory_type)"

definition shm_from_definition ::
  "os \<Rightarrow> os_state \<Rightarrow> cells \<Rightarrow> MemoryType \<Rightarrow> MemoryStyle \<Rightarrow> usize \<Rightarrow>
   (VMSharedMemory \<times> cells \<times> os_state, MemoryError) outcome" where
  "shm_from_definition os st c memory style loc = shm_made c (om_from_definition os st memory style loc)"

definition shm_from_definition_with_file ::
  "os \<Rightarrow> os_state \<Rightarrow> cells \<Rightarrow> MemoryType \<Rightarrow> MemoryStyle \<Rightarrow> usize \<Rightarrow> string option \<Rightarrow> MmapType \<Rightarrow>
   (VMSharedMemory \<times> cells \<times> os_state, MemoryError) outcome" where
  "shm_from_definition_with_file os st c memory style loc backing_file memory_type =
     shm_made c (om_from_definition_with_file os st memory style loc backing_file memory_type)"

text \<open>Locking the cell of a shared memory for reading and for writing.\<close>

definition shm_read :: "cells \<Rightarrow> VMSharedMemory \<Rightarrow> (WasmMmap, 'e) outcome" where
  "shm_read c h = unwrap (nth_opt (ce_mmaps c) (shm_mmap h))"

definition shm_write :: "cells \<Rightarrow> VMSharedMemory \<Rightarrow> WasmMmap \<Rightarrow> cells" where
  "shm_write c h w = c\<lparr>ce_mmaps := (ce_mmaps c)[shm_mmap h := w]\<rparr>"

definition shm_copy ::
  "os \<Rightarrow> os_state \<Rightarrow> cells \<Rightarrow> VMSharedMemory \<Rightarrow>
   (VMSharedMemory \<times> cells \<times> os_state, MemoryError) outcome" where
  "shm_copy os st c h =
     bind_ok (shm_read c h) (\<lambda>guard.
     bind_ok (wm_copy os st guard) (\<lambda>(w, st1).
       Ok (\<lparr>shm_mmap = length (ce_mmaps c), shm_config = shm_config h, shm_conditions = ce_conditions c\<rparr>,
           \<lparr>ce_mmaps = ce_mmaps c @ [w], ce_conditions = ce_conditions c + 1\<rparr>, st1)))"

definition shm_ty :: "cells \<Rightarrow> VMSharedMemory \<Rightarrow> (MemoryType, 'e) outcome" where
  "shm_ty c h =
     bind_ok (shm_read c h) (\<lambda>guard. bind_ok (wm_get_size guard) (\<lambda>minimum.
       Ok (cf_ty (shm_config h) minimum)))"

definition shm_size :: "cells \<Rightarrow> VMSharedMemory \<Rightarrow> (Pages, 'e) outcome" where
  "shm_size c h = bind_ok (shm_read c h) wm_get_size"

definition shm_style :: "VMSharedMemory \<Rightarrow> MemoryStyle" where
  "shm_style h = cf_style (shm_config h)"

definition shm_grow ::
  "os \<Rightarrow> os_state \<Rightarrow> cells \<Rightarrow> VMSharedMemory \<Rightarrow> Pages \<Rightarrow>
   (Pages \<times> cells \<times> os_state, MemoryError) outcome" where
  "shm_grow os st c h delta =
     bind_ok (shm_read c h) (\<lambda>guard.
     bind_ok (wm_grow os st guard delta (shm_config h)) (\<lambda>(prev, w, st1).
       Ok (prev, shm_write c h w, st1)))"

definition shm_grow_at_least ::
  "os \<Rightarrow> os_state \<Rightarrow> cells \<Rightarrow> VMSharedMemory \<Rightarrow> u64 \<Rightarrow> (cells \<times> os_state, MemoryError) outcome" where
  "shm_grow_at_least os st c h min_size =
     bind_ok (shm_read c h) (\<lambda>guard.
     bind_ok (wm_grow_at_least os st guard min_size (shm_config h)) (\<lambda>(w, st1).
       Ok (shm_write c h w, st1)))"

definition shm_reset :: "cells \<Rightarrow> VMSharedMemory \<Rightarrow> (cells, MemoryError) outcome" where
  "shm_reset c h =
     bind_ok (shm_read c h) (\<lambda>guard. bind_ok (wm_reset guard) (\<lambda>w. Ok (shm_write c h w)))"

definition shm_vmmemory :: "cells \<Rightarrow> VMSharedMemory \<Rightarrow> (VMMemoryDefinition, 'e) outcome" where
  "shm_vmmemory c h = bind_ok (shm_read c h) (\<lambda>guard. Ok (owned_value (wm_definition guard)))"

definition shm_try_clone :: "VMSharedMemory \<Rightarrow> (VMSharedMemory, MemoryError) outcome" where
  "shm_try_clone h = Ok h"

text \<open>The address that \<open>do_wait\<close> passes on to the wait lists of the memory.\<close>

definition shm_wait_location :: "cells \<Rightarrow> VMSharedMemory \<Rightarrow> u32 \<Rightarrow> (NotifyLocation, WaiterError) outcome" where
  "shm_wait_location c h dst = bind_ok (shm_read c h) (\<lambda>guard.
     Ok \<lparr>nl_address = dst, nl_memory_base = mm_ptr (wm_alloc guard)\<rparr>)"

section \<open>Memories of either kind\<close>

datatype VMMemory = OwnedMemory VMOwnedMemory | SharedMemory VMSharedMemory

definition vm_new ::
  "os \<Rightarrow> os_state \<Rightarrow> cells \<Rightarrow> MemoryType \<Rightarrow> MemoryStyle \<Rightarrow>
   (VMMemory \<times> cells \<times> os_state, MemoryError) outcome" where
  "vm_new os st c memory style =
     (if mt_shared memory
      then bind_ok (shm_new os st c memory style) (\<lambda>(h, c', st'). Ok (SharedMemory h, c', st'))
      else bind_ok (om_new os st memory style) (\<lambda>(m, st'). Ok (OwnedMemory m, c, st')))"

definition vm_from_definition ::
  "os \<Rightarrow> os_state \<Rightarrow> cells \<Rightarrow> MemoryType \<Rightarrow> MemoryStyle \<Rightarrow> usize \<Rightarrow>
   (VMMemory \<times> cells \<times> os_state, MemoryError) outcome" where
  "vm_from_definition os st c memory style loc =
     (if mt_shared memory
      then bind_ok (shm_from_definition os st c memory style loc)
             (\<lambda>(h, c', st'). Ok (SharedMemory h, c', st'))
      else bind_ok (om_from_definition os st memory style loc)
             (\<lambda>(m, st'). Ok (OwnedMemory m, c, st')))"

fun vm_ty :: "cells \<Rightarrow> VMMemory \<Rightarrow> (MemoryType, 'e) outcome" where
  "vm_ty c (OwnedMemory m) = om_ty m"
| "vm_ty c (SharedMemory h) = shm_ty c h"

fun vm_size :: "cells \<Rightarrow> VMMemory \<Rightarrow> (Pages, 'e) outcome" where
  "vm_size c (OwnedMemory m) = om_size m"
| "vm_size c (SharedMemory h) = shm_size c h"

fun vm_style :: "VMMemory \<Rightarrow> MemoryStyle" where
  "vm_style (OwnedMemory m) = om_style m"
| "vm_style (SharedMemory h) = shm_style h"

definition get_runtime_size :: "cells \<Rightarrow> VMMemory \<Rightarrow> (u32, 'e) outcome" where
  "get_runtime_size c m = vm_size c m"

fun vm_grow ::
  "os \<Rightarrow> os_state \<Rightarrow> cells \<Rightarrow> VMMemory \<Rightarrow> Pages \<Rightarrow>
   (Pages \<times> (cells \<times> VMMemory) \<times> os_state, MemoryError) outcome" where
  "vm_grow os st c (OwnedMemory m) delta =
     bind_ok (om_grow os st m delta) (\<lambda>(p, m', st'). Ok (p, (c, OwnedMemory m'), st'))"
| "vm_grow os st c (SharedMemory h) delta =
     bind_ok (shm_grow os st c h delta) (\<lambda>(p, c', st'). Ok (p, (c', SharedMemory h), st'))"

fun vm_grow_at_least ::
  "os \<Rightarrow> os_state \<Rightarrow> cells \<Rightarrow> VMMemory \<Rightarrow> u64 \<Rightarrow>
   ((cells \<times> VMMemory) \<times> os_state, MemoryError) outcome" where
  "vm_grow_at_least os st c (OwnedMemory m) min_size =
     bind_ok (om_grow_at_least os st m min_size) (\<lambda>(m', st'). Ok ((c, OwnedMemory m'), st'))"
| "vm_grow_at_least os st c (SharedMemory h) min_size =
     bind_ok (shm_grow_at_least os st c h min_size) (\<lambda>(c', st'). Ok ((c', SharedMemory h), st'))"

fun vm_reset :: "cells \<Rightarrow> VMMemory \<Rightarrow> (cells \<times> VMMemory, MemoryError) outcome" where
  "vm_reset c (OwnedMemory m) = bind_ok (om_reset m) (\<lambda>m'. Ok (c, OwnedMemory m'))"
| "vm_reset c (SharedMemory h) = bind_ok (shm_reset c h) (\<lambda>c'. Ok (c', SharedMemory h))"

fun vm_vmmemory :: "cells \<Rightarrow> VMMemory \<Rightarrow> (VMMemoryDefinition, 'e) outcome" where
  "vm_vmmemory c (OwnedMemory m) = Ok (om_vmmemory m)"
| "vm_vmmemory c (SharedMemory h) = shm_vmmemory c h"

fun vm_try_clone :: "VMMemory \<Rightarrow> (VMMemory, MemoryError) outcome" where
  "vm_try_clone (OwnedMemory m) = bind_ok (om_try_clone m) (\<lambda>m'. Ok (OwnedMemory m'))"
| "vm_try_clone (SharedMemory h) = bind_ok (shm_try_clone h) (\<lambda>h'. Ok (SharedMemory h'))"

fun vm_copy ::
  "os \<Rightarrow> os_state \<Rightarrow> cells \<Rightarrow> VMMemory \<Rightarrow> (VMMemory \<times> cells \<times> os_state, MemoryError) outcome" where
  "vm_copy os st c (OwnedMemory m) =
     bind_ok (om_copy os st m) (\<lambda>(m', st'). Ok (OwnedMemory m', c, st'))"
| "vm_copy os st c (SharedMemory h) =
     bind_ok (shm_copy os st c h) (\<lambda>(h', c', st'). Ok (SharedMemory h', c', st'))"

definition vm_initialize_with_data ::
  "os_state \<Rightarrow> cells \<Rightarrow> VMMemory \<Rightarrow> usize \<Rightarrow> u8 list \<Rightarrow> (os_state, TrapCode) outcome" where
  "vm_initialize_with_data st c m start data =
     bind_ok (vm_vmmemory c m) (\<lambda>md. initialize_memory_with_data st md start data)"

text \<open>Waiting and notifying: only shared memories have wait lists.\<close>

fun vm_wait_location :: "cells \<Rightarrow> VMMemory \<Rightarrow> u32 \<Rightarrow> (NotifyLocation, WaiterError) outcome" where
  "vm_wait_location c (OwnedMemory m) dst = Err Unimplemented"
| "vm_wait_location c (SharedMemory h) dst = shm_wait_location c h dst"

fun vm_thread_conditions :: "VMMemory \<Rightarrow> nat option" where
  "vm_thread_conditions (OwnedMemory m) = None"
| "vm_thread_conditions (SharedMemory h) = Some (shm_conditions h)"

section \<open>A memory of either kind is a linear memory\<close>

text \<open>The owned memory that a memory amounts to: its mapped area and its configuration.\<close>

fun vm_view :: "cells \<times> VMMemory \<Rightarrow> VMOwnedMemory" where
  "vm_view (c, OwnedMemory m) = m"
| "vm_view (c, SharedMemory h) = \<lparr>om_mmap = ce_mmaps c ! shm_mmap h, om_config = shm_config h\<rparr>"

fun vm_valid :: "cells \<times> VMMemory \<Rightarrow> bool" where
  "vm_valid (c, OwnedMemory m) = True"
| "vm_valid (c, SharedMemory h) = (shm_mmap h < length (ce_mmaps c))"

definition vm_inv :: "os \<Rightarrow> os_state \<Rightarrow> cells \<times> VMMemory \<Rightarrow> bool" where
  "vm_inv os st m = (vm_valid m \<and> om_inv os st (vm_view m))"

definition vm_pages :: "cells \<times> VMMemory \<Rightarrow> nat" where "vm_pages m = om_pages (vm_view m)"

definition vm_limit :: "cells \<times> VMMemory \<Rightarrow> nat" where "vm_limit m = om_limit (vm_view m)"

definition vm_byte :: "os_state \<Rightarrow> cells \<times> VMMemory \<Rightarrow> nat \<Rightarrow> u8" where
  "vm_byte st m = om_byte st (vm_view m)"

definition vm_store :: "os_state \<Rightarrow> cells \<times> VMMemory \<Rightarrow> nat \<Rightarrow> u8 \<Rightarrow> os_state" where
  "vm_store st m = om_store st (vm_view m)"

definition vm_do_grow ::
  "os \<Rightarrow> os_state \<Rightarrow> cells \<times> VMMemory \<Rightarrow> Pages \<Rightarrow>
   (Pages \<times> (cells \<times> VMMemory) \<times> os_state, MemoryError) outcome" where
  "vm_do_grow os st m d = vm_grow os st (fst m) (snd m) d"

lemmas vm_view_defs = vm_inv_def vm_pages_def vm_limit_def vm_byte_def vm_store_def

text \<open>Growing a memory of either kind is growing its view.\<close>

lemma shm_read_valid: "shm_mmap h < length (ce_mmaps c) \<Longrightarrow> shm_read c h = Ok (ce_mmaps c ! shm_mmap h)"
  by (simp add: shm_read_def nth_opt_def)

lemma shm_view_write:
  "shm_mmap h < length (ce_mmaps c) \<Longrightarrow>
   vm_view (shm_write c h w, SharedMemory h) = \<lparr>om_mmap = w, om_config = shm_config h\<rparr>"
  by (simp add: shm_write_def)

lemma vm_grow_view:
  assumes "vm_valid m"
  shows "case vm_do_grow os st m d of
      Ok (p, m', st') \<Rightarrow> om_grow os st (vm_view m) d = Ok (p, vm_view m', st') \<and> vm_valid m'
    | Err e \<Rightarrow> om_grow os st (vm_view m) d = Err e
    | Panic \<Rightarrow> om_grow os st (vm_view m) d = Panic"
  using assms
  by (cases m; cases "snd m";
      auto simp: vm_do_grow_def shm_grow_def om_grow_def outcome_simps shm_read_valid shm_view_write
        shm_write_def split: outcome.splits)

interpretation vm: linear_memory os_ok vm_inv vm_pages vm_limit vm_byte vm_store vm_do_grow
proof
  fix os st m d p m' st' i j v
  show "vm_pages m \<le> vm_limit m" if "vm_inv os st m"
    using that om.inv_limit [of os st "vm_view m"] by (simp add: vm_view_defs)
  show "vm_do_grow os st m d \<noteq> Panic" if "os_ok os" "vm_inv os st m"
    using that om.grow_total [of os st "vm_view m"] vm_grow_view [of m os st d] by (auto simp: vm_view_defs)
  show "\<exists>p. vm_do_grow os st m 0 = Ok (p, m, st)" if "vm_inv os st m"
    using that by (cases m; cases "snd m")
      (auto simp: vm_inv_def vm_do_grow_def shm_grow_def om_grow_def wm_grow_cases shm_read_valid
        shm_write_def)
  show "vm_inv os (vm_store st m i v) m" if "vm_inv os st m" "i < vm_pages m * 65536"
    using that om.store_inv [of os st "vm_view m"] by (simp add: vm_view_defs)
  show "vm_byte (vm_store st m i v) m j = (if j = i then v else vm_byte st m j)"
    if "vm_inv os st m" "i < vm_pages m * 65536" "j < vm_pages m * 65536"
    using that om.store_byte [of os st "vm_view m"] by (simp add: vm_view_defs)
  assume h: "os_ok os" "vm_inv os st m" "vm_do_grow os st m d = Ok (p, m', st')"
  then have view: "om_grow os st (vm_view m) d = Ok (p, vm_view m', st')" and v: "vm_valid m'"
    using vm_grow_view [of m os st d] by (auto simp: vm_inv_def)
  have inv: "om_inv os st (vm_view m)" using h(2) by (simp add: vm_inv_def)
  show "vm_inv os st' m'" using om.grow_inv [OF h(1) inv view] v by (simp add: vm_inv_def)
  show "unat p = vm_pages m \<and> vm_pages m' = vm_pages m + unat d \<and> vm_limit m' = vm_limit m"
    using om.grow_pages [OF h(1) inv view] by (simp add: vm_view_defs)
  show "vm_byte st' m' i = vm_byte st m i" if "i < vm_pages m * 65536"
    using om.grow_old [OF h(1) inv view] that by (simp add: vm_view_defs)
  show "vm_byte st' m' i = 0" if "vm_pages m * 65536 \<le> i" "i < vm_pages m' * 65536"
    using om.grow_new [OF h(1) inv view] that by (simp add: vm_view_defs)
qed

section \<open>Memories next to each other\<close>

text \<open>Growing moves a memory at most to addresses that were not mapped.\<close>

lemma om_grow_region:
  assumes "os_ok os" and "om_inv os st m" and "om_grow os st m d = Ok (p, m', st')"
    and "in_range (mm_ptr (wm_alloc (om_mmap m'))) (mm_total_size (wm_alloc (om_mmap m'))) a"
  shows "in_range (mm_ptr (wm_alloc (om_mmap m))) (mm_total_size (wm_alloc (om_mmap m))) a \<or>
    \<not> st_mapped st a"
proof -
  let ?w = "om_mmap m" and ?c = "om_config m"
  have wf: "wm_wf os ?c st ?w" using assms(2) by (simp add: om_inv_def)
  from assms(3) obtain w' where run: "wm_grow os st ?w d ?c = Ok (p, w', st')"
    and m': "om_mmap m' = w'"
    by (auto simp: om_grow_def outcome_simps)
  show ?thesis
  proof (cases "d = 0")
    case True
    with run m' assms(4) show ?thesis by (simp add: wm_grow_cases)
  next
    case False
    let ?q = "wm_size ?w + d"
    from False run have limit: "unat (wm_size ?w) + unat d \<le> page_limit ?c"
      and alloc: "wm_grow_alloc os st ?w ?c d ?q = Ok (wm_alloc w', st')"
      by (auto simp: wm_grow_cases outcome_simps split: if_splits)
    show ?thesis
    proof (cases "wm_capacity ?c ?w < pages_bytes ?q")
      case True
      obtain st1 where "mmap_created st (pages_bytes ?q)
          (pages_bytes ?q + cf_offset_guard_size ?c) (wm_alloc w') st1"
        using wm_grow_alloc_moved [OF assms(1) wf True alloc] by blast
      with assms(4) m' show ?thesis by (auto simp: mmap_created_def)
    next
      case False
      then have "pages_bytes ?q \<le> wm_capacity ?c ?w" by simp
      note eq = wm_grow_alloc_in_place [OF assms(1) wf this within_limit_add(2) [OF limit] \<open>d \<noteq> 0\<close>]
      from alloc have "wm_alloc w' = wm_alloc ?w" by (auto simp: eq outcome_simps)
      with assms(4) m' show ?thesis by simp
    qed
  qed
qed

definition region :: "VMOwnedMemory \<Rightarrow> nat \<Rightarrow> bool" where
  "region m = in_range (mm_ptr (wm_alloc (om_mmap m))) (mm_total_size (wm_alloc (om_mmap m)))"

text \<open>Two memories of the process: not the same cell, and no address in common.\<close>

fun vm_apart :: "cells \<Rightarrow> VMMemory \<Rightarrow> VMMemory \<Rightarrow> bool" where
  "vm_apart c (SharedMemory g) (SharedMemory h) = (shm_mmap g \<noteq> shm_mmap h \<and>
     (\<forall>a. \<not> (region (vm_view (c, SharedMemory g)) a \<and> region (vm_view (c, SharedMemory h)) a)))"
| "vm_apart c m n = (\<forall>a. \<not> (region (vm_view (c, m)) a \<and> region (vm_view (c, n)) a))"

lemma vm_apart_region: "vm_apart c m n \<Longrightarrow> \<not> (region (vm_view (c, m)) a \<and> region (vm_view (c, n)) a)"
  by (cases m; cases n) auto

lemma vm_grow_other_view:
  assumes "vm_valid (c, n)" and "vm_apart c m n"
    and "vm_do_grow os st (c, m) d = Ok (p, (c', m'), st')"
  shows "vm_view (c', n) = vm_view (c, n) \<and> vm_valid (c', n) \<and>
    ((\<forall>a. \<not> (region (vm_view (c', m')) a \<and> region (vm_view (c, n)) a)) \<longrightarrow> vm_apart c' m' n)"
  using assms by (cases m; cases n; auto simp: vm_do_grow_def shm_grow_def outcome_simps shm_write_def)

lemma om_inv_others_kept:
  assumes "om_inv os st n" and "others_kept st st' m"
    and "\<And>a. region n a \<Longrightarrow> \<not> in_range (mm_ptr m) (mm_total_size m) a"
  shows "om_inv os st' n" and "mem_contents om_pages om_byte st' n = mem_contents om_pages om_byte st n"
proof -
  have wf: "wm_wf os (om_config n) st (om_mmap n)" using assms(1) by (simp add: om_inv_def)
  note reg = wm_wf_region(5,7,10) [OF wf]
  have same: "st_heap st' a = st_heap st a \<and> st_mapped st' a \<and> st_rw st' a = st_rw st a"
    if "region n a" for a
    using that assms(2,3) reg(2) by (auto simp: others_kept_def region_def)
  then have inr: "st_heap st' (mm_ptr (wm_alloc (om_mmap n)) + i) = st_heap st (mm_ptr (wm_alloc (om_mmap n)) + i)"
    if "i < wm_capacity (om_config n) (om_mmap n)" for i
    using that reg(1) by (auto simp: region_def in_range_def)
  have rw: "st_rw st' a" if "in_range (mm_ptr (wm_alloc (om_mmap n)))
      (max (pages_bytes (wm_size (om_mmap n))) (mm_accessible_size (wm_alloc (om_mmap n)))) a" for a
    using that same [of a] reg wf by (auto simp: region_def in_range_def wm_wf_def Let_def)
  show "om_inv os st' n"
    using assms(1) same inr rw
    by (auto simp: om_inv_def wm_wf_def wm_region_ok_def wm_zero_tail_def Let_def region_def)
  show "mem_contents om_pages om_byte st' n = mem_contents om_pages om_byte st n"
    using inr reg(3) om_inv_base [OF assms(1)]
    by (auto simp: mem_contents_def om_byte_def om_pages_def pages_bytes_eq)
qed

section \<open>Static memories stay where they are\<close>

definition om_reserved :: "VMOwnedMemory \<Rightarrow> bool" where
  "om_reserved m = (page_limit (om_config m) * 65536 \<le> wm_capacity (om_config m) (om_mmap m))"

lemma om_grow_reserved:
  assumes "os_ok os" and "om_inv os st m" and "om_reserved m"
    and "om_grow os st m d = Ok (p, m', st')"
  shows "om_reserved m' \<and> md_base (om_vmmemory m') = md_base (om_vmmemory m)"
proof -
  let ?w = "om_mmap m" and ?c = "om_config m" and ?q = "wm_size (om_mmap m) + d"
  have wf: "wm_wf os ?c st ?w" using assms(2) by (simp add: om_inv_def)
  from assms(4) obtain w' where run: "wm_grow os st ?w d ?c = Ok (p, w', st')"
    and m': "m' = m\<lparr>om_mmap := w'\<rparr>"
    by (auto simp: om_grow_def outcome_simps)
  have same: "wm_alloc w' = wm_alloc ?w"
  proof (cases "d = 0")
    case True
    with run show ?thesis by (simp add: wm_grow_cases)
  next
    case False
    from False run have limit: "unat (wm_size ?w) + unat d \<le> page_limit ?c"
      and alloc: "wm_grow_alloc os st ?w ?c d ?q = Ok (wm_alloc w', st')"
      by (auto simp: wm_grow_cases outcome_simps split: if_splits)
    have fits: "pages_bytes ?q \<le> wm_capacity ?c ?w"
      using limit assms(3) by (simp add: om_reserved_def pages_bytes_eq within_limit_add(1))
    from alloc show ?thesis
      by (auto simp: wm_grow_alloc_in_place [OF assms(1) wf fits within_limit_add(2) [OF limit] False]
          outcome_simps)
  qed
  moreover have "om_inv os st' m'" using om_grow_okD(1) [OF assms(1,2,4)] .
  ultimately show ?thesis
    using assms(3) om_inv_base [OF assms(2)] om_inv_base [of os st' m']
    by (simp add: om_reserved_def m' wm_capacity_def)
qed

lemma mem_run_reserved:
  assumes "os_ok os" and "om_inv os st m" and "om_reserved m"
    and "mem_run (om_grow os) om_pages om_store st m ops = Ok (m', st')"
  shows "md_base (om_vmmemory m') = md_base (om_vmmemory m)"
  using assms(2-4)
proof (induction ops arbitrary: st m)
  case (Cons op ops)
  show ?case
  proof (cases op)
    case (Grow d)
    show ?thesis
    proof (cases "om_grow os st m d")
      case (Ok r)
      then obtain p m1 st1 where run: "om_grow os st m d = Ok (p, m1, st1)" by (cases r) auto
      have "md_base (om_vmmemory m') = md_base (om_vmmemory m1)"
        using Cons.prems(3) run om_grow_okD(1) [OF assms(1) Cons.prems(1) run]
          om_grow_reserved [OF assms(1) Cons.prems(1,2) run]
        by (intro Cons.IH [of st1 m1]) (auto simp: Grow)
      then show ?thesis using om_grow_reserved [OF assms(1) Cons.prems(1,2) run] by simp
    qed (use Cons Grow in auto)
  next
    case (Store i v)
    with Cons.prems Cons.IH [OF om_store_inv [OF Cons.prems(1)] Cons.prems(2)] show ?thesis
      by (cases "i < om_pages m * 65536") (auto intro: Cons.IH)
  qed
qed simp

lemma mmap_created_kept:
  assumes "mmap_created st acc n m st'" and "st_mapped st a"
  shows "st_heap st' a = st_heap st a \<and> st_mapped st' a \<and> st_rw st' a = st_rw st a"
proof -
  have "\<not> in_range (mm_ptr m) n a" using assms by (auto simp: mmap_created_def)
  with assms show ?thesis by (simp add: mmap_created_def)
qed

lemma om_new_internal_created:
  assumes "os_ok os" and "type_ok memory" and "style_fits memory style" and "guard_ok os style"
    and "om_new_internal os st memory style loc None Private = Ok (m, st')"
  shows "\<exists>alloc. m = \<lparr>om_mmap = fresh_mmap memory loc alloc, om_config = config_of memory style\<rparr> \<and>
    mmap_created st (pages_bytes (mt_minimum memory))
      (pages_bytes (style_pages memory style) + unat (style_offset_guard_size style)) alloc st'"
    and "om_inv os st' m"
proof -
  let ?r = "mmap_accessible_reserved os st (pages_bytes (mt_minimum memory))
      (pages_bytes (style_pages memory style) + unat (style_offset_guard_size style)) None Private"
  obtain alloc where res: "?r = Ok (alloc, st')"
    and m: "m = \<lparr>om_mmap = fresh_mmap memory loc alloc, om_config = config_of memory style\<rparr>"
    using assms(5) by (auto simp: om_new_internal_eq [OF assms(1-4)] outcome_simps)
  note c = accessible_reserved_created [OF assms(1) res]
  show "om_inv os st' m" using fresh_memory_wf [OF assms(1-4) c] by (simp add: om_inv_def m)
  show "\<exists>alloc. m = \<lparr>om_mmap = fresh_mmap memory loc alloc, om_config = config_of memory style\<rparr> \<and>
    mmap_created st (pages_bytes (mt_minimum memory))
      (pages_bytes (style_pages memory style) + unat (style_offset_guard_size style)) alloc st'"
    using c m by blast
qed

section \<open>Properties\<close>

text \<open>
  C1: a memory of either kind, owned or shared, implements the memory of the WebAssembly
  specification. Whatever sequence of stores and growth requests a module makes, the run ends
  without a panic in a memory that satisfies the invariant again, and the bytes that the base
  address and length in the definition select are those of an abstract memory (a list of
  bytes) that takes the same steps, refusing to grow only where the specification allows it.
\<close>

theorem vm_memory_refines_bytes:
  assumes "os_ok os" and "vm_inv os st m"
  shows "\<exists>m' st'. mem_run (vm_do_grow os) vm_pages vm_store st m ops = Ok (m', st') \<and>
    vm_inv os st' m' \<and>
    abs_run (vm_limit m) (mem_contents vm_pages vm_byte st m) ops
      (mem_contents vm_pages vm_byte st' m')"
  using vm.mem_run_refines [OF assms] by blast

definition example_cells :: cells where
  "example_cells = \<lparr>ce_mmaps = [om_mmap example_memory], ce_conditions = 1\<rparr>"

definition example_shared :: VMMemory where
  "example_shared = SharedMemory \<lparr>shm_mmap = 0, shm_config = om_config example_memory,
     shm_conditions = 0\<rparr>"

lemma example_shared_view: "vm_view (example_cells, example_shared) = example_memory"
  by (simp add: example_cells_def example_shared_def)

lemma example_shared_inv: "vm_inv example_os example_memory_state (example_cells, example_shared)"
  using example_memory_inv
  by (simp add: vm_inv_def example_shared_view) (simp add: example_cells_def example_shared_def)

theorem vm_memory_refines_bytes_witness:
  "\<exists>m' st'. mem_run (vm_do_grow example_os) vm_pages vm_store example_memory_state
      (example_cells, example_shared)
      [Store 5 42, Grow 1, Grow 9, Store 70000 1, Store 900000 3] = Ok (m', st') \<and>
    abs_run 3 (mem_contents om_pages om_byte example_memory_state example_memory)
      [Store 5 42, Grow 1, Grow 9, Store 70000 1, Store 900000 3]
      (mem_contents vm_pages vm_byte st' m')"
proof -
  have "vm_limit (example_cells, example_shared) = 3"
    by (simp add: vm_limit_def example_shared_view om_limit_def page_limit_def example_memory_def
        config_of_def example_type_def)
  moreover have "mem_contents vm_pages vm_byte example_memory_state (example_cells, example_shared) =
      mem_contents om_pages om_byte example_memory_state example_memory"
    by (simp add: mem_contents_def vm_pages_def vm_byte_def example_shared_view)
  ultimately show ?thesis
    using vm_memory_refines_bytes [OF os_ok_example example_shared_inv] by metis
qed

text \<open>
  C2: memories do not interfere. Growing one memory, even when it moves, leaves every other
  memory of the process with the same bytes and a valid invariant, and the two still share no
  address afterwards.
\<close>

theorem memory_isolation:
  assumes "os_ok os" and "vm_inv os st (c, m)" and "vm_inv os st (c, n)" and "vm_apart c m n"
    and "vm_grow os st c m d = Ok (p, (c', m'), st')"
  shows "vm_inv os st' (c', m') \<and> vm_inv os st' (c', n) \<and>
    mem_contents vm_pages vm_byte st' (c', n) = mem_contents vm_pages vm_byte st (c, n) \<and>
    vm_apart c' m' n"
proof -
  have run: "vm_do_grow os st (c, m) d = Ok (p, (c', m'), st')"
    using assms(5) by (simp add: vm_do_grow_def)
  have valid: "vm_valid (c, m)" "vm_valid (c, n)" and inv: "om_inv os st (vm_view (c, m))"
    "om_inv os st (vm_view (c, n))" using assms(2,3) by (simp_all add: vm_inv_def)
  note other = vm_grow_other_view [OF valid(2) assms(4) run]
  have view: "om_grow os st (vm_view (c, m)) d = Ok (p, vm_view (c', m'), st')"
    using vm_grow_view [OF valid(1), of os st d] by (simp add: run)
  have kept: "others_kept st st' (wm_alloc (om_mmap (vm_view (c, m))))"
    using om_grow_okD(5) [OF assms(1) inv(1) view] .
  note n = om_inv_others_kept [OF inv(2) kept]
  have apart: "region (vm_view (c, n)) a \<Longrightarrow> \<not> region (vm_view (c, m)) a" for a
    using vm_apart_region [OF assms(4)] by blast
  have "region (vm_view (c, n)) a \<Longrightarrow> st_mapped st a" for a
    using inv(2) wm_wf_region(7) by (auto simp: om_inv_def region_def)
  then have "\<not> (region (vm_view (c', m')) a \<and> region (vm_view (c, n)) a)" for a
    using om_grow_region [OF assms(1) inv(1) view] apart by (auto simp: region_def)
  then have "vm_apart c' m' n" using other by blast
  moreover have "vm_inv os st' (c', m')"
    using vm.grow_inv [OF assms(1,2) run] .
  ultimately show ?thesis
    using n apart other by (simp add: vm_inv_def mem_contents_def vm_pages_def vm_byte_def region_def)
qed

text \<open>A second memory, created after the first, and growing it.\<close>

definition example_second :: VMOwnedMemory where
  "example_second = \<lparr>om_mmap = fresh_mmap example_type None (example_alloc\<lparr>mm_ptr := 1179648\<rparr>),
     om_config = config_of example_type example_style\<rparr>"

definition example_second_state :: os_state where
  "example_second_state = (case mmap_accessible_reserved example_os example_memory_state 65536 131072
     None Private of Ok (_, st) \<Rightarrow> st | _ \<Rightarrow> example_state)"

lemmas example_eval = mmap_accessible_reserved_def make_accessible_eq [OF os_ok_example]
  example_mmap_def example_state_def example_type_def example_style_def pages_bytes_eq
  example_memory_state_def example_second_state_def example_alloc_def fresh_mmap_def config_of_def
  page_limit_def usize_sub_def usize_checked_add_def

lemma example_second_new:
  "om_new example_os example_memory_state example_type example_style =
     Ok (example_second, example_second_state)"
proof -
  have ps: "page_size_ok example_os" using os_ok_example by (simp add: os_ok_def)
  have fresh: "\<forall>a \<in> {1179648..<1310720}. \<not> in_range 1048576 131072 a"
    by (simp add: in_range_def)
  show ?thesis
    unfolding om_new_def om_new_internal_eq [OF os_ok_example example_ok]
    using example_reserved fresh
    by (simp add: example_eval page_offset_dvd [OF ps] example_second_def)
qed

lemma example_second_grow:
  "\<exists>n st. om_grow example_os example_second_state example_second 1 = Ok (1, n, st)"
proof -
  have ps: "page_size_ok example_os" using os_ok_example by (simp add: os_ok_def)
  have fresh: "\<forall>a \<in> {1179648..<1310720}. \<not> in_range 1048576 131072 a"
    "\<forall>a \<in> {1310720..<1507328}. \<not> in_range 1048576 131072 a \<and> \<not> in_range 1179648 131072 a"
    by (simp_all add: in_range_def)
  show ?thesis
    using example_reserved fresh
    by (simp add: om_grow_def wm_grow_cases wm_grow_alloc_def example_second_def example_eval
        page_offset_dvd [OF ps] slice_prefix_def mmap_as_slice_def copy_from_slice_def mmap_drop_def)
      (simp add: readable_def in_range_def)
qed

lemma example_second_apart:
  "vm_inv example_os example_second_state (example_cells, OwnedMemory example_second)"
  "vm_inv example_os example_second_state (example_cells, example_shared)"
  "vm_apart example_cells (OwnedMemory example_second) example_shared"
proof -
  note made = om_new_internal_created [OF os_ok_example example_ok example_second_new [unfolded om_new_def]]
  show "vm_inv example_os example_second_state (example_cells, OwnedMemory example_second)"
    using made(2) by (simp add: vm_inv_def)
  have "om_inv example_os example_second_state example_memory"
    by (rule om_inv_kept [OF example_memory_inv]) (use made(1) mmap_created_kept in blast)
  then show "vm_inv example_os example_second_state (example_cells, example_shared)"
    using example_shared_inv by (simp add: vm_inv_def example_shared_view)
  show "vm_apart example_cells (OwnedMemory example_second) example_shared"
    by (simp add: example_shared_def example_cells_def region_def example_second_def
        example_memory_def fresh_mmap_def example_alloc_def in_range_def)
qed

theorem memory_isolation_witness:
  "\<exists>n st. vm_grow example_os example_second_state example_cells (OwnedMemory example_second) 1 =
       Ok (1, (example_cells, OwnedMemory n), st) \<and>
     mem_contents vm_pages vm_byte st (example_cells, example_shared) =
       mem_contents vm_pages vm_byte example_second_state (example_cells, example_shared)"
proof -
  obtain n st where "om_grow example_os example_second_state example_second 1 = Ok (1, n, st)"
    using example_second_grow by blast
  then have run: "vm_grow example_os example_second_state example_cells (OwnedMemory example_second) 1 =
       Ok (1, (example_cells, OwnedMemory n), st)" by simp
  with memory_isolation [OF os_ok_example example_second_apart run] show ?thesis by blast
qed

text \<open>
  C6: a memory created in the static style never moves. However a module stores and grows, the
  base address in its definition, which other threads of a shared memory keep using, is the one
  it was created with.
\<close>

theorem memory_static_never_moves:
  assumes "os_ok os" and "style_fits memory (Static bound g)" and "guard_ok os (Static bound g)"
    and "om_new_internal os st memory (Static bound g) loc None Private = Ok (m, st1)"
    and "mem_run (om_grow os) om_pages om_store st1 m ops = Ok (m', st')"
  shows "md_base (om_vmmemory m') = md_base (om_vmmemory m)"
proof -
  let ?s = "Static bound g" and ?c = "config_of memory (Static bound g)"
  have ty: "type_ok memory"
    using om_new_internal_rejects [of memory os st ?s loc None Private] assms(4) by auto
  note made = om_new_internal_created [OF assms(1) ty assms(2-4)]
  obtain alloc where m: "m = \<lparr>om_mmap = fresh_mmap memory loc alloc, om_config = ?c\<rparr>"
    and c: "mmap_created st (pages_bytes (mt_minimum memory)) (pages_bytes bound + unat g) alloc st1"
    using made(1) by auto
  have "page_limit ?c \<le> unat bound"
    using assms(2) by (auto simp: style_fits_def page_limit_def config_of_def word_le_nat_alt
        split: option.splits)
  then have "om_reserved m"
    using c by (simp add: om_reserved_def m wm_capacity_def config_of_def fresh_mmap_def Let_def
        mmap_created_def pages_bytes_eq)
  then show ?thesis by (rule mem_run_reserved [OF assms(1) made(2) _ assms(5)])
qed

theorem memory_static_never_moves_witness:
  "\<exists>m st1 m' st'. om_new_internal example_os example_state example_type (Static 4 65536) None None
      Private = Ok (m, st1) \<and>
    mem_run (om_grow example_os) om_pages om_store st1 m [Grow 1, Store 70000 1] = Ok (m', st') \<and>
    md_base (om_vmmemory m') = md_base (om_vmmemory m)"
proof -
  have fits: "style_fits example_type (Static 4 65536)" "guard_ok example_os (Static 4 65536)"
    by (simp_all add: style_fits_def example_type_def guard_ok_def word_le_nat_alt)
  have ps: "page_size_ok example_os" using os_ok_example by (simp add: os_ok_def)
  obtain m st1 where new: "om_new_internal example_os example_state example_type (Static 4 65536)
      None None Private = Ok (m, st1)"
    unfolding om_new_internal_eq [OF os_ok_example example_ok(1) fits]
    by (simp add: mmap_accessible_reserved_def page_offset_dvd [OF ps] make_accessible_eq
        [OF os_ok_example] example_mmap_def example_state_def example_type_def pages_bytes_eq)
  have "om_inv example_os st1 m"
    using om_new_internal_created(2) [OF os_ok_example example_ok(1) fits new] .
  then obtain m' st' where run: "mem_run (om_grow example_os) om_pages om_store st1 m
      [Grow 1, Store 70000 1] = Ok (m', st')"
    using om.mem_run_refines [OF os_ok_example] by blast
  show ?thesis
    using memory_static_never_moves [OF os_ok_example fits new run] new run by blast
qed

end
