(* ===== verification/Memory_Ops.thy ===== *)
theory Memory_Ops
  imports Shared_Memory
begin

text \<open>
  The bulk operations on the bytes of a linear memory, \<open>lib/vm/src/vmcontext.rs\<close>:
  \<open>memory_copy\<close>, \<open>memory_fill\<close> and the two checks that precede an atomic wait. They work on the
  base address and length that compiled code uses; the properties relate them to the contents
  of a memory that satisfies the invariant of \<open>Linear_Memory\<close>.
\<close>

section \<open>Operations\<close>

text \<open>\<open>n.checked_add(len)\<close> is absent or exceeds the length of the memory.\<close>

definition beyond :: "u32 \<Rightarrow> u32 \<Rightarrow> usize \<Rightarrow> bool" where
  "beyond start len current_length =
     (case checked_add start len of None \<Rightarrow> True | Some n \<Rightarrow> current_length < unat n)"

text \<open>
  Accesses through raw pointers are guarded by \<open>readable\<close>: touching an address that is not
  accessible faults, which the model shows as a panic.
\<close>

definition memory_copy ::
  "os_state \<Rightarrow> VMMemoryDefinition \<Rightarrow> u32 \<Rightarrow> u32 \<Rightarrow> u32 \<Rightarrow> (os_state, TrapCode) outcome" where
  "memory_copy st mem dst src len =
     (if beyond src len (md_current_length mem) \<or> beyond dst len (md_current_length mem)
      then Err HeapAccessOutOfBounds
      else
        let d = md_base mem + unat dst; s = md_base mem + unat src in
        bind_ok (assert_that (readable st s (unat len) \<and> readable st d (unat len))) (\<lambda>_.
          Ok (st\<lparr>st_heap := heap_move (st_heap st) s d (unat len)\<rparr>)))"

definition memory_fill ::
  "os_state \<Rightarrow> VMMemoryDefinition \<Rightarrow> u32 \<Rightarrow> u32 \<Rightarrow> u32 \<Rightarrow> (os_state, TrapCode) outcome" where
  "memory_fill st mem dst val len =
     (if beyond dst len (md_current_length mem) then Err HeapAccessOutOfBounds
      else
        let d = md_base mem + unat dst; v = ucast val :: u8 in
        bind_ok (assert_that (readable st d (unat len))) (\<lambda>_.
          Ok (st\<lparr>st_heap := heap_fill (st_heap st) d v (unat len)\<rparr>)))"

text \<open>A little-endian value of as many bytes as the list has.\<close>

fun le_word :: "u8 list \<Rightarrow> 'a::len word" where
  "le_word [] = 0"
| "le_word (b # bs) = ucast b + 256 * le_word bs"

definition memory32_atomic_check32 ::
  "os_state \<Rightarrow> VMMemoryDefinition \<Rightarrow> u32 \<Rightarrow> u32 \<Rightarrow> (u32, TrapCode) outcome" where
  "memory32_atomic_check32 st mem dst val =
     (if md_current_length mem < unat dst then Err HeapAccessOutOfBounds
      else if and (unat dst) 3 \<noteq> 0 then Err UnalignedAtomic
      else
        let d = md_base mem + unat dst in
        bind_ok (assert_that (readable st d 4)) (\<lambda>_.
          Ok (if le_word (heap_read (st_heap st) d 4) = val then 0 else 1)))"

definition memory32_atomic_check64 ::
  "os_state \<Rightarrow> VMMemoryDefinition \<Rightarrow> u32 \<Rightarrow> u64 \<Rightarrow> (u32, TrapCode) outcome" where
  "memory32_atomic_check64 st mem dst val =
     (if md_current_length mem < unat dst then Err HeapAccessOutOfBounds
      else if and (unat dst) 7 \<noteq> 0 then Err UnalignedAtomic
      else
        let d = md_base mem + unat dst in
        bind_ok (assert_that (readable st d 8)) (\<lambda>_.
          Ok (if le_word (heap_read (st_heap st) d 8) = val then 0 else 1)))"

section \<open>Facts\<close>

lemma le_word_zeros: "le_word (replicate n 0) = 0"
  by (induction n) simp_all

lemma beyond_iff: "beyond start len n \<longleftrightarrow> \<not> (unat start + unat len < 2 ^ 32 \<and> unat start + unat len \<le> n)"
proof (cases "checked_add start len")
  case None
  with checked_add_None [of start len] show ?thesis by (simp add: beyond_def)
next
  case (Some m)
  then have "unat m = unat start + unat len" by (simp add: checked_add_Some)
  with Some unat_u32_less [of m] show ?thesis by (auto simp: beyond_def simp del: unat_u32_less)
qed

lemma om_definition:
  assumes "om_inv os st m"
  shows "md_base (om_vmmemory m) = mm_ptr (wm_alloc (om_mmap m))"
    and "md_current_length (om_vmmemory m) = om_pages m * 65536" and "om_pages m \<le> 65536"
    and "start + len \<le> om_pages m * 65536 \<Longrightarrow>
      readable st (md_base (om_vmmemory m) + start) len"
    and "mem_contents om_pages om_byte st m =
      heap_read (st_heap st) (md_base (om_vmmemory m)) (om_pages m * 65536)"
proof -
  have wf: "wm_wf os (om_config m) st (om_mmap m)" using assms by (simp add: om_inv_def)
  show base: "md_base (om_vmmemory m) = mm_ptr (wm_alloc (om_mmap m))" by (rule om_inv_base [OF assms])
  show "md_current_length (om_vmmemory m) = om_pages m * 65536"
    using wf by (simp add: wm_wf_def Let_def om_vmmemory_def wm_get_vm_memory_definition_def
        om_pages_def pages_bytes_eq)
  have "unat (wm_size (om_mmap m)) \<le> page_limit (om_config m)" using wf by (simp add: wm_wf_def Let_def)
  then show "om_pages m \<le> 65536" using page_limit_le [of "om_config m"] by (simp add: om_pages_def)
  show "readable st (md_base (om_vmmemory m) + start) len" if "start + len \<le> om_pages m * 65536"
    using that wf base
    by (auto simp: readable_def wm_wf_def Let_def in_range_def om_pages_def pages_bytes_eq)
  show "mem_contents om_pages om_byte st m =
      heap_read (st_heap st) (md_base (om_vmmemory m)) (om_pages m * 65536)"
    by (simp add: mem_contents_def om_byte_def heap_read_def)
qed

text \<open>Writing inside the current length keeps the invariant.\<close>

lemma om_write_inv:
  assumes "om_inv os st m" and "start + length bs \<le> om_pages m * 65536"
  defines "st' \<equiv> st\<lparr>st_heap := heap_write (st_heap st) (md_base (om_vmmemory m) + start) bs\<rparr>"
  shows "om_inv os st' m"
    and "mem_contents om_pages om_byte st' m =
      list_blit (mem_contents om_pages om_byte st m) start bs 0 (length bs)"
proof -
  have "pages_bytes (wm_size (om_mmap m)) = om_pages m * 65536"
    by (simp add: om_pages_def pages_bytes_eq)
  then show inv: "om_inv os st' m"
    using assms(1,2) om_inv_base [OF assms(1)]
    by (auto simp: om_inv_def wm_wf_def wm_region_ok_def wm_zero_tail_def Let_def st'_def
        heap_write_def)
  show "mem_contents om_pages om_byte st' m =
      list_blit (mem_contents om_pages om_byte st m) start bs 0 (length bs)"
    unfolding om_definition(5) [OF inv] om_definition(5) [OF assms(1)]
    using heap_read_write_at [OF assms(2)] by (simp add: st'_def)
qed

lemma heap_fill_write: "heap_fill h p v n = heap_write h p (replicate n v)"
  by (rule ext) (auto simp: heap_fill_def heap_write_def)

text \<open>What an operation leaves alone: every address outside the memory's current bytes.\<close>

definition outside_kept :: "os_state \<Rightarrow> os_state \<Rightarrow> VMMemoryDefinition \<Rightarrow> bool" where
  "outside_kept st st' mem = (\<exists>h. st' = st\<lparr>st_heap := h\<rparr> \<and>
     (\<forall>a. \<not> in_range (md_base mem) (md_current_length mem) a \<longrightarrow> h a = st_heap st a))"

lemma outside_kept_write:
  "start + length bs \<le> md_current_length mem \<Longrightarrow>
   outside_kept st (st\<lparr>st_heap := heap_write (st_heap st) (md_base mem + start) bs\<rparr>) mem"
  by (auto simp: outside_kept_def in_range_def heap_write_def)

text \<open>The two operations on a memory, case by case.\<close>

definition in_reach :: "VMOwnedMemory \<Rightarrow> u32 \<Rightarrow> u32 \<Rightarrow> bool" where
  "in_reach m start len =
     (unat start + unat len < 2 ^ 32 \<and> unat start + unat len \<le> om_pages m * 65536)"

lemma memory_copy_eq:
  assumes "om_inv os st m"
  shows "memory_copy st (om_vmmemory m) dst src len =
    (if in_reach m src len \<and> in_reach m dst len
     then Ok (st\<lparr>st_heap := heap_write (st_heap st) (md_base (om_vmmemory m) + unat dst)
       (take (unat len) (drop (unat src) (mem_contents om_pages om_byte st m)))\<rparr>)
     else Err HeapAccessOutOfBounds)"
proof -
  note d = om_definition [OF assms]
  have "heap_move (st_heap st) (md_base (om_vmmemory m) + unat src)
      (md_base (om_vmmemory m) + unat dst) (unat len) =
    heap_write (st_heap st) (md_base (om_vmmemory m) + unat dst)
      (take (unat len) (drop (unat src) (mem_contents om_pages om_byte st m)))"
    if "unat src + unat len \<le> om_pages m * 65536"
    using heap_read_part [OF that] by (simp add: heap_move_write d(5))
  then show ?thesis
    using d(4) [of "unat src" "unat len"] d(4) [of "unat dst" "unat len"]
    by (auto simp: memory_copy_def beyond_iff d(2) in_reach_def Let_def)
qed

lemma memory_fill_eq:
  assumes "om_inv os st m"
  shows "memory_fill st (om_vmmemory m) dst val len =
    (if in_reach m dst len
     then Ok (st\<lparr>st_heap := heap_write (st_heap st) (md_base (om_vmmemory m) + unat dst)
       (replicate (unat len) (ucast val))\<rparr>)
     else Err HeapAccessOutOfBounds)"
  using om_definition(4) [OF assms, of "unat dst" "unat len"]
  by (auto simp: memory_fill_def beyond_iff om_definition(2) [OF assms] in_reach_def Let_def
      heap_fill_write)



text \<open>In a memory of 65536 pages the last byte is out of reach of \<open>memory.fill\<close>.\<close>

lemma memory_fill_last_byte:
  assumes "om_inv os st m" and "om_pages m = 65536"
  shows "memory_fill st (om_vmmemory m) 4294967295 val 1 = Err HeapAccessOutOfBounds"
  by (simp add: memory_fill_eq [OF assms(1)] in_reach_def)

lemma and_low_bits: "and n 3 = n mod 4" "and n 7 = n mod 8" for n :: nat
  using take_bit_eq_mask [of 2 n] take_bit_eq_mask [of 3 n]
  by (simp_all add: take_bit_eq_mod mask_eq_exp_minus_1)

text \<open>
  The check before an atomic wait. Below the end of the memory it traps exactly on unaligned
  addresses and otherwise compares the value stored there. An address beyond the end traps, but
  the address just at the end, where no byte of the memory is, is not rejected: the check reads
  the bytes behind the memory, or faults.
\<close>

lemma memory_atomic_check_bounds:
  assumes "om_inv os st m"
  defines "n \<equiv> om_pages m * 65536" and "bytes \<equiv> mem_contents om_pages om_byte st m"
  shows "(unat dst \<noteq> n \<longrightarrow>
      memory32_atomic_check32 st (om_vmmemory m) dst val =
        (if n < unat dst then Err HeapAccessOutOfBounds
         else if unat dst mod 4 \<noteq> 0 then Err UnalignedAtomic
         else Ok (if le_word (take 4 (drop (unat dst) bytes)) = val then 0 else 1)) \<and>
      memory32_atomic_check64 st (om_vmmemory m) dst wide =
        (if n < unat dst then Err HeapAccessOutOfBounds
         else if unat dst mod 8 \<noteq> 0 then Err UnalignedAtomic
         else Ok (if le_word (take 8 (drop (unat dst) bytes)) = wide then 0 else 1))) \<and>
    (unat dst = n \<longrightarrow>
      \<not> (\<exists>e. memory32_atomic_check32 st (om_vmmemory m) dst val = Err e) \<and>
      \<not> (\<exists>e. memory32_atomic_check64 st (om_vmmemory m) dst wide = Err e))"
proof -
  note d = om_definition [OF assms(1)]
  have inside: "unat dst + 4 \<le> n" if "unat dst < n" "unat dst mod 4 = 0"
    using that by (auto simp: n_def elim!: dvdE simp flip: dvd_eq_mod_eq_0)
  have inside8: "unat dst + 8 \<le> n" if "unat dst < n" "unat dst mod 8 = 0"
    using that by (auto simp: n_def elim!: dvdE simp flip: dvd_eq_mod_eq_0)
  have rd: "heap_read (st_heap st) (md_base (om_vmmemory m) + unat dst) k =
      take k (drop (unat dst) bytes)" if "unat dst + k \<le> n" for k
    using heap_read_part [OF that] by (simp add: bytes_def d(5) n_def)
  have "unat dst mod 4 = 0 \<and> unat dst mod 8 = 0" if "unat dst = n"
    unfolding that n_def by simp
  then show ?thesis
    using inside inside8 rd [of 4] rd [of 8] d(4) [of "unat dst" 4] d(4) [of "unat dst" 8]
    by (auto simp: memory32_atomic_check32_def memory32_atomic_check64_def and_low_bits d(2) Let_def
        assert_that_def simp flip: n_def)
qed

end
