(* ===== verification/Table.thy ===== *)
theory Table
  imports Wasm_Types Object_Store
begin

text \<open>
  Tables (\<open>lib/vm/src/table.rs\<close>): the vector of raw references behind a WebAssembly table,
  the definition that compiled code reads, and creating, growing, reading, writing and copying.
  A table and the definition of its vector stay in step (\<open>table_wf\<close>); copying is a block
  move in both directions of overlap; growing appends; and a grown table cannot be copied for
  copy-on-write.
\<close>

section \<open>Elements\<close>

text \<open>
  A reference is the address it points to. The raw element that the table stores is a union of
  the two kinds of optional reference, both represented by the address, with 0 for \<open>None\<close>.
\<close>

datatype TableElement = ElExternRef "usize option" | ElFuncRef "usize option"

type_synonym RawTableElement = usize

fun raw_ref :: "usize option \<Rightarrow> RawTableElement" where
  "raw_ref None = 0"
| "raw_ref (Some p) = p"

definition ref_of_raw :: "RawTableElement \<Rightarrow> usize option" where
  "ref_of_raw r = (if r = 0 then None else Some r)"

fun raw_from_element :: "TableElement \<Rightarrow> RawTableElement" where
  "raw_from_element (ElExternRef r) = raw_ref r"
| "raw_from_element (ElFuncRef r) = raw_ref r"

definition raw_default :: RawTableElement where
  "raw_default = raw_ref None"

definition element_default :: TableElement where
  "element_default = ElFuncRef None"

definition TABLE_MAX_SIZE :: usize where
  "TABLE_MAX_SIZE = 128 * 1048576"

section \<open>Tables\<close>

record VMTableDefinition =
  td_base :: usize
  td_current_elements :: u32

text \<open>The vector of elements is its buffer address and its contents.\<close>

record VMTable =
  vt_buffer :: usize
  vt_vec :: "RawTableElement list"
  vt_maximum :: "u32 option"
  vt_table :: TableType
  vt_style :: TableStyle
  vt_definition :: "VMTableDefinition MaybeInstanceOwned"

fun type_debug :: "wtype \<Rightarrow> string" where
  "type_debug I32 = ''I32''"
| "type_debug I64 = ''I64''"
| "type_debug F32 = ''F32''"
| "type_debug F64 = ''F64''"
| "type_debug V128 = ''V128''"
| "type_debug ExternRef = ''ExternRef''"
| "type_debug FuncRef = ''FuncRef''"
| "type_debug ExceptionRef = ''ExceptionRef''"

definition is_ref_type :: "wtype \<Rightarrow> bool" where
  "is_ref_type ty = (ty = FuncRef \<or> ty = ExternRef)"

text \<open>\<open>alloc n\<close> is the address that the allocator gives to a vector of \<open>n\<close> elements.\<close>

definition table_new_inner ::
  "(nat \<Rightarrow> usize) \<Rightarrow> TableType \<Rightarrow> TableStyle \<Rightarrow> usize option \<Rightarrow> (VMTable, string) outcome" where
  "table_new_inner alloc table style vm_table_location =
     (if \<not> is_ref_type (tt_ty table)
      then Err (''tables of types other than funcref or externref ('' @ type_debug (tt_ty table) @ '')'')
      else if (case tt_maximum table of Some m \<Rightarrow> m < tt_minimum table | None \<Rightarrow> False)
      then Err (''Table minimum ('' @ decimal (unat (tt_minimum table)) @ '') is larger than maximum ('' @
             decimal (unat (the (tt_maximum table))) @ '')!'')
      else if TABLE_MAX_SIZE < unat (tt_minimum table)
      then Err (''Table minimum ('' @ decimal (unat (tt_minimum table)) @
             '') is larger than maximum allowed size ('' @ decimal TABLE_MAX_SIZE @ '')!'')
      else if (case tt_maximum table of Some m \<Rightarrow> TABLE_MAX_SIZE < unat m | None \<Rightarrow> False)
      then Err (''Table maximum ('' @ decimal (unat (the (tt_maximum table))) @
             '') is larger than maximum allowed size ('' @ decimal TABLE_MAX_SIZE @ '')!'')
      else
        let table_minimum = unat (tt_minimum table);
            base = alloc table_minimum;
            td = \<lparr>td_base = base, td_current_elements = as_u32 table_minimum\<rparr>
        in Ok \<lparr>vt_buffer = base, vt_vec = replicate table_minimum raw_default,
             vt_maximum = tt_maximum table, vt_table = table, vt_style = style,
             vt_definition = (case vm_table_location of
               Some table_loc \<Rightarrow> Instance table_loc td | None \<Rightarrow> Host td)\<rparr>)"

definition table_new ::
  "(nat \<Rightarrow> usize) \<Rightarrow> TableType \<Rightarrow> TableStyle \<Rightarrow> (VMTable, string) outcome" where
  "table_new alloc table style = table_new_inner alloc table style None"

definition table_from_definition ::
  "(nat \<Rightarrow> usize) \<Rightarrow> TableType \<Rightarrow> TableStyle \<Rightarrow> usize \<Rightarrow> (VMTable, string) outcome" where
  "table_from_definition alloc table style loc = table_new_inner alloc table style (Some loc)"

definition table_get_runtime_size :: "VMTable \<Rightarrow> u32" where
  "table_get_runtime_size t = as_u32 (length (vt_vec t))"

definition get_vm_table_definition :: "VMTable \<Rightarrow> VMTableDefinition" where
  "get_vm_table_definition t = owned_value (vt_definition t)"

definition table_size :: "VMTable \<Rightarrow> u32" where
  "table_size t = td_current_elements (get_vm_table_definition t)"

definition table_grow ::
  "(nat \<Rightarrow> usize) \<Rightarrow> VMTable \<Rightarrow> u32 \<Rightarrow> TableElement \<Rightarrow> (u32 \<times> VMTable) option" where
  "table_grow alloc t delta init_value =
     (let sz = table_size t in
      case checked_add sz delta of
        None \<Rightarrow> None
      | Some new_len \<Rightarrow>
          if (case vt_maximum t of Some m \<Rightarrow> m < new_len | None \<Rightarrow> False) then None
          else if new_len = sz then Some (sz, t)
          else
            let vec = vec_resize (vt_vec t) (unat new_len) (raw_from_element init_value);
                base = alloc (length vec)
            in Some (sz, t\<lparr>vt_vec := vec, vt_buffer := base,
                 vt_definition := owned_update (\<lambda>td. td\<lparr>td_current_elements := new_len,
                   td_base := base\<rparr>) (vt_definition t)\<rparr>))"

text \<open>An element type other than the two reference types makes \<open>get\<close> panic (\<open>todo!\<close>).\<close>

definition table_get :: "VMTable \<Rightarrow> u32 \<Rightarrow> (TableElement option, 'e) outcome" where
  "table_get t index =
     (case nth_opt (vt_vec t) (unat index) of
        None \<Rightarrow> Ok None
      | Some raw_data \<Rightarrow>
          (case tt_ty (vt_table t) of
             ExternRef \<Rightarrow> Ok (Some (ElExternRef (ref_of_raw raw_data)))
           | FuncRef \<Rightarrow> Ok (Some (ElFuncRef (ref_of_raw raw_data)))
           | _ \<Rightarrow> Panic))"

fun element_matches :: "wtype \<Rightarrow> TableElement \<Rightarrow> bool" where
  "element_matches ty (ElExternRef _) = (ty = ExternRef)"
| "element_matches ty (ElFuncRef _) = (ty = FuncRef)"

definition table_set :: "VMTable \<Rightarrow> u32 \<Rightarrow> TableElement \<Rightarrow> (VMTable, TrapCode) outcome" where
  "table_set t index reference =
     (if unat index < length (vt_vec t) then
        (if element_matches (tt_ty (vt_table t)) reference
         then Ok (t\<lparr>vt_vec := (vt_vec t)[unat index := raw_from_element reference]\<rparr>)
         else Panic)
      else Err TableAccessOutOfBounds)"

section \<open>Copying between tables\<close>

text \<open>The index pairs of the loop, from below or from above, as \<open>Range\<close>, \<open>rev\<close> and \<open>zip\<close> give them.\<close>

definition copy_pairs :: "u32 \<Rightarrow> u32 \<Rightarrow> u32 \<Rightarrow> (u32 \<times> u32) list" where
  "copy_pairs dst_index src_index len =
     (let srcs = map (\<lambda>k. src_index + of_nat k) [0..<unat len];
          dsts = map (\<lambda>k. dst_index + of_nat k) [0..<unat len]
      in if dst_index \<le> src_index then zip srcs dsts else zip (rev srcs) (rev dsts))"

definition out_of_bounds :: "u32 \<Rightarrow> u32 \<Rightarrow> u32 \<Rightarrow> bool" where
  "out_of_bounds start len sz =
     (case checked_add start len of None \<Rightarrow> True | Some n \<Rightarrow> sz < n)"

fun copy_loop :: "VMTable \<Rightarrow> VMTable \<Rightarrow> (u32 \<times> u32) list \<Rightarrow> (VMTable, TrapCode) outcome" where
  "copy_loop t src_table [] = Ok t"
| "copy_loop t src_table ((s, d) # ps) =
     bind_ok (table_get src_table s) (\<lambda>e. bind_ok (unwrap e) (\<lambda>v.
     bind_ok (table_set t d v) (\<lambda>t'. copy_loop t' src_table ps)))"

definition table_copy ::
  "VMTable \<Rightarrow> VMTable \<Rightarrow> u32 \<Rightarrow> u32 \<Rightarrow> u32 \<Rightarrow> (VMTable, TrapCode) outcome" where
  "table_copy t src_table dst_index src_index len =
     (if out_of_bounds src_index len (table_size src_table) then Err TableAccessOutOfBounds
      else if out_of_bounds dst_index len (table_size t) then Err TableAccessOutOfBounds
      else copy_loop t src_table (copy_pairs dst_index src_index len))"

text \<open>The same loop when the table is its own source: it reads what it has already written.\<close>

fun copy_within_loop :: "VMTable \<Rightarrow> (u32 \<times> u32) list \<Rightarrow> (VMTable, TrapCode) outcome" where
  "copy_within_loop t [] = Ok t"
| "copy_within_loop t ((s, d) # ps) =
     bind_ok (table_get t s) (\<lambda>e. bind_ok (unwrap e) (\<lambda>v.
     bind_ok (table_set t d v) (\<lambda>t'. copy_within_loop t' ps)))"

definition table_copy_within ::
  "VMTable \<Rightarrow> u32 \<Rightarrow> u32 \<Rightarrow> u32 \<Rightarrow> (VMTable, TrapCode) outcome" where
  "table_copy_within t dst_index src_index len =
     (if out_of_bounds src_index len (table_size t) then Err TableAccessOutOfBounds
      else if out_of_bounds dst_index len (table_size t) then Err TableAccessOutOfBounds
      else copy_within_loop t (copy_pairs dst_index src_index len))"

text \<open>\<open>trap_debug\<close> is the \<open>Debug\<close> rendering of a trap.\<close>

definition table_copy_on_write ::
  "(nat \<Rightarrow> usize) \<Rightarrow> (TrapCode \<Rightarrow> string) \<Rightarrow> VMTable \<Rightarrow> (VMTable, string) outcome" where
  "table_copy_on_write alloc trap_debug t =
     bind_ok (table_new alloc (vt_table t) (vt_style t)) (\<lambda>ret.
       map_err (\<lambda>trap. ''failed to copy the table - '' @ trap_debug trap)
          (table_copy ret t 0 0 (table_size t)))"

section \<open>Invariant\<close>

definition table_wf :: "VMTable \<Rightarrow> bool" where
  "table_wf t = (is_ref_type (tt_ty (vt_table t)) \<and> length (vt_vec t) < 2 ^ 32 \<and>
     table_size t = as_u32 (length (vt_vec t)) \<and>
     td_base (get_vm_table_definition t) = vt_buffer t \<and>
     vt_maximum t = tt_maximum (vt_table t) \<and>
     (case vt_maximum t of None \<Rightarrow> True | Some m \<Rightarrow> length (vt_vec t) \<le> unat m))"

lemma table_size_wf: "table_wf t \<Longrightarrow> unat (table_size t) = length (vt_vec t)"
  by (simp add: table_wf_def unat_as_u32)

section \<open>Blocks of a list\<close>

text \<open>Writing element by element from another list, in any order.\<close>

lemma fold_blit:
  assumes "\<forall>k \<in> set ks. k < n" and "set ks = {..<n}" and "src + n \<le> length xs" and "dst + n \<le> length ys"
  shows "fold (\<lambda>k zs. zs[dst + k := xs ! (src + k)]) ks ys = list_blit ys dst xs src n"
proof (rule list_blit_eqI [OF assms(3,4)])
  have len: "length (fold (\<lambda>k zs. zs[dst + k := xs ! (src + k)]) ls zs) = length zs" for ls zs
    by (induction ls arbitrary: zs) simp_all
  then show "length (fold (\<lambda>k zs. zs[dst + k := xs ! (src + k)]) ks ys) = length ys" .
  have "fold (\<lambda>k zs. zs[dst + k := xs ! (src + k)]) ls zs ! j =
      (if dst \<le> j \<and> j - dst \<in> set ls then xs ! (src + (j - dst)) else zs ! j)"
    if "j < length zs" for ls zs j
    using that by (induction ls arbitrary: zs) (auto simp: nth_list_update)
  then show "fold (\<lambda>k zs. zs[dst + k := xs ! (src + k)]) ks ys ! j =
      (if dst \<le> j \<and> j < dst + n then xs ! (src + (j - dst)) else ys ! j)" if "j < length ys" for j
    using that assms(2) by (auto simp: less_diff_conv2)
qed

text \<open>Within one list: from below when it moves down, from above when it moves up.\<close>

lemma fold_move_down:
  assumes "dst \<le> src" and "src + n \<le> length xs"
  shows "fold (\<lambda>k zs. zs[dst + k := zs ! (src + k)]) [0..<n] xs = list_blit xs dst xs src n"
  using assms(2)
proof (induction n)
  case 0
  show ?case by (simp add: list_blit_def)
next
  case (Suc n)
  let ?zs = "list_blit xs dst xs src n"
  have "?zs ! (src + n) = xs ! (src + n)" using Suc.prems assms(1) by (simp add: nth_list_blit)
  then have "fold (\<lambda>k zs. zs[dst + k := zs ! (src + k)]) [0..<Suc n] xs =
      ?zs[dst + n := xs ! (src + n)]"
    using Suc by simp
  also have "\<dots> = list_blit xs dst xs src (Suc n)"
    using Suc.prems assms(1)
    by (intro list_blit_eqI) (auto simp: nth_list_update nth_list_blit less_Suc_eq)
  finally show ?case .
qed

lemma fold_move_up:
  assumes "src < dst" and "dst + n \<le> length xs" and "i \<le> n"
  shows "fold (\<lambda>k zs. zs[dst + k := zs ! (src + k)]) (rev [i..<n]) xs =
    list_blit xs (dst + i) xs (src + i) (n - i)"
  using assms(3)
proof (induction "n - i" arbitrary: i)
  case 0
  then show ?case by (simp add: list_blit_def)
next
  case (Suc m)
  let ?zs = "list_blit xs (dst + Suc i) xs (src + Suc i) (n - Suc i)"
  have "[i..<n] = i # [Suc i..<n]" using Suc.hyps(2) Suc.prems by (simp add: upt_rec)
  moreover have "?zs ! (src + i) = xs ! (src + i)"
    using Suc.hyps(2) Suc.prems assms(1,2) by (simp add: nth_list_blit)
  moreover have "fold (\<lambda>k zs. zs[dst + k := zs ! (src + k)]) (rev [Suc i..<n]) xs = ?zs"
    using Suc.hyps by (intro Suc.hyps(1)) simp_all
  ultimately have "fold (\<lambda>k zs. zs[dst + k := zs ! (src + k)]) (rev [i..<n]) xs =
      ?zs[dst + i := xs ! (src + i)]"
    by simp
  also have "\<dots> = list_blit xs (dst + i) xs (src + i) (n - i)"
    using Suc.hyps(2) Suc.prems assms(1,2)
    by (intro list_blit_eqI) (auto simp: nth_list_update nth_list_blit Suc_le_eq intro!: arg_cong [where f = "(!) xs"])
  finally show ?case .
qed

section \<open>The loops\<close>

lemma raw_ref_of_raw [simp]: "raw_ref (ref_of_raw r) = r"
  by (simp add: ref_of_raw_def)

lemma out_of_bounds_iff: "out_of_bounds start len sz \<longleftrightarrow> unat sz < unat start + unat len"
proof (cases "checked_add start len")
  case None
  then have "2 ^ 32 \<le> unat start + unat len" by (simp add: checked_add_None)
  with unat_u32_less [of sz] None show ?thesis by (simp add: out_of_bounds_def del: unat_u32_less)
next
  case (Some n)
  moreover from Some have "unat n = unat start + unat len" by (simp add: checked_add_Some)
  ultimately show ?thesis by (simp add: out_of_bounds_def word_less_nat_alt)
qed

text \<open>Reading an element of a well-formed table, and writing it back somewhere.\<close>

lemma get_set_step:
  assumes "is_ref_type (tt_ty (vt_table u))" and "tt_ty (vt_table t) = tt_ty (vt_table u)"
    and "unat s < length (vt_vec u)" and "unat d < length (vt_vec t)"
  shows "bind_ok (table_get u s) (\<lambda>e. bind_ok (unwrap e) (\<lambda>v. bind_ok (table_set t d v) k)) =
    k (t\<lparr>vt_vec := (vt_vec t)[unat d := vt_vec u ! unat s]\<rparr>)"
  using assms
  by (auto simp: table_get_def table_set_def nth_opt_def is_ref_type_def)

definition pairs_within :: "(u32 \<times> u32) list \<Rightarrow> nat \<Rightarrow> nat \<Rightarrow> bool" where
  "pairs_within ps m n = (\<forall>(s, d) \<in> set ps. unat s < m \<and> unat d < n)"

lemma copy_loop_fold:
  assumes "is_ref_type (tt_ty (vt_table u))" and "tt_ty (vt_table t) = tt_ty (vt_table u)"
    and "pairs_within ps (length (vt_vec u)) (length (vt_vec t))"
  shows "copy_loop t u ps =
    Ok (t\<lparr>vt_vec := fold (\<lambda>(s, d) zs. zs[unat d := vt_vec u ! unat s]) ps (vt_vec t)\<rparr>)"
  using assms(2,3)
proof (induction ps arbitrary: t)
  case (Cons p ps)
  obtain s d where p: "p = (s, d)" by (cases p)
  with Cons show ?case
    by (simp add: get_set_step [OF assms(1)] pairs_within_def)
qed simp

lemma copy_within_loop_fold:
  assumes "is_ref_type (tt_ty (vt_table t))"
    and "pairs_within ps (length (vt_vec t)) (length (vt_vec t))"
  shows "copy_within_loop t ps =
    Ok (t\<lparr>vt_vec := fold (\<lambda>(s, d) zs. zs[unat d := zs ! unat s]) ps (vt_vec t)\<rparr>)"
  using assms
proof (induction ps arbitrary: t)
  case (Cons p ps)
  obtain s d where p: "p = (s, d)" by (cases p)
  with Cons show ?case by (simp add: get_set_step pairs_within_def)
qed simp

text \<open>The pairs as pairs of numbers.\<close>

definition copy_order :: "u32 \<Rightarrow> u32 \<Rightarrow> u32 \<Rightarrow> nat list" where
  "copy_order dst src len = (if dst \<le> src then [0..<unat len] else rev [0..<unat len])"

lemma copy_pairs_order:
  "copy_pairs dst src len = map (\<lambda>k. (src + of_nat k, dst + of_nat k)) (copy_order dst src len)"
  by (simp add: copy_pairs_def copy_order_def Let_def zip_map_map rev_map zip_same_conv_map)

lemma set_copy_order [simp]: "set (copy_order dst src len) = {..<unat len}"
  by (auto simp: copy_order_def)

lemma unat_index_add:
  assumes "unat (b :: u32) + unat (len :: u32) \<le> m" and "m < 2 ^ 32" and "k < unat len"
  shows "unat (b + of_nat k) = unat b + k"
proof -
  have "unat (of_nat k :: u32) = k"
    using less_trans [OF assms(3) unat_u32_less] by (simp add: unat_of_nat)
  with assms show ?thesis by (subst unat_add_lem [THEN iffD1]) simp_all
qed

lemma fold_copy_pairs:
  assumes "unat src + unat len \<le> m" and "m < 2 ^ 32" and "unat dst + unat len \<le> n" and "n < 2 ^ 32"
  shows "fold (\<lambda>(s, d). f (unat s) (unat d)) (copy_pairs dst src len) zs =
     fold (\<lambda>k. f (unat src + k) (unat dst + k)) (copy_order dst src len) zs"
    and "pairs_within (copy_pairs dst src len) m n"
proof -
  have step: "(\<lambda>(s, d). f (unat s) (unat d)) (src + of_nat k, dst + of_nat k) =
      f (unat src + k) (unat dst + k)" if "k \<in> set (copy_order dst src len)" for k
    using that assms by (simp add: unat_index_add [OF assms(1,2)] unat_index_add [OF assms(3,4)])
  have "fold (\<lambda>(s, d). f (unat s) (unat d)) (copy_pairs dst src len) zs =
      fold (\<lambda>k. (\<lambda>(s, d). f (unat s) (unat d)) (src + of_nat k, dst + of_nat k))
        (copy_order dst src len) zs"
    by (simp add: copy_pairs_order fold_map o_def)
  also have "\<dots> = fold (\<lambda>k. f (unat src + k) (unat dst + k)) (copy_order dst src len) zs"
    by (rule fold_cong [OF refl refl step])
  finally show "fold (\<lambda>(s, d). f (unat s) (unat d)) (copy_pairs dst src len) zs =
     fold (\<lambda>k. f (unat src + k) (unat dst + k)) (copy_order dst src len) zs" .
  show "pairs_within (copy_pairs dst src len) m n"
    using assms unat_index_add [OF assms(1,2)] unat_index_add [OF assms(3,4)]
    by (auto simp: pairs_within_def copy_pairs_order)
qed

lemma copy_within:
  assumes "table_wf t"
  shows "table_copy_within t dst src len =
      (if unat src + unat len \<le> length (vt_vec t) \<and> unat dst + unat len \<le> length (vt_vec t)
       then Ok (t\<lparr>vt_vec := list_blit (vt_vec t) (unat dst) (vt_vec t) (unat src) (unat len)\<rparr>)
       else Err TableAccessOutOfBounds)"
proof -
  have lim: "length (vt_vec t) < 2 ^ 32" and ty: "is_ref_type (tt_ty (vt_table t))"
    using assms by (simp_all add: table_wf_def)
  have "copy_within_loop t (copy_pairs dst src len) =
      Ok (t\<lparr>vt_vec := list_blit (vt_vec t) (unat dst) (vt_vec t) (unat src) (unat len)\<rparr>)"
    if "unat src + unat len \<le> length (vt_vec t)" "unat dst + unat len \<le> length (vt_vec t)"
    using fold_copy_pairs(1) [OF that(1) lim that(2) lim, where
        f = "\<lambda>s d (zs :: RawTableElement list). zs[d := zs ! s]"]
      fold_copy_pairs(2) [OF that(1) lim that(2) lim] that
      fold_move_down [of "unat dst" "unat src" "unat len" "vt_vec t"]
      fold_move_up [of "unat src" "unat dst" "unat len" "vt_vec t" 0]
    by (cases "dst \<le> src") (simp_all add: copy_within_loop_fold ty copy_order_def word_le_nat_alt)
  then show ?thesis
    by (auto simp: table_copy_within_def out_of_bounds_iff table_size_wf assms)
qed

lemma copy_across:
  assumes "table_wf t" and "table_wf u" and "tt_ty (vt_table t) = tt_ty (vt_table u)"
  shows "table_copy t u dst src len =
      (if unat src + unat len \<le> length (vt_vec u) \<and> unat dst + unat len \<le> length (vt_vec t)
       then Ok (t\<lparr>vt_vec := list_blit (vt_vec t) (unat dst) (vt_vec u) (unat src) (unat len)\<rparr>)
       else Err TableAccessOutOfBounds)"
proof -
  have lim: "length (vt_vec t) < 2 ^ 32" "length (vt_vec u) < 2 ^ 32"
    and ty: "is_ref_type (tt_ty (vt_table u))"
    using assms(1,2) by (simp_all add: table_wf_def)
  have "copy_loop t u (copy_pairs dst src len) =
      Ok (t\<lparr>vt_vec := list_blit (vt_vec t) (unat dst) (vt_vec u) (unat src) (unat len)\<rparr>)"
    if "unat src + unat len \<le> length (vt_vec u)" "unat dst + unat len \<le> length (vt_vec t)"
    using fold_copy_pairs(1) [OF that(1) lim(2) that(2) lim(1),
        where f = "\<lambda>s d zs. zs[d := vt_vec u ! s]"]
      fold_copy_pairs(2) [OF that(1) lim(2) that(2) lim(1)] that
      fold_blit [of "copy_order dst src len" "unat len" "unat src" "vt_vec u" "unat dst" "vt_vec t"]
    by (simp add: copy_loop_fold ty assms(3))
  then show ?thesis
    by (auto simp: table_copy_def out_of_bounds_iff table_size_wf assms(1,2))
qed

section \<open>Properties\<close>

text \<open>
  C36: copying a range within a table, and from one table to another. If either range does
  not lie in its table the result is an out-of-bounds trap and nothing is written. Otherwise the
  loop, which goes from below or from above depending on the indices, has the effect of a block
  move: overlapping ranges included, every element of the destination range is the element that
  the source held before. Neither panics.
\<close>

theorem table_copy_block_move:
  assumes "table_wf t" and "table_wf u" and "tt_ty (vt_table t) = tt_ty (vt_table u)"
  shows "table_copy_within t dst src len =
      (if unat src + unat len \<le> length (vt_vec t) \<and> unat dst + unat len \<le> length (vt_vec t)
       then Ok (t\<lparr>vt_vec := list_blit (vt_vec t) (unat dst) (vt_vec t) (unat src) (unat len)\<rparr>)
       else Err TableAccessOutOfBounds) \<and>
    table_copy t u dst src len =
      (if unat src + unat len \<le> length (vt_vec u) \<and> unat dst + unat len \<le> length (vt_vec t)
       then Ok (t\<lparr>vt_vec := list_blit (vt_vec t) (unat dst) (vt_vec u) (unat src) (unat len)\<rparr>)
       else Err TableAccessOutOfBounds)"
  using copy_within [OF assms(1)] copy_across [OF assms] by blast

definition example_table :: VMTable where
  "example_table = \<lparr>vt_buffer = 4096, vt_vec = [11, 12, 13, 14], vt_maximum = None,
     vt_table = \<lparr>tt_ty = FuncRef, tt_minimum = 4, tt_maximum = None\<rparr>,
     vt_style = CallerChecksSignature,
     vt_definition = Host \<lparr>td_base = 4096, td_current_elements = 4\<rparr>\<rparr>"

lemma example_table_wf: "table_wf example_table"
  by (simp add: table_wf_def example_table_def is_ref_type_def table_size_def
      get_vm_table_definition_def as_u32_def)

theorem table_copy_block_move_witness:
  "table_copy_within example_table 1 0 3 = Ok (example_table\<lparr>vt_vec := [11, 11, 12, 13]\<rparr>) \<and>
   table_copy_within example_table 1 0 4 = Err TableAccessOutOfBounds"
  using table_copy_block_move [OF example_table_wf example_table_wf refl, of 1 0 3]
    table_copy_block_move [OF example_table_wf example_table_wf refl, of 1 0 4]
  by (simp add: example_table_def list_blit_def)

text \<open>
  C37: growing a table. It fails exactly when the new size exceeds 32 bits or the maximum of
  the table; otherwise it returns the old size, keeps every element and appends copies of the
  given one, and the definition that compiled code reads has the new size and the new address of
  the buffer.
\<close>

theorem table_grow_correct:
  assumes "table_wf t"
  shows "case table_grow alloc t delta v of
      Some (p, t') \<Rightarrow> unat p = length (vt_vec t) \<and> table_wf t' \<and>
        vt_vec t' = vt_vec t @ replicate (unat delta) (raw_from_element v) \<and>
        vt_table t' = vt_table t \<and> vt_style t' = vt_style t
    | None \<Rightarrow> 2 ^ 32 \<le> length (vt_vec t) + unat delta \<or>
        (\<exists>m. tt_maximum (vt_table t) = Some m \<and> unat m < length (vt_vec t) + unat delta)"
proof (cases "checked_add (table_size t) delta")
  case None
  then have "2 ^ 32 \<le> length (vt_vec t) + unat delta"
    by (simp add: checked_add_None table_size_wf [OF assms])
  with None show ?thesis by (simp add: table_grow_def)
next
  case (Some n)
  then have n: "unat n = length (vt_vec t) + unat delta"
    by (simp add: checked_add_Some table_size_wf [OF assms])
  have max: "vt_maximum t = tt_maximum (vt_table t)" using assms by (simp add: table_wf_def)
  consider m where "vt_maximum t = Some m" "m < n" | "n = table_size t" "delta = 0" |
    "n \<noteq> table_size t" "\<forall>m. vt_maximum t = Some m \<longrightarrow> n \<le> m"
    using n table_size_wf [OF assms]
    by (cases "vt_maximum t") (force simp: unat_eq_zero not_less)+
  then show ?thesis
  proof cases
    case 1
    with Some have "table_grow alloc t delta v = None" by (simp add: table_grow_def)
    with 1 n max show ?thesis by (auto simp: word_less_nat_alt)
  next
    case 2
    have "\<not> (case vt_maximum t of Some m \<Rightarrow> m < table_size t | None \<Rightarrow> False)"
      using assms 2 n by (auto simp: table_wf_def word_less_nat_alt split: option.splits)
    with 2 Some have "table_grow alloc t delta v = Some (table_size t, t)"
      by (simp add: table_grow_def)
    with 2 assms show ?thesis by (simp add: table_size_wf)
  next
    case 3
    let ?vec = "vt_vec t @ replicate (unat delta) (raw_from_element v)"
    let ?t = "t\<lparr>vt_vec := ?vec, vt_buffer := alloc (length ?vec),
      vt_definition := owned_update (\<lambda>td. td\<lparr>td_current_elements := n,
        td_base := alloc (length ?vec)\<rparr>) (vt_definition t)\<rparr>"
    have vec: "vec_resize (vt_vec t) (unat n) (raw_from_element v) = ?vec"
      by (simp add: n vec_resize_def)
    have "table_grow alloc t delta v = Some (table_size t, ?t)"
      using 3 Some by (auto simp: table_grow_def Let_def vec split: option.splits)
    moreover have "table_wf ?t"
      using assms 3 unat_u32_less [of n] n [symmetric] max
      by (auto simp: table_wf_def table_size_def get_vm_table_definition_def word_le_nat_alt
          as_u32_def split: option.splits)
    ultimately show ?thesis using assms by (simp add: table_size_wf)
  qed
qed

theorem table_grow_correct_witness:
  "\<exists>t'. table_grow (\<lambda>n. 8192) example_table 2 (ElFuncRef (Some 7)) = Some (4, t') \<and>
     vt_vec t' = [11, 12, 13, 14] @ replicate 2 7"
proof -
  obtain p t' where g: "table_grow (\<lambda>n. 8192) example_table 2 (ElFuncRef (Some 7)) = Some (p, t')"
    by (simp add: table_grow_def table_size_def get_vm_table_definition_def example_table_def
        checked_add_def)
  with table_grow_correct [OF example_table_wf, where alloc = "\<lambda>n. 8192" and
      delta = 2 and v = "ElFuncRef (Some 7)"]
  have "unat p = unat (4 :: u32)" "vt_vec t' = [11, 12, 13, 14] @ replicate 2 7"
    by (simp_all add: example_table_def)
  then have "p = 4" by (simp only: word_unat_eq_iff)
  with g \<open>vt_vec t' = _\<close> show ?thesis by blast
qed

text \<open>The size limit that creation enforces is not enforced by growing.\<close>

lemma table_grow_ignores_max_size:
  "\<exists>t p t'. table_new (\<lambda>n. 4096) \<lparr>tt_ty = FuncRef, tt_minimum = 0, tt_maximum = None\<rparr>
       CallerChecksSignature = Ok t \<and>
     table_grow (\<lambda>n. 4096) t 134217729 (ElFuncRef None) = Some (p, t') \<and>
     TABLE_MAX_SIZE < length (vt_vec t')"
  by (simp add: table_new_def table_new_inner_def is_ref_type_def table_grow_def table_size_def
      get_vm_table_definition_def checked_add_def as_u32_def TABLE_MAX_SIZE_def vec_resize_def)

lemma table_new_wf:
  assumes "table_new_inner alloc table style loc = Ok t"
  shows "table_wf t" and "vt_vec t = replicate (unat (tt_minimum table)) 0"
    and "vt_table t = table" and "vt_style t = style"
  using assms
  by (auto simp: table_new_inner_def Let_def table_wf_def table_size_def get_vm_table_definition_def
      raw_default_def word_le_nat_alt not_less split: if_splits option.splits)

text \<open>
  Copying a table for copy-on-write. A table that still has the size it was created with
  is copied faithfully. A table that has grown cannot be copied at all: the new table has the
  declared minimum size, so that the copy of all elements is out of bounds and an error is
  returned.
\<close>

lemma table_copy_on_write_grown:
  assumes "table_wf t" and "table_new alloc (vt_table t) (vt_style t) = Ok t0"
    and "unat (tt_minimum (vt_table t)) \<le> length (vt_vec t)"
  shows "case table_copy_on_write alloc trap_debug t of
      Ok t' \<Rightarrow> length (vt_vec t) = unat (tt_minimum (vt_table t)) \<and> vt_vec t' = vt_vec t \<and>
        vt_table t' = vt_table t \<and> table_wf t'
    | Err e \<Rightarrow> unat (tt_minimum (vt_table t)) < length (vt_vec t)
    | Panic \<Rightarrow> False"
proof -
  have new: "table_wf t0" "vt_vec t0 = replicate (unat (tt_minimum (vt_table t))) 0"
    "vt_table t0 = vt_table t"
    using table_new_wf [OF assms(2) [unfolded table_new_def]] by auto
  have copy: "table_copy t0 t 0 0 (table_size t) =
      (if length (vt_vec t) \<le> unat (tt_minimum (vt_table t))
       then Ok (t0\<lparr>vt_vec := list_blit (vt_vec t0) 0 (vt_vec t) 0 (length (vt_vec t))\<rparr>)
       else Err TableAccessOutOfBounds)"
    using copy_across [OF new(1) assms(1), of 0 0 "table_size t"] table_size_wf [OF assms(1)]
    by (simp add: new)
  show ?thesis
  proof (cases "length (vt_vec t) = unat (tt_minimum (vt_table t))")
    case True
    then have "list_blit (vt_vec t0) 0 (vt_vec t) 0 (length (vt_vec t)) = vt_vec t"
      by (simp add: list_blit_def new)
    with True copy assms(2) new show ?thesis
      by (simp add: table_copy_on_write_def)
        (simp add: table_wf_def table_size_def get_vm_table_definition_def split: option.splits)
  next
    case False
    with copy assms(2,3) show ?thesis by (simp add: table_copy_on_write_def)
  qed
qed

text \<open>
  A table element read after a write. The null reference is the address 0, which no reference
  points to.
\<close>

fun valid_ref :: "TableElement \<Rightarrow> bool" where
  "valid_ref (ElExternRef r) = (r \<noteq> Some 0)"
| "valid_ref (ElFuncRef r) = (r \<noteq> Some 0)"

lemma ref_of_raw_ref [simp]: "r \<noteq> Some 0 \<Longrightarrow> ref_of_raw (raw_ref r) = r"
  by (cases r) (auto simp: ref_of_raw_def)

lemma table_get_set:
  assumes "table_set t i v = Ok t'" and "valid_ref v"
  shows "table_get t' j = (if j = i then Ok (Some v) else table_get t j)"
  using assms
  by (cases v; cases "tt_ty (vt_table t)")
    (auto simp: table_set_def table_get_def nth_opt_def nth_list_update word_unat_eq_iff
      split: if_splits)

lemma table_set_outcome:
  "table_set t i v = Err e \<longleftrightarrow> length (vt_vec t) \<le> unat i \<and> e = TableAccessOutOfBounds"
  "table_set t i v = Panic \<longleftrightarrow>
     unat i < length (vt_vec t) \<and> \<not> element_matches (tt_ty (vt_table t)) v"
  by (auto simp: table_set_def)

lemma table_set_wf: "table_set t i v = Ok t' \<Longrightarrow> table_wf t \<Longrightarrow> table_wf t'"
  by (auto simp: table_set_def table_wf_def table_size_def get_vm_table_definition_def
      split: if_splits option.splits)

end
