(* ===== verification/Sig_Registry.thy ===== *)
theory Sig_Registry
  imports Wasm_Types "HOL-Library.AList"
begin

text \<open>
  The registry of function signatures, \<open>lib/vm/src/sig_registry.rs\<close>, which gives every
  signature an index that indirect calls compare. The two hash maps are association lists. The
  lock around them serialises the operations, so that calls from several threads are a sequence
  of registrations.
\<close>

section \<open>The registry\<close>

type_synonym VMSharedSignatureIndex = u32

definition signature_index_default :: VMSharedSignatureIndex where
  "signature_index_default = u32_max"

record SignatureRegistry =
  sr_signature2index :: "(FunctionType \<times> VMSharedSignatureIndex) list"
  sr_index2signature :: "(VMSharedSignatureIndex \<times> FunctionType) list"

definition sr_new :: SignatureRegistry where
  "sr_new = \<lparr>sr_signature2index = [], sr_index2signature = []\<rparr>"

text \<open>\<open>debug\<close> tells whether debug assertions are compiled in.\<close>

definition sr_register ::
  "bool \<Rightarrow> SignatureRegistry \<Rightarrow> FunctionType \<Rightarrow>
     (VMSharedSignatureIndex \<times> SignatureRegistry, unit) outcome" where
  "sr_register debug r sig =
     (let len = length (sr_signature2index r) in
      case map_of (sr_signature2index r) sig of
        Some i \<Rightarrow> Ok (i, r)
      | None \<Rightarrow>
          bind_ok (if debug then assert_that (len < unat u32_max) else Ok ()) (\<lambda>_.
          bind_ok (unwrap (u32_try_from len)) (\<lambda>sig_id.
            Ok (sig_id, \<lparr>sr_signature2index = (sig, sig_id) # sr_signature2index r,
                 sr_index2signature = AList.update sig_id sig (sr_index2signature r)\<rparr>))))"

definition sr_lookup :: "SignatureRegistry \<Rightarrow> VMSharedSignatureIndex \<Rightarrow> FunctionType option" where
  "sr_lookup r idx = map_of (sr_index2signature r) idx"

text \<open>A sequence of registrations, in the order in which the lock admits them.\<close>

fun sr_register_all ::
  "bool \<Rightarrow> SignatureRegistry \<Rightarrow> FunctionType list \<Rightarrow>
     (VMSharedSignatureIndex list \<times> SignatureRegistry, unit) outcome" where
  "sr_register_all debug r [] = Ok ([], r)"
| "sr_register_all debug r (s # ss) =
     bind_ok (sr_register debug r s) (\<lambda>(i, r1).
       bind_ok (sr_register_all debug r1 ss) (\<lambda>(is, r2). Ok (i # is, r2)))"

section \<open>Invariant\<close>

text \<open>The two maps are inverse to each other, and the indices are handed out from 0 upwards.\<close>

definition sr_wf :: "SignatureRegistry \<Rightarrow> bool" where
  "sr_wf r = (length (sr_signature2index r) < 2 ^ 32 \<and>
     (\<forall>s i. map_of (sr_signature2index r) s = Some i \<longleftrightarrow> sr_lookup r i = Some s) \<and>
     (\<forall>i. sr_lookup r i \<noteq> None \<longleftrightarrow> unat i < length (sr_signature2index r)))"

lemma sr_wf_new: "sr_wf sr_new"
  by (simp add: sr_wf_def sr_new_def sr_lookup_def)

lemma sr_wf_fresh: "sr_wf r \<Longrightarrow> sr_lookup r (as_u32 (length (sr_signature2index r))) = None"
  by (metis (no_types, lifting) less_irrefl sr_wf_def unat_as_u32_small)

lemma sr_wf_inj: "sr_wf r \<Longrightarrow> sr_lookup r i = Some s \<Longrightarrow> sr_lookup r j = Some s \<Longrightarrow> i = j"
  by (metis option.inject sr_wf_def)

lemma sr_register_known:
  "map_of (sr_signature2index r) s = Some i \<Longrightarrow> sr_register debug r s = Ok (i, r)"
  by (simp add: sr_register_def)

lemma sr_register_fresh:
  assumes "sr_wf r" and "map_of (sr_signature2index r) s = None"
    and "length (sr_signature2index r) < 2 ^ 32 - 1"
  defines "i \<equiv> as_u32 (length (sr_signature2index r))"
  shows "\<exists>r'. sr_register debug r s = Ok (i, r') \<and> sr_wf r' \<and>
    length (sr_signature2index r') = Suc (length (sr_signature2index r)) \<and>
    sr_lookup r' = (sr_lookup r)(i \<mapsto> s)"
proof -
  let ?r = "\<lparr>sr_signature2index = (s, i) # sr_signature2index r,
    sr_index2signature = AList.update i s (sr_index2signature r)\<rparr>"
  have i: "unat i = length (sr_signature2index r)"
    using assms(3) by (simp add: i_def unat_as_u32)
  have "sr_register debug r s = Ok (i, ?r)"
    using assms(2,3) by (simp add: sr_register_def Let_def i_def u32_try_from_def assert_that_def as_u32_def)
  moreover have look: "sr_lookup ?r = (sr_lookup r)(i \<mapsto> s)"
    by (rule ext) (simp add: sr_lookup_def update_conv)
  moreover have fresh: "sr_lookup r i = None"
    using sr_wf_fresh [OF assms(1)] by (simp add: i_def)
  then have "sr_wf ?r"
    using assms(1-3) i unfolding sr_wf_def look
    by (auto simp: word_unat_eq_iff less_Suc_eq) (metis option.distinct(1), metis less_irrefl)
  ultimately show ?thesis by auto
qed

text \<open>When the table is full, a release build hands out the index reserved for \<open>default\<close>.\<close>

lemma sr_register_reserved:
  assumes "length (sr_signature2index r) = 2 ^ 32 - 1"
    and "map_of (sr_signature2index r) s = None"
  shows "\<exists>r'. sr_register False r s = Ok (signature_index_default, r')"
    and "sr_register True r s = Panic"
  using assms
  by (simp_all add: sr_register_def Let_def u32_try_from_def assert_that_def
      signature_index_default_def)

lemma sr_register_steps:
  assumes "sr_wf r" and "length (sr_signature2index r) + length sigs < 2 ^ 32"
  shows "\<exists>is r'. sr_register_all debug r sigs = Ok (is, r') \<and> sr_wf r' \<and>
    length is = length sigs \<and> sr_lookup r \<subseteq>\<^sub>m sr_lookup r' \<and>
    length (sr_signature2index r') \<le> length (sr_signature2index r) + length sigs \<and>
    (\<forall>k < length sigs. sr_lookup r' (is ! k) = Some (sigs ! k))"
  using assms
proof (induction sigs arbitrary: r)
  case Nil
  then show ?case by simp
next
  case (Cons s ss)
  obtain i r1 where r1: "sr_register debug r s = Ok (i, r1)" "sr_wf r1" "sr_lookup r1 i = Some s"
    "sr_lookup r \<subseteq>\<^sub>m sr_lookup r1"
    "length (sr_signature2index r1) \<le> Suc (length (sr_signature2index r))"
  proof (cases "map_of (sr_signature2index r) s")
    case None
    with sr_register_fresh [of r s debug] Cons.prems obtain r' where
      r': "sr_register debug r s = Ok (as_u32 (length (sr_signature2index r)), r')" "sr_wf r'"
      "length (sr_signature2index r') = Suc (length (sr_signature2index r))"
      "sr_lookup r' = (sr_lookup r)(as_u32 (length (sr_signature2index r)) \<mapsto> s)" by auto
    have "sr_lookup r (as_u32 (length (sr_signature2index r))) = None"
      using Cons.prems by (intro sr_wf_fresh)
    then have "sr_lookup r \<subseteq>\<^sub>m sr_lookup r'"
      unfolding r'(4) by (auto simp: map_le_def)
    from that [OF r'(1,2) _ this] r'(3,4) show ?thesis by simp
  next
    case (Some i)
    with Cons.prems(1) sr_register_known [OF Some, of debug] that show ?thesis
      by (auto simp: sr_wf_def)
  qed
  with Cons.IH [OF r1(2)] Cons.prems obtain "is" r2 where
    r2: "sr_register_all debug r1 ss = Ok (is, r2)" "sr_wf r2" "length is = length ss"
    "sr_lookup r1 \<subseteq>\<^sub>m sr_lookup r2"
    "length (sr_signature2index r2) \<le> length (sr_signature2index r1) + length ss"
    "\<forall>k < length ss. sr_lookup r2 (is ! k) = Some (ss ! k)" by auto
  have "sr_lookup r2 i = Some s"
    using r1(3) r2(4) by (auto simp: map_le_def dom_def)
  with r1 r2 show ?case
    by (auto simp: nth_Cons' intro: map_le_trans)
qed

text \<open>
  C38: the signature registry. Registering any sequence of fewer than \<open>2 ^ 32\<close> signatures
  succeeds; two registrations are given the same index exactly when they are of the same
  signature, so that comparing indices compares signatures; looking up an index gives the
  signature it stands for; and the index reserved for the default is never handed out.
\<close>

theorem signature_indices_faithful:
  assumes "length sigs < 2 ^ 32"
  shows "\<exists>is r. sr_register_all debug sr_new sigs = Ok (is, r) \<and> length is = length sigs \<and>
    (\<forall>j < length sigs. \<forall>k < length sigs. is ! j = is ! k \<longleftrightarrow> sigs ! j = sigs ! k) \<and>
    (\<forall>k < length sigs. sr_lookup r (is ! k) = Some (sigs ! k) \<and>
       is ! k \<noteq> signature_index_default)"
proof -
  have len: "length (sr_signature2index sr_new) = 0" by (simp add: sr_new_def)
  obtain "is" r where r: "sr_register_all debug sr_new sigs = Ok (is, r)" "sr_wf r"
    "length is = length sigs" "length (sr_signature2index r) \<le> length sigs"
    "\<forall>k < length sigs. sr_lookup r (is ! k) = Some (sigs ! k)"
    using sr_register_steps [OF sr_wf_new, of sigs debug] assms unfolding len by auto
  have "is ! j = is ! k \<longleftrightarrow> sigs ! j = sigs ! k" if "j < length sigs" "k < length sigs" for j k
    using r(5) that sr_wf_inj [OF r(2), of "is ! j" "sigs ! j" "is ! k"] by (metis option.inject)
  moreover have "is ! k \<noteq> signature_index_default" if "k < length sigs" for k
  proof -
    have "unat (is ! k) < length (sr_signature2index r)"
      using r(2,5) that by (auto simp: sr_wf_def)
    with r(4) assms show ?thesis by (auto simp: signature_index_default_def)
  qed
  ultimately show ?thesis using r by blast
qed

theorem signature_indices_faithful_witness:
  "\<exists>is r. sr_register_all True sr_new
       [\<lparr>ft_params = [I32], ft_results = []\<rparr>, \<lparr>ft_params = [], ft_results = [I64]\<rparr>,
        \<lparr>ft_params = [I32], ft_results = []\<rparr>] = Ok (is, r) \<and>
     is ! 0 = is ! 2 \<and> is ! 0 \<noteq> is ! 1 \<and>
     sr_lookup r (is ! 1) = Some \<lparr>ft_params = [], ft_results = [I64]\<rparr>"
proof -
  let ?s = "[\<lparr>ft_params = [I32], ft_results = []\<rparr>, \<lparr>ft_params = [], ft_results = [I64]\<rparr>,
    \<lparr>ft_params = [I32], ft_results = []\<rparr> :: FunctionType]"
  obtain "is" r where r: "sr_register_all True sr_new ?s = Ok (is, r)"
    "\<forall>j < length ?s. \<forall>k < length ?s. is ! j = is ! k \<longleftrightarrow> ?s ! j = ?s ! k"
    "\<forall>k < length ?s. sr_lookup r (is ! k) = Some (?s ! k) \<and> is ! k \<noteq> signature_index_default"
    using signature_indices_faithful [of ?s True] by (auto simp del: sr_register_all.simps)
  have "is ! 0 = is ! 2" using r(2) [rule_format, of 0 2] by simp
  moreover have "is ! 0 \<noteq> is ! 1" using r(2) [rule_format, of 0 1] by simp
  moreover have "sr_lookup r (is ! 1) = Some \<lparr>ft_params = [], ft_results = [I64]\<rparr>"
    using r(3) [rule_format, of 1] by simp
  ultimately show ?thesis using r(1) by blast
qed

end
