(* ===== verification/Module_Info.thy ===== *)
theory Module_Info
  imports Entity Wasm_Types
begin

text \<open>
  The description of a translated module, \<open>lib/types/src/module.rs\<close>, with the initialisers of
  \<open>initializers.rs\<close> and \<open>types.rs\<close> and the index newtypes of \<open>indexes.rs\<close>. An \<open>IndexMap\<close> is an
  association list in insertion order, a \<open>HashMap\<close> or \<open>BTreeMap\<close> a finite partial function.
  Floating point constants are kept as their bit patterns, and compared as Rust compares floats.

  The locale \<open>index_space\<close> is what the rest of the runtime relies on when it converts between
  the index of an entity and its position among the locally defined ones; it is interpreted
  for functions, tables, memories, globals and tags.
\<close>

section \<open>Indices\<close>

type_synonym FunctionIndex = u32
type_synonym TableIndex = u32
type_synonym MemoryIndex = u32
type_synonym GlobalIndex = u32
type_synonym TagIndex = u32
type_synonym SignatureIndex = u32
type_synonym DataIndex = u32
type_synonym ElemIndex = u32
type_synonym CustomSectionIndex = u32
type_synonym LocalFunctionIndex = u32
type_synonym LocalTableIndex = u32
type_synonym LocalMemoryIndex = u32
type_synonym LocalGlobalIndex = u32
type_synonym LocalTagIndex = u32

datatype ExportIndex =
    ExFunction FunctionIndex
  | ExTable TableIndex
  | ExMemory MemoryIndex
  | ExTag TagIndex
  | ExGlobal GlobalIndex

datatype ImportIndex =
    ImFunction FunctionIndex
  | ImTable TableIndex
  | ImMemory MemoryIndex
  | ImTag TagIndex
  | ImGlobal GlobalIndex

record ImportKey =
  ik_module :: string
  ik_field :: string
  ik_import_idx :: u32

section \<open>Initialisers\<close>

datatype InitExprOp =
    GlobalGetI32 GlobalIndex
  | GlobalGetI64 GlobalIndex
  | I32Const i32
  | I32Add
  | I32Sub
  | I32Mul
  | I64Const i64
  | I64Add
  | I64Sub
  | I64Mul

type_synonym InitExpr = "InitExprOp list"

fun is_32bit_expression :: "InitExprOp \<Rightarrow> bool" where
  "is_32bit_expression (GlobalGetI32 _) = True"
| "is_32bit_expression (I32Const _) = True"
| "is_32bit_expression I32Add = True"
| "is_32bit_expression I32Sub = True"
| "is_32bit_expression I32Mul = True"
| "is_32bit_expression (GlobalGetI64 _) = False"
| "is_32bit_expression (I64Const _) = False"
| "is_32bit_expression I64Add = False"
| "is_32bit_expression I64Sub = False"
| "is_32bit_expression I64Mul = False"

datatype GlobalInit =
    GI_I32Const i32
  | GI_I64Const i64
  | GI_F32Const u32
  | GI_F64Const u64
  | GI_V128Const "u8 list"
  | GI_GetGlobal GlobalIndex
  | GI_RefNullConst
  | GI_RefFunc FunctionIndex
  | GI_Expr InitExpr

record TableInitializer =
  ti_table_index :: TableIndex
  ti_offset_expr :: InitExpr
  ti_elements :: "FunctionIndex list"

record DataInitializerLocation =
  dl_memory_index :: MemoryIndex
  dl_offset_expr :: InitExpr

record DataInitializer =
  di_location :: DataInitializerLocation
  di_data :: "u8 list"

section \<open>ModuleInfo\<close>

type_synonym ModuleId = usize
type_synonym ModuleHash = "u8 list"

record ModuleInfo =
  mi_id :: ModuleId
  mi_hash :: "ModuleHash option"
  mi_name :: "string option"
  mi_imports :: "(ImportKey \<times> ImportIndex) list"
  mi_exports :: "(string \<times> ExportIndex) list"
  mi_start_function :: "FunctionIndex option"
  mi_table_initializers :: "TableInitializer list"
  mi_passive_elements :: "ElemIndex \<rightharpoonup> FunctionIndex list"
  mi_passive_data :: "DataIndex \<rightharpoonup> u8 list"
  mi_global_initializers :: "GlobalInit PrimaryMap"
  mi_function_names :: "FunctionIndex \<rightharpoonup> string"
  mi_signatures :: "FunctionType PrimaryMap"
  mi_functions :: "SignatureIndex PrimaryMap"
  mi_tables :: "TableType PrimaryMap"
  mi_memories :: "MemoryType PrimaryMap"
  mi_globals :: "GlobalType PrimaryMap"
  mi_tags :: "SignatureIndex PrimaryMap"
  mi_custom_sections :: "(string \<times> CustomSectionIndex) list"
  mi_custom_sections_data :: "(u8 list) PrimaryMap"
  mi_num_imported_functions :: usize
  mi_num_imported_tables :: usize
  mi_num_imported_memories :: usize
  mi_num_imported_tags :: usize
  mi_num_imported_globals :: usize

definition module_new :: "ModuleId \<Rightarrow> ModuleInfo" where
  "module_new next_id = \<lparr>
     mi_id = next_id, mi_hash = None, mi_name = None, mi_imports = [], mi_exports = [],
     mi_start_function = None, mi_table_initializers = [], mi_passive_elements = Map.empty,
     mi_passive_data = Map.empty, mi_global_initializers = pm_new,
     mi_function_names = Map.empty, mi_signatures = pm_new, mi_functions = pm_new,
     mi_tables = pm_new, mi_memories = pm_new, mi_globals = pm_new, mi_tags = pm_new,
     mi_custom_sections = [], mi_custom_sections_data = pm_new,
     mi_num_imported_functions = 0, mi_num_imported_tables = 0, mi_num_imported_memories = 0,
     mi_num_imported_tags = 0, mi_num_imported_globals = 0\<rparr>"

text \<open>\<open>ModuleId::default\<close> takes the next value of a process-wide counter.\<close>

definition module_id_default :: "usize \<Rightarrow> ModuleId \<times> usize" where
  "module_id_default next_id = (next_id, (next_id + 1) mod usize_limit)"

subsection \<open>The archived form\<close>

record ArchivableModuleInfo =
  am_name :: "string option"
  am_hash :: "ModuleHash option"
  am_imports :: "(ImportKey \<times> ImportIndex) list"
  am_exports :: "(string \<times> ExportIndex) list"
  am_start_function :: "FunctionIndex option"
  am_table_initializers :: "TableInitializer list"
  am_passive_elements :: "ElemIndex \<rightharpoonup> FunctionIndex list"
  am_passive_data :: "DataIndex \<rightharpoonup> u8 list"
  am_global_initializers :: "GlobalInit PrimaryMap"
  am_function_names :: "FunctionIndex \<rightharpoonup> string"
  am_signatures :: "FunctionType PrimaryMap"
  am_functions :: "SignatureIndex PrimaryMap"
  am_tables :: "TableType PrimaryMap"
  am_memories :: "MemoryType PrimaryMap"
  am_globals :: "GlobalType PrimaryMap"
  am_tags :: "SignatureIndex PrimaryMap"
  am_custom_sections :: "(string \<times> CustomSectionIndex) list"
  am_custom_sections_data :: "(u8 list) PrimaryMap"
  am_num_imported_functions :: usize
  am_num_imported_tables :: usize
  am_num_imported_tags :: usize
  am_num_imported_memories :: usize
  am_num_imported_globals :: usize

definition archivable_from_module :: "ModuleInfo \<Rightarrow> ArchivableModuleInfo" where
  "archivable_from_module it = \<lparr>
     am_name = mi_name it, am_hash = mi_hash it, am_imports = mi_imports it,
     am_exports = mi_exports it, am_start_function = mi_start_function it,
     am_table_initializers = mi_table_initializers it,
     am_passive_elements = mi_passive_elements it, am_passive_data = mi_passive_data it,
     am_global_initializers = mi_global_initializers it,
     am_function_names = mi_function_names it, am_signatures = mi_signatures it,
     am_functions = mi_functions it, am_tables = mi_tables it, am_memories = mi_memories it,
     am_globals = mi_globals it, am_tags = mi_tags it,
     am_custom_sections = mi_custom_sections it,
     am_custom_sections_data = mi_custom_sections_data it,
     am_num_imported_functions = mi_num_imported_functions it,
     am_num_imported_tables = mi_num_imported_tables it,
     am_num_imported_tags = mi_num_imported_tags it,
     am_num_imported_memories = mi_num_imported_memories it,
     am_num_imported_globals = mi_num_imported_globals it\<rparr>"

definition module_from_archivable :: "ModuleId \<Rightarrow> ArchivableModuleInfo \<Rightarrow> ModuleInfo" where
  "module_from_archivable fresh_id it = \<lparr>
     mi_id = fresh_id, mi_hash = am_hash it, mi_name = am_name it,
     mi_imports = am_imports it, mi_exports = am_exports it,
     mi_start_function = am_start_function it,
     mi_table_initializers = am_table_initializers it,
     mi_passive_elements = am_passive_elements it, mi_passive_data = am_passive_data it,
     mi_global_initializers = am_global_initializers it,
     mi_function_names = am_function_names it, mi_signatures = am_signatures it,
     mi_functions = am_functions it, mi_tables = am_tables it, mi_memories = am_memories it,
     mi_globals = am_globals it, mi_tags = am_tags it,
     mi_custom_sections = am_custom_sections it,
     mi_custom_sections_data = am_custom_sections_data it,
     mi_num_imported_functions = am_num_imported_functions it,
     mi_num_imported_tables = am_num_imported_tables it,
     mi_num_imported_memories = am_num_imported_memories it,
     mi_num_imported_tags = am_num_imported_tags it,
     mi_num_imported_globals = am_num_imported_globals it\<rparr>"

text \<open>
  \<open>serde_imports\<close>: an \<open>IndexMap\<close> is written as a vector of pairs and read back with
  \<open>collect\<close>, that is by inserting one pair after the other; inserting under a key that is
  present keeps its position and replaces its value.
\<close>

fun indexmap_insert :: "('k \<times> 'v) list \<Rightarrow> 'k \<Rightarrow> 'v \<Rightarrow> ('k \<times> 'v) list" where
  "indexmap_insert [] k v = [(k, v)]"
| "indexmap_insert ((k', v') # m) k v =
     (if k' = k then (k, v) # m else (k', v') # indexmap_insert m k v)"

definition imports_serialize :: "('k \<times> 'v) list \<Rightarrow> ('k \<times> 'v) list" where
  "imports_serialize s = map (\<lambda>(a, b). (a, b)) s"

definition imports_deserialize :: "('k \<times> 'v) list \<Rightarrow> ('k \<times> 'v) list" where
  "imports_deserialize serialized = fold (\<lambda>(k, v) m. indexmap_insert m k v) serialized []"

subsection \<open>Equality\<close>

definition f32_is_nan :: "u32 \<Rightarrow> bool" where
  "f32_is_nan b = (2139095040 < and b 2147483647)"

definition f64_is_nan :: "u64 \<Rightarrow> bool" where
  "f64_is_nan b = (9218868437227405312 < and b 9223372036854775807)"

definition f32_eq :: "u32 \<Rightarrow> u32 \<Rightarrow> bool" where
  "f32_eq a b = (\<not> f32_is_nan a \<and> \<not> f32_is_nan b \<and>
     (a = b \<or> (and a 2147483647 = 0 \<and> and b 2147483647 = 0)))"

definition f64_eq :: "u64 \<Rightarrow> u64 \<Rightarrow> bool" where
  "f64_eq a b = (\<not> f64_is_nan a \<and> \<not> f64_is_nan b \<and>
     (a = b \<or> (and a 9223372036854775807 = 0 \<and> and b 9223372036854775807 = 0)))"

fun global_init_eq :: "GlobalInit \<Rightarrow> GlobalInit \<Rightarrow> bool" where
  "global_init_eq (GI_F32Const a) (GI_F32Const b) = f32_eq a b"
| "global_init_eq (GI_F64Const a) (GI_F64Const b) = f64_eq a b"
| "global_init_eq a b = (a = b)"

text \<open>Two \<open>IndexMap\<close>s are equal when they have the same entries, in whatever order.\<close>

definition indexmap_eq :: "('k \<times> 'v) list \<Rightarrow> ('k \<times> 'v) list \<Rightarrow> bool" where
  "indexmap_eq a b = (length a = length b \<and> list_all (\<lambda>(k, v). map_of b k = Some v) a)"

definition module_eq :: "ModuleInfo \<Rightarrow> ModuleInfo \<Rightarrow> bool" where
  "module_eq self other =
     (mi_name self = mi_name other \<and>
      indexmap_eq (mi_imports self) (mi_imports other) \<and>
      indexmap_eq (mi_exports self) (mi_exports other) \<and>
      mi_start_function self = mi_start_function other \<and>
      mi_table_initializers self = mi_table_initializers other \<and>
      mi_passive_elements self = mi_passive_elements other \<and>
      mi_passive_data self = mi_passive_data other \<and>
      list_all2 global_init_eq (mi_global_initializers self) (mi_global_initializers other) \<and>
      mi_function_names self = mi_function_names other \<and>
      mi_signatures self = mi_signatures other \<and>
      mi_functions self = mi_functions other \<and>
      mi_tables self = mi_tables other \<and>
      mi_memories self = mi_memories other \<and>
      mi_globals self = mi_globals other \<and>
      mi_tags self = mi_tags other \<and>
      indexmap_eq (mi_custom_sections self) (mi_custom_sections other) \<and>
      mi_custom_sections_data self = mi_custom_sections_data other \<and>
      mi_num_imported_functions self = mi_num_imported_functions other \<and>
      mi_num_imported_tables self = mi_num_imported_tables other \<and>
      mi_num_imported_tags self = mi_num_imported_tags other \<and>
      mi_num_imported_memories self = mi_num_imported_memories other \<and>
      mi_num_imported_globals self = mi_num_imported_globals other)"

subsection \<open>Exports, imports and sections\<close>

definition function_type_of :: "ModuleInfo \<Rightarrow> FunctionIndex \<Rightarrow> (FunctionType, 'e) outcome" where
  "function_type_of m i =
     bind_ok (unwrap (pm_get (mi_functions m) i)) (\<lambda>signature.
       unwrap (pm_get (mi_signatures m) signature))"

fun export_extern_type :: "ModuleInfo \<Rightarrow> ExportIndex \<Rightarrow> (ExternType, 'e) outcome" where
  "export_extern_type m (ExFunction i) =
     bind_ok (function_type_of m i) (\<lambda>t. Ok (EFunction t))"
| "export_extern_type m (ExTable i) =
     bind_ok (unwrap (pm_get (mi_tables m) i)) (\<lambda>t. Ok (ETable t))"
| "export_extern_type m (ExMemory i) =
     bind_ok (unwrap (pm_get (mi_memories m) i)) (\<lambda>t. Ok (EMemory t))"
| "export_extern_type m (ExGlobal i) =
     bind_ok (unwrap (pm_get (mi_globals m) i)) (\<lambda>t. Ok (EGlobal t))"
| "export_extern_type m (ExTag i) =
     bind_ok (unwrap (pm_get (mi_tags m) i)) (\<lambda>signature.
       bind_ok (unwrap (pm_get (mi_signatures m) signature)) (\<lambda>t.
         Ok (ETag \<lparr>tag_kind = Exception, tag_params = ft_params t\<rparr>)))"

definition module_exports :: "ModuleInfo \<Rightarrow> ((string \<times> ExternType) list, 'e) outcome" where
  "module_exports m =
     map_ok (\<lambda>(name, export_index).
       bind_ok (export_extern_type m export_index) (\<lambda>t. Ok (name, t))) (mi_exports m)"

fun import_extern_type :: "ModuleInfo \<Rightarrow> ImportIndex \<Rightarrow> (ExternType, 'e) outcome" where
  "import_extern_type m (ImFunction i) =
     bind_ok (function_type_of m i) (\<lambda>t. Ok (EFunction t))"
| "import_extern_type m (ImTable i) =
     bind_ok (unwrap (pm_get (mi_tables m) i)) (\<lambda>t. Ok (ETable t))"
| "import_extern_type m (ImMemory i) =
     bind_ok (unwrap (pm_get (mi_memories m) i)) (\<lambda>t. Ok (EMemory t))"
| "import_extern_type m (ImGlobal i) =
     bind_ok (unwrap (pm_get (mi_globals m) i)) (\<lambda>t. Ok (EGlobal t))"
| "import_extern_type m (ImTag i) =
     bind_ok (unwrap (pm_get (mi_tags m) i)) (\<lambda>tag_type.
       bind_ok (unwrap (pm_get (mi_signatures m) tag_type)) (\<lambda>t.
         Ok (ETag (tag_from_fn_type Exception t))))"

definition module_imports ::
  "ModuleInfo \<Rightarrow> ((string \<times> string \<times> ExternType) list, 'e) outcome" where
  "module_imports m =
     map_ok (\<lambda>(key, import_index).
       bind_ok (import_extern_type m import_index) (\<lambda>t. Ok (ik_module key, ik_field key, t)))
       (mi_imports m)"

definition exported_signatures :: "ModuleInfo \<Rightarrow> (FunctionType list, 'e) outcome" where
  "exported_signatures m =
     map_ok (function_type_of m)
       (concat (map (\<lambda>(_, e). case e of ExFunction i \<Rightarrow> [i] | _ \<Rightarrow> []) (mi_exports m)))"

definition get_passive_element :: "ModuleInfo \<Rightarrow> ElemIndex \<Rightarrow> FunctionIndex list option" where
  "get_passive_element m index = mi_passive_elements m index"

definition module_custom_sections :: "ModuleInfo \<Rightarrow> string \<Rightarrow> ((u8 list) list, 'e) outcome" where
  "module_custom_sections m name =
     map_ok (\<lambda>(_, section_index). pm_index (mi_custom_sections_data m) section_index)
       (filter (\<lambda>(section_name, _). section_name = name) (mi_custom_sections m))"

definition module_get_name :: "ModuleInfo \<Rightarrow> string" where
  "module_get_name m = (case mi_name m of Some name \<Rightarrow> name | None \<Rightarrow> ''<module>'')"

definition imported_function_types :: "ModuleInfo \<Rightarrow> (FunctionType list, 'e) outcome" where
  "imported_function_types m =
     map_ok (pm_index (mi_signatures m)) (take (mi_num_imported_functions m) (mi_functions m))"

definition get_function_name :: "ModuleInfo \<Rightarrow> FunctionIndex \<Rightarrow> string" where
  "get_function_name m func_index =
     (case mi_function_names m func_index of
        Some name \<Rightarrow> name
      | None \<Rightarrow> ''function_'' @ decimal (unat func_index))"

section \<open>Conversions between an index and a local index\<close>

fun map_new :: "usize option \<Rightarrow> (u32 option, 'e) outcome" where
  "map_new None = Ok None"
| "map_new (Some i) = bind_ok (entity_new i) (\<lambda>k. Ok (Some k))"

definition func_index :: "ModuleInfo \<Rightarrow> LocalFunctionIndex \<Rightarrow> (FunctionIndex, 'e) outcome" where
  "func_index m local_func =
     bind_ok (usize_add (mi_num_imported_functions m) (entity_index local_func)) entity_new"

definition local_func_index ::
  "ModuleInfo \<Rightarrow> FunctionIndex \<Rightarrow> (LocalFunctionIndex option, 'e) outcome" where
  "local_func_index m func =
     map_new (usize_checked_sub (entity_index func) (mi_num_imported_functions m))"

definition is_imported_function :: "ModuleInfo \<Rightarrow> FunctionIndex \<Rightarrow> bool" where
  "is_imported_function m index = (entity_index index < mi_num_imported_functions m)"

definition table_index :: "ModuleInfo \<Rightarrow> LocalTableIndex \<Rightarrow> (TableIndex, 'e) outcome" where
  "table_index m local_table =
     bind_ok (usize_add (mi_num_imported_tables m) (entity_index local_table)) entity_new"

definition local_table_index ::
  "ModuleInfo \<Rightarrow> TableIndex \<Rightarrow> (LocalTableIndex option, 'e) outcome" where
  "local_table_index m tbl =
     map_new (usize_checked_sub (entity_index tbl) (mi_num_imported_tables m))"

definition is_imported_table :: "ModuleInfo \<Rightarrow> TableIndex \<Rightarrow> bool" where
  "is_imported_table m index = (entity_index index < mi_num_imported_tables m)"

definition memory_index :: "ModuleInfo \<Rightarrow> LocalMemoryIndex \<Rightarrow> (MemoryIndex, 'e) outcome" where
  "memory_index m local_memory =
     bind_ok (usize_add (mi_num_imported_memories m) (entity_index local_memory)) entity_new"

definition local_memory_index ::
  "ModuleInfo \<Rightarrow> MemoryIndex \<Rightarrow> (LocalMemoryIndex option, 'e) outcome" where
  "local_memory_index m mem =
     map_new (usize_checked_sub (entity_index mem) (mi_num_imported_memories m))"

definition is_imported_memory :: "ModuleInfo \<Rightarrow> MemoryIndex \<Rightarrow> bool" where
  "is_imported_memory m index = (entity_index index < mi_num_imported_memories m)"

definition global_index :: "ModuleInfo \<Rightarrow> LocalGlobalIndex \<Rightarrow> (GlobalIndex, 'e) outcome" where
  "global_index m local_global =
     bind_ok (usize_add (mi_num_imported_globals m) (entity_index local_global)) entity_new"

definition local_global_index ::
  "ModuleInfo \<Rightarrow> GlobalIndex \<Rightarrow> (LocalGlobalIndex option, 'e) outcome" where
  "local_global_index m global =
     map_new (usize_checked_sub (entity_index global) (mi_num_imported_globals m))"

definition is_imported_global :: "ModuleInfo \<Rightarrow> GlobalIndex \<Rightarrow> bool" where
  "is_imported_global m index = (entity_index index < mi_num_imported_globals m)"

definition global_type :: "ModuleInfo \<Rightarrow> GlobalIndex \<Rightarrow> GlobalType option" where
  "global_type m index = pm_get (mi_globals m) index"

definition tag_index :: "ModuleInfo \<Rightarrow> LocalTagIndex \<Rightarrow> (TagIndex, 'e) outcome" where
  "tag_index m local_tag =
     bind_ok (usize_add (mi_num_imported_tags m) (entity_index local_tag)) entity_new"

definition local_tag_index ::
  "ModuleInfo \<Rightarrow> TagIndex \<Rightarrow> (LocalTagIndex option, 'e) outcome" where
  "local_tag_index m tag =
     map_new (usize_checked_sub (entity_index tag) (mi_num_imported_tags m))"

definition is_imported_tag :: "ModuleInfo \<Rightarrow> TagIndex \<Rightarrow> bool" where
  "is_imported_tag m index = (entity_index index < mi_num_imported_tags m)"

section \<open>The contract of an index space\<close>

locale index_space =
  fixes to_index :: "'m \<Rightarrow> u32 \<Rightarrow> (u32, 'e) outcome"
    and to_local :: "'m \<Rightarrow> u32 \<Rightarrow> (u32 option, 'e) outcome"
    and imported :: "'m \<Rightarrow> u32 \<Rightarrow> bool"
  assumes index_local: "to_index m l = Ok i \<Longrightarrow> to_local m i = Ok (Some l)"
    and local_index:
      "i \<noteq> reserved_value \<Longrightarrow> to_local m i = Ok (Some l) \<Longrightarrow> to_index m l = Ok i"
    and local_None: "(to_local m i = Ok None) = imported m i"
    and local_total: "i \<noteq> reserved_value \<Longrightarrow> \<exists>r. to_local m i = Ok r"
begin

lemma index_inj: "to_index m l = Ok i \<Longrightarrow> to_index m l' = Ok i \<Longrightarrow> l = l'"
  by (auto dest!: index_local)

lemma index_not_imported: "to_index m l = Ok i \<Longrightarrow> \<not> imported m i"
  by (auto dest!: index_local simp flip: local_None)

lemma index_exhaustive:
  assumes "i \<noteq> reserved_value"
  obtains (imported) "imported m i" "to_local m i = Ok None"
        | (local) l where "\<not> imported m i" "to_local m i = Ok (Some l)" "to_index m l = Ok i"
proof -
  obtain r where r: "to_local m i = Ok r" using local_total [OF assms] by blast
  then consider "r = None" | l where "r = Some l" by (cases r) auto
  then show thesis
  proof cases
    case 1
    with r have "imported m i" by (simp flip: local_None)
    with r 1 show thesis by (blast intro: that(1))
  next
    case (2 l)
    with r have to: "to_index m l = Ok i" using assms by (blast intro: local_index)
    with r 2 show thesis using that(2) [OF index_not_imported [OF to]] by blast
  qed
qed

lemma local_unique_iff:
  "i \<noteq> reserved_value \<Longrightarrow> (\<not> imported m i) = (\<exists>!l. to_index m l = Ok i)"
  by (metis index_exhaustive index_inj index_not_imported)

end

lemma map_new_eq [outcome_simps]:
  "(map_new v = Ok None) = (v = None)"
  "(map_new v = Ok (Some k)) = (\<exists>i. v = Some i \<and> entity_new i = (Ok k :: (_, unit) outcome))"
  by (cases v; auto simp: outcome_simps)+

text \<open>All five index spaces are one construction over the number of imported entities.\<close>

lemma index_space_of:
  fixes num :: "'m \<Rightarrow> usize"
  shows "index_space
     (\<lambda>m l. bind_ok (usize_add (num m) (entity_index l)) entity_new)
     (\<lambda>m i. map_new (usize_checked_sub (entity_index i) (num m)))
     (\<lambda>m i. entity_index i < num m)"
proof
  fix m :: 'm and i l :: u32
  note simps = outcome_simps usize_checked_sub_def entity_index_def
  have reserved: "unat i < 4294967295" if "i \<noteq> reserved_value"
  proof -
    from that have "unat i \<noteq> 4294967295" by (simp add: reserved_value_def word_unat_eq_iff)
    with unat_u32_less [of i] show ?thesis by linarith
  qed
  show "map_new (usize_checked_sub (entity_index i) (num m)) = Ok (Some l)"
    if "bind_ok (usize_add (num m) (entity_index l)) entity_new = Ok i"
    using that by (auto simp: simps entity_new_unat simp del: entity_new_eq)
  show "bind_ok (usize_add (num m) (entity_index l)) entity_new = Ok i"
    if "i \<noteq> reserved_value" "map_new (usize_checked_sub (entity_index i) (num m)) = Ok (Some l)"
    using that reserved
    by (auto simp: simps entity_new_unat simp del: entity_new_eq split: if_splits)
  show "(map_new (usize_checked_sub (entity_index i) (num m)) = Ok None) =
        (entity_index i < num m)"
    by (auto simp: simps)
  show "\<exists>r. map_new (usize_checked_sub (entity_index i) (num m)) = Ok r"
    if "i \<noteq> reserved_value"
    using reserved [OF that]
    by (auto simp: usize_checked_sub_def entity_index_def entity_new_def less_imp_diff_less)
qed

interpretation funcs: index_space func_index local_func_index is_imported_function
  using index_space_of [of mi_num_imported_functions]
  by (simp add: func_index_def [abs_def] local_func_index_def [abs_def]
      is_imported_function_def [abs_def])

interpretation tabs: index_space table_index local_table_index is_imported_table
  using index_space_of [of mi_num_imported_tables]
  by (simp add: table_index_def [abs_def] local_table_index_def [abs_def]
      is_imported_table_def [abs_def])

interpretation mems: index_space memory_index local_memory_index is_imported_memory
  using index_space_of [of mi_num_imported_memories]
  by (simp add: memory_index_def [abs_def] local_memory_index_def [abs_def]
      is_imported_memory_def [abs_def])

interpretation globs: index_space global_index local_global_index is_imported_global
  using index_space_of [of mi_num_imported_globals]
  by (simp add: global_index_def [abs_def] local_global_index_def [abs_def]
      is_imported_global_def [abs_def])

interpretation tags: index_space tag_index local_tag_index is_imported_tag
  using index_space_of [of mi_num_imported_tags]
  by (simp add: tag_index_def [abs_def] local_tag_index_def [abs_def]
      is_imported_tag_def [abs_def])

section \<open>Facts on the module description\<close>

text \<open>
  A module whose references are in range, which is what validation of the binary
  establishes: every export and import names an entity, every function and tag a signature.
\<close>

definition import_in_range :: "ModuleInfo \<Rightarrow> ImportIndex \<Rightarrow> bool" where
  "import_in_range m e = (case e of
     ImFunction i \<Rightarrow> pm_is_valid (mi_functions m) i
   | ImTable i \<Rightarrow> pm_is_valid (mi_tables m) i
   | ImMemory i \<Rightarrow> pm_is_valid (mi_memories m) i
   | ImTag i \<Rightarrow> pm_is_valid (mi_tags m) i
   | ImGlobal i \<Rightarrow> pm_is_valid (mi_globals m) i)"

fun export_as_import :: "ExportIndex \<Rightarrow> ImportIndex" where
  "export_as_import (ExFunction i) = ImFunction i"
| "export_as_import (ExTable i) = ImTable i"
| "export_as_import (ExMemory i) = ImMemory i"
| "export_as_import (ExTag i) = ImTag i"
| "export_as_import (ExGlobal i) = ImGlobal i"

definition module_in_range :: "ModuleInfo \<Rightarrow> bool" where
  "module_in_range m =
     (list_all (pm_is_valid (mi_signatures m)) (mi_functions m) \<and>
      list_all (pm_is_valid (mi_signatures m)) (mi_tags m) \<and>
      list_all (\<lambda>(_, e). import_in_range m (export_as_import e)) (mi_exports m) \<and>
      list_all (\<lambda>(_, e). import_in_range m e) (mi_imports m))"

text \<open>The type that an index denotes, read directly from the tables of the module.\<close>

definition entity_type :: "ModuleInfo \<Rightarrow> ImportIndex \<Rightarrow> ExternType" where
  "entity_type m e = (case e of
     ImFunction i \<Rightarrow>
       EFunction (mi_signatures m ! entity_index (mi_functions m ! entity_index i))
   | ImTable i \<Rightarrow> ETable (mi_tables m ! entity_index i)
   | ImMemory i \<Rightarrow> EMemory (mi_memories m ! entity_index i)
   | ImTag i \<Rightarrow>
       ETag \<lparr>tag_kind = Exception, tag_params =
         ft_params (mi_signatures m ! entity_index (mi_tags m ! entity_index i))\<rparr>
   | ImGlobal i \<Rightarrow> EGlobal (mi_globals m ! entity_index i))"

lemma import_extern_type_Ok:
  assumes "module_in_range m" and "import_in_range m e"
  shows "import_extern_type m e = Ok (entity_type m e)"
proof -
  from assms(1)
  have sig: "\<forall>i < length (mi_functions m).
      entity_index (mi_functions m ! i) < length (mi_signatures m)"
    and tag: "\<forall>i < length (mi_tags m).
      entity_index (mi_tags m ! i) < length (mi_signatures m)"
    by (auto simp: module_in_range_def list_all_length pm_is_valid_def)
  with assms(2) show ?thesis
    by (cases e)
      (auto simp: import_in_range_def entity_type_def pm_is_valid_def pm_get_def nth_opt_def
         function_type_of_def tag_from_fn_type_def)
qed

lemma export_extern_type_import:
  "export_extern_type m e = import_extern_type m (export_as_import e)"
  by (cases e) (simp_all add: tag_from_fn_type_def)

lemma module_imports_Ok:
  assumes "module_in_range m"
  shows "module_imports m =
    Ok (map (\<lambda>(key, e). (ik_module key, ik_field key, entity_type m e)) (mi_imports m))"
proof -
  from assms have "import_in_range m (snd x)" if "x \<in> set (mi_imports m)" for x
    using that by (auto simp: module_in_range_def list_all_iff)
  with assms show ?thesis
    unfolding module_imports_def
    by (intro map_ok_total) (auto simp: import_extern_type_Ok split: prod.splits)
qed

lemma module_exports_Ok:
  assumes "module_in_range m"
  shows "module_exports m =
    Ok (map (\<lambda>(name, e). (name, entity_type m (export_as_import e))) (mi_exports m))"
proof -
  from assms have "import_in_range m (export_as_import (snd x))" if "x \<in> set (mi_exports m)" for x
    using that by (auto simp: module_in_range_def list_all_iff)
  with assms show ?thesis
    unfolding module_exports_def
    by (intro map_ok_total)
      (auto simp: export_extern_type_import import_extern_type_Ok split: prod.splits)
qed

text \<open>Reading a serialised index map back.\<close>

lemma indexmap_insert_new: "k \<notin> fst ` set m \<Longrightarrow> indexmap_insert m k v = m @ [(k, v)]"
  by (induction m k v rule: indexmap_insert.induct) auto

lemma imports_deserialize_distinct:
  "distinct (map fst xs) \<Longrightarrow> imports_deserialize xs = xs"
proof -
  have "distinct (map fst (ys @ xs)) \<Longrightarrow>
      fold (\<lambda>(k, v) m. indexmap_insert m k v) xs ys = ys @ xs" for ys
    by (induction xs arbitrary: ys) (auto simp: indexmap_insert_new image_iff)
  from this [of "[]"] show "distinct (map fst xs) \<Longrightarrow> imports_deserialize xs = xs"
    by (simp add: imports_deserialize_def)
qed

lemma indexmap_eq_refl: "distinct (map fst xs) \<Longrightarrow> indexmap_eq xs xs"
  by (auto simp: indexmap_eq_def list_all_iff)

definition has_nan :: "GlobalInit \<Rightarrow> bool" where
  "has_nan g = (case g of GI_F32Const b \<Rightarrow> f32_is_nan b | GI_F64Const b \<Rightarrow> f64_is_nan b
                | _ \<Rightarrow> False)"

lemma global_init_eq_refl: "global_init_eq g g = (\<not> has_nan g)"
  by (cases g) (simp_all add: has_nan_def f32_eq_def f64_eq_def)

lemma module_roundtrip_fields:
  "module_from_archivable i (archivable_from_module m) = m\<lparr>mi_id := i\<rparr>"
  by (simp add: module_from_archivable_def archivable_from_module_def)

text \<open>The keys of the three index maps are distinct, as for every \<open>IndexMap\<close>.\<close>

definition indexmaps_ok :: "ModuleInfo \<Rightarrow> bool" where
  "indexmaps_ok m = (distinct (map fst (mi_imports m)) \<and> distinct (map fst (mi_exports m)) \<and>
     distinct (map fst (mi_custom_sections m)))"

section \<open>Properties\<close>



text \<open>
  The serde form of the import table reads back unchanged, order included.
\<close>

lemma imports_serde_roundtrip:
  assumes "distinct (map fst (mi_imports m))"
  shows "imports_deserialize (imports_serialize (mi_imports m)) = mi_imports m"
  using imports_deserialize_distinct [OF assms] by (simp add: imports_serialize_def)

text \<open>
  C13: On a module whose references are in range, \<open>exports()\<close> and \<open>imports()\<close> never panic and
  list, in order, each name with the type of the entity it stands for; the two directions
  agree on the type of every kind of entity, tags included.
\<close>

theorem module_exports_imports:
  assumes "module_in_range m"
  shows "module_exports m = (Ok (map (\<lambda>(name, e). (name, entity_type m (export_as_import e)))
             (mi_exports m)) :: (_, unit) outcome) \<and>
         module_imports m = (Ok (map (\<lambda>(key, e). (ik_module key, ik_field key, entity_type m e))
             (mi_imports m)) :: (_, unit) outcome)"
  using module_exports_Ok [OF assms] module_imports_Ok [OF assms] by simp

theorem module_exports_imports_witness:
  "module_exports ((module_new 0)\<lparr>mi_exports := [(''f'', ExFunction 1)],
     mi_signatures := [\<lparr>ft_params = [I32], ft_results = []\<rparr>], mi_functions := [0, 0]\<rparr>) =
   (Ok [(''f'', EFunction \<lparr>ft_params = [I32], ft_results = []\<rparr>)] :: (_, unit) outcome)"
  using module_exports_imports [of "(module_new 0)\<lparr>mi_exports := [(''f'', ExFunction 1)],
     mi_signatures := [\<lparr>ft_params = [I32], ft_results = []\<rparr>], mi_functions := [0, 0]\<rparr>"]
  by (simp add: module_new_def pm_new_def module_in_range_def import_in_range_def
      pm_is_valid_def entity_index_def entity_type_def)

text \<open>
  Every function index is either that of an imported function or the image of exactly
  one local index, and converting there and back is the identity; the same construction
  serves tables, memories, globals and tags.
\<close>

lemma function_index_space:
  assumes "i \<noteq> reserved_value"
  shows "is_imported_function m i \<and> local_func_index m i = (Ok None :: (_, unit) outcome) \<or>
         \<not> is_imported_function m i \<and>
           (\<exists>!l. func_index m l = (Ok i :: (_, unit) outcome)) \<and>
           (\<forall>l. func_index m l = (Ok i :: (_, unit) outcome) \<longrightarrow>
                local_func_index m i = (Ok (Some l) :: (_, unit) outcome))"
  using assms funcs.local_unique_iff [OF assms, of m] funcs.local_None [of m i]
  by (blast intro: funcs.index_local)

end
