(* ===== verification/VM_Builtins.thy ===== *)
theory VM_Builtins
  imports Prelude
begin

text \<open>
  The builtin functions that compiled code calls through the \<open>VMContext\<close>: their indices, from
  \<open>lib/types/src/vmoffsets.rs\<close>, and the table of their addresses that
  \<open>VMBuiltinFunctionsArray::initialized\<close> of \<open>lib/vm/src/vmcontext.rs\<close> fills.
\<close>

section \<open>Builtin functions\<close>

text \<open>The constructors of \<open>VMBuiltinFunctionIndex\<close>, one per \<open>get_..._index\<close> function.\<close>

datatype VMBuiltinFunctionIndex =
    get_memory32_grow_index
  | get_imported_memory32_grow_index
  | get_memory32_size_index
  | get_imported_memory32_size_index
  | get_table_copy_index
  | get_table_init_index
  | get_elem_drop_index
  | get_memory_copy_index
  | get_imported_memory_copy_index
  | get_memory_fill_index
  | get_imported_memory_fill_index
  | get_memory_init_index
  | get_data_drop_index
  | get_raise_trap_index
  | get_table_size_index
  | get_imported_table_size_index
  | get_table_grow_index
  | get_imported_table_grow_index
  | get_table_get_index
  | get_imported_table_get_index
  | get_table_set_index
  | get_imported_table_set_index
  | get_func_ref_index
  | get_table_fill_index
  | get_memory_atomic_wait32_index
  | get_imported_memory_atomic_wait32_index
  | get_memory_atomic_wait64_index
  | get_imported_memory_atomic_wait64_index
  | get_memory_atomic_notify_index
  | get_imported_memory_atomic_notify_index
  | get_imported_debug_usize_index
  | get_imported_debug_str_index
  | get_imported_personality2_index
  | get_imported_alloc_exception_index
  | get_imported_throw_index
  | get_imported_read_exnref_index
  | get_imported_exception_into_exnref_index

fun builtin_index :: "VMBuiltinFunctionIndex \<Rightarrow> nat" where
  "builtin_index get_memory32_grow_index = 0"
| "builtin_index get_imported_memory32_grow_index = 1"
| "builtin_index get_memory32_size_index = 2"
| "builtin_index get_imported_memory32_size_index = 3"
| "builtin_index get_table_copy_index = 4"
| "builtin_index get_table_init_index = 5"
| "builtin_index get_elem_drop_index = 6"
| "builtin_index get_memory_copy_index = 7"
| "builtin_index get_imported_memory_copy_index = 8"
| "builtin_index get_memory_fill_index = 9"
| "builtin_index get_imported_memory_fill_index = 10"
| "builtin_index get_memory_init_index = 11"
| "builtin_index get_data_drop_index = 12"
| "builtin_index get_raise_trap_index = 13"
| "builtin_index get_table_size_index = 14"
| "builtin_index get_imported_table_size_index = 15"
| "builtin_index get_table_grow_index = 16"
| "builtin_index get_imported_table_grow_index = 17"
| "builtin_index get_table_get_index = 18"
| "builtin_index get_imported_table_get_index = 19"
| "builtin_index get_table_set_index = 20"
| "builtin_index get_imported_table_set_index = 21"
| "builtin_index get_func_ref_index = 22"
| "builtin_index get_table_fill_index = 23"
| "builtin_index get_memory_atomic_wait32_index = 24"
| "builtin_index get_imported_memory_atomic_wait32_index = 25"
| "builtin_index get_memory_atomic_wait64_index = 26"
| "builtin_index get_imported_memory_atomic_wait64_index = 27"
| "builtin_index get_memory_atomic_notify_index = 28"
| "builtin_index get_imported_memory_atomic_notify_index = 29"
| "builtin_index get_imported_debug_usize_index = 30"
| "builtin_index get_imported_debug_str_index = 31"
| "builtin_index get_imported_personality2_index = 32"
| "builtin_index get_imported_alloc_exception_index = 33"
| "builtin_index get_imported_throw_index = 34"
| "builtin_index get_imported_read_exnref_index = 35"
| "builtin_index get_imported_exception_into_exnref_index = 36"

definition builtin_functions_total_number :: nat where
  "builtin_functions_total_number = 37"

text \<open>The runtime functions that the table points to.\<close>

datatype builtin_fn =
    wasmer_vm_memory32_grow
  | wasmer_vm_imported_memory32_grow
  | wasmer_vm_memory32_size
  | wasmer_vm_imported_memory32_size
  | wasmer_vm_table_copy
  | wasmer_vm_table_init
  | wasmer_vm_elem_drop
  | wasmer_vm_memory32_copy
  | wasmer_vm_imported_memory32_copy
  | wasmer_vm_memory32_fill
  | wasmer_vm_imported_memory32_fill
  | wasmer_vm_memory32_init
  | wasmer_vm_data_drop
  | wasmer_vm_raise_trap
  | wasmer_vm_table_size
  | wasmer_vm_imported_table_size
  | wasmer_vm_table_grow
  | wasmer_vm_imported_table_grow
  | wasmer_vm_table_get
  | wasmer_vm_imported_table_get
  | wasmer_vm_table_set
  | wasmer_vm_imported_table_set
  | wasmer_vm_func_ref
  | wasmer_vm_table_fill
  | wasmer_vm_memory32_atomic_wait32
  | wasmer_vm_imported_memory32_atomic_wait32
  | wasmer_vm_memory32_atomic_wait64
  | wasmer_vm_imported_memory32_atomic_wait64
  | wasmer_vm_memory32_atomic_notify
  | wasmer_vm_imported_memory32_atomic_notify
  | wasmer_vm_dbg_usize
  | wasmer_vm_dbg_str
  | wasmer_eh_personality2
  | wasmer_vm_alloc_exception
  | wasmer_vm_throw
  | wasmer_vm_read_exnref
  | wasmer_vm_exception_into_exnref

text \<open>
  \<open>VMBuiltinFunctionsArray::initialized\<close>: the writes in program order into an array of nulls.
  \<open>addr\<close> gives the address of each runtime function.
\<close>

definition builtin_writes :: "(VMBuiltinFunctionIndex \<times> builtin_fn) list" where
  "builtin_writes =
    [(get_memory32_grow_index, wasmer_vm_memory32_grow),
     (get_imported_memory32_grow_index, wasmer_vm_imported_memory32_grow),
     (get_memory32_size_index, wasmer_vm_memory32_size),
     (get_imported_memory32_size_index, wasmer_vm_imported_memory32_size),
     (get_table_copy_index, wasmer_vm_table_copy),
     (get_table_init_index, wasmer_vm_table_init),
     (get_elem_drop_index, wasmer_vm_elem_drop),
     (get_memory_copy_index, wasmer_vm_memory32_copy),
     (get_imported_memory_copy_index, wasmer_vm_imported_memory32_copy),
     (get_memory_fill_index, wasmer_vm_memory32_fill),
     (get_imported_memory_fill_index, wasmer_vm_imported_memory32_fill),
     (get_memory_init_index, wasmer_vm_memory32_init),
     (get_data_drop_index, wasmer_vm_data_drop),
     (get_raise_trap_index, wasmer_vm_raise_trap),
     (get_table_size_index, wasmer_vm_table_size),
     (get_imported_table_size_index, wasmer_vm_imported_table_size),
     (get_table_grow_index, wasmer_vm_table_grow),
     (get_imported_table_grow_index, wasmer_vm_imported_table_grow),
     (get_table_get_index, wasmer_vm_table_get),
     (get_imported_table_get_index, wasmer_vm_imported_table_get),
     (get_table_set_index, wasmer_vm_table_set),
     (get_imported_table_set_index, wasmer_vm_imported_table_set),
     (get_func_ref_index, wasmer_vm_func_ref),
     (get_table_fill_index, wasmer_vm_table_fill),
     (get_memory_atomic_wait32_index, wasmer_vm_memory32_atomic_wait32),
     (get_imported_memory_atomic_wait32_index, wasmer_vm_imported_memory32_atomic_wait32),
     (get_memory_atomic_wait64_index, wasmer_vm_memory32_atomic_wait64),
     (get_imported_memory_atomic_wait64_index, wasmer_vm_imported_memory32_atomic_wait64),
     (get_memory_atomic_notify_index, wasmer_vm_memory32_atomic_notify),
     (get_imported_memory_atomic_notify_index, wasmer_vm_imported_memory32_atomic_notify),
     (get_imported_debug_usize_index, wasmer_vm_dbg_usize),
     (get_imported_debug_str_index, wasmer_vm_dbg_str),
     (get_imported_personality2_index, wasmer_eh_personality2),
     (get_imported_alloc_exception_index, wasmer_vm_alloc_exception),
     (get_imported_throw_index, wasmer_vm_throw),
     (get_imported_read_exnref_index, wasmer_vm_read_exnref),
     (get_imported_exception_into_exnref_index, wasmer_vm_exception_into_exnref)]"

fun store_ptrs ::
  "(builtin_fn \<Rightarrow> usize) \<Rightarrow> usize list \<Rightarrow> (VMBuiltinFunctionIndex \<times> builtin_fn) list \<Rightarrow>
    (usize list, unit) outcome" where
  "store_ptrs addr ptrs [] = Ok ptrs"
| "store_ptrs addr ptrs ((i, f) # ws) =
     bind_ok (assert_that (builtin_index i < length ptrs)) (\<lambda>_.
       store_ptrs addr (ptrs[builtin_index i := addr f]) ws)"

definition builtins_initialized :: "(builtin_fn \<Rightarrow> usize) \<Rightarrow> (usize list, unit) outcome" where
  "builtins_initialized addr =
     bind_ok (store_ptrs addr (replicate builtin_functions_total_number 0) builtin_writes) (\<lambda>ptrs.
       bind_ok (assert_that (list_all (\<lambda>p. p \<noteq> 0) ptrs)) (\<lambda>_. Ok ptrs))"

section \<open>Facts\<close>

lemma builtin_index_less: "builtin_index b < builtin_functions_total_number"
  by (cases b) (simp_all add: builtin_functions_total_number_def)

lemma builtin_index_inj: "builtin_index a = builtin_index b \<Longrightarrow> a = b"
  by (cases a; cases b; simp)

lemma store_ptrs_Ok:
  "\<forall>(i, f) \<in> set ws. builtin_index i < length ptrs \<Longrightarrow> distinct (map fst ws) \<Longrightarrow>
   \<exists>ptrs'. store_ptrs addr ptrs ws = Ok ptrs' \<and> length ptrs' = length ptrs \<and>
     (\<forall>(i, f) \<in> set ws. ptrs' ! builtin_index i = addr f) \<and>
     (\<forall>i. i \<notin> fst ` set ws \<longrightarrow> ptrs' ! builtin_index i = ptrs ! builtin_index i)"
proof (induction ws arbitrary: ptrs)
  case (Cons w ws)
  obtain i f where w: "w = (i, f)" by (cases w)
  let ?ptrs = "ptrs[builtin_index i := addr f]"
  have "\<forall>(j, g) \<in> set ws. builtin_index j < length ?ptrs" "distinct (map fst ws)"
    using Cons.prems by auto
  from Cons.IH [OF this] obtain ptrs' where
    run: "store_ptrs addr ?ptrs ws = Ok ptrs'" and len: "length ptrs' = length ?ptrs" and
    set: "\<forall>(j, g) \<in> set ws. ptrs' ! builtin_index j = addr g" and
    frame: "\<forall>j. j \<notin> fst ` set ws \<longrightarrow> ptrs' ! builtin_index j = ?ptrs ! builtin_index j"
    by blast
  have i: "i \<notin> fst ` set ws" "builtin_index i < length ptrs" using Cons.prems w by auto
  have "ptrs' ! builtin_index i = addr f" using frame i by simp
  moreover have "ptrs' ! builtin_index j = ptrs ! builtin_index j"
    if "j \<notin> fst ` set (w # ws)" for j
  proof -
    from that w have "builtin_index i \<noteq> builtin_index j" using builtin_index_inj by auto
    with that frame w show ?thesis by simp
  qed
  ultimately show ?case using run len set i w by auto
qed simp

lemma builtin_writes_distinct: "distinct (map fst builtin_writes)"
  by (simp add: builtin_writes_def)

lemma builtin_writes_total: "\<exists>f. (b, f) \<in> set builtin_writes"
  by (cases b) (simp_all add: builtin_writes_def)

lemma builtin_index_onto: "i < 37 \<Longrightarrow> \<exists>b. builtin_index b = i"
proof -
  assume "i < 37"
  moreover have "list_all (\<lambda>i. i \<in> builtin_index ` fst ` set builtin_writes) [0..<37]"
    by (simp add: builtin_writes_def upt_rec)
  ultimately have "i \<in> builtin_index ` fst ` set builtin_writes" by (simp add: list_all_iff)
  then show ?thesis by blast
qed

section \<open>Properties\<close>

text \<open>
  The table of builtin functions is filled completely and consistently. If no runtime
  function has a null address, initialisation succeeds, its final assertion included, and
  the entry at the index of every builtin holds the address of the function that the code
  assigns to it; the indices are exactly the positions of the table, each used once.
\<close>

lemma builtins_table_correct:
  assumes "\<And>f. addr f \<noteq> 0"
  shows "\<exists>ptrs. builtins_initialized addr = Ok ptrs \<and>
     length ptrs = builtin_functions_total_number \<and>
     (\<forall>(b, f) \<in> set builtin_writes. ptrs ! builtin_index b = addr f) \<and>
     bij_betw builtin_index UNIV {..<builtin_functions_total_number}"
proof -
  let ?zero = "replicate builtin_functions_total_number 0"
  obtain ptrs where run: "store_ptrs addr ?zero builtin_writes = Ok ptrs"
    and len: "length ptrs = builtin_functions_total_number"
    and set: "\<forall>(b, f) \<in> set builtin_writes. ptrs ! builtin_index b = addr f"
    using store_ptrs_Ok [of builtin_writes ?zero addr] builtin_writes_distinct builtin_index_less
    by auto
  have "ptrs ! i \<noteq> 0" if "i < length ptrs" for i
  proof -
    from that len obtain b where b: "builtin_index b = i"
      using builtin_index_onto by (auto simp: builtin_functions_total_number_def)
    obtain f where "(b, f) \<in> set builtin_writes" using builtin_writes_total by blast
    with set b have "ptrs ! i = addr f" by auto
    with assms show ?thesis by simp
  qed
  then have "list_all (\<lambda>p. p \<noteq> 0) ptrs" by (simp add: list_all_length)
  then have "builtins_initialized addr = Ok ptrs"
    by (simp add: builtins_initialized_def run)
  moreover have "bij_betw builtin_index UNIV {..<builtin_functions_total_number}"
    using builtin_index_onto builtin_index_less
    by (auto simp: bij_betw_def inj_on_def builtin_functions_total_number_def
        dest: builtin_index_inj)
  ultimately show ?thesis using len set by blast
qed

end
