(* ===== verification/VM_Offsets.thy ===== *)
theory VM_Offsets
  imports Module_Info VM_Builtins
begin

text \<open>
  The layout of the \<open>VMContext\<close> structure that compiled code reads,
  \<open>lib/types/src/vmoffsets.rs\<close>. Offsets and sizes are natural
  numbers with the bound of their type written out: \<open>u32_add\<close>, \<open>u32_mul\<close> and \<open>u8_mul\<close> panic on
  overflow, as \<open>checked_add(..).unwrap()\<close> and \<open>checked_mul(..).unwrap()\<close> do; nothing here returns an
  error value. The predicate
  \<open>packed\<close> on lists of segments carries the layout proofs.
\<close>

section \<open>Arithmetic on offsets\<close>

definition u32_add :: "nat \<Rightarrow> nat \<Rightarrow> (nat, unit) outcome" where
  "u32_add a b = (if a + b < 2 ^ 32 then Ok (a + b) else Panic)"

definition u32_mul :: "nat \<Rightarrow> nat \<Rightarrow> (nat, unit) outcome" where
  "u32_mul a b = (if a * b < 2 ^ 32 then Ok (a * b) else Panic)"

definition u8_mul :: "nat \<Rightarrow> nat \<Rightarrow> (nat, unit) outcome" where
  "u8_mul a b = (if a * b < 2 ^ 8 then Ok (a * b) else Panic)"

definition cast_to_u32 :: "usize \<Rightarrow> (nat, unit) outcome" where
  "cast_to_u32 sz = (if sz < 2 ^ 32 then Ok sz else Panic)"

text \<open>\<open>div_ceil\<close> panics on a zero width.\<close>

definition align :: "nat \<Rightarrow> nat \<Rightarrow> (nat, unit) outcome" where
  "align offset width =
     bind_ok (assert_that (width \<noteq> 0)) (\<lambda>_.
       u32_mul (offset div width + (if offset mod width = 0 then 0 else 1)) width)"

section \<open>VMOffsets\<close>

record VMOffsets =
  pointer_size :: nat
  num_signature_ids :: nat
  num_imported_functions :: nat
  num_imported_tables :: nat
  num_imported_memories :: nat
  num_tag_ids :: nat
  num_imported_globals :: nat
  num_local_tables :: nat
  num_local_memories :: nat
  num_local_globals :: nat
  vmctx_signature_ids_begin :: nat
  vmctx_imported_functions_begin :: nat
  vmctx_imported_tables_begin :: nat
  vmctx_imported_memories_begin :: nat
  vmctx_tag_ids_begin :: nat
  vmctx_imported_globals_begin :: nat
  vmctx_tables_begin :: nat
  vmctx_memories_begin :: nat
  vmctx_globals_begin :: nat
  vmctx_builtin_functions_begin :: nat
  vmctx_trap_handler_begin :: nat
  vmctx_gas_limiter_pointer :: nat
  vmctx_stack_limit_begin :: nat
  vmctx_stack_limit_initial_begin :: nat
  size_of_vmctx :: nat

subsection \<open>Sizes and field offsets of the structures shared with compiled code\<close>

definition vmfunction_import_body :: "VMOffsets \<Rightarrow> (nat, unit) outcome" where
  "vmfunction_import_body self = u8_mul 0 (pointer_size self)"

definition vmfunction_import_vmctx :: "VMOffsets \<Rightarrow> (nat, unit) outcome" where
  "vmfunction_import_vmctx self = u8_mul 1 (pointer_size self)"

definition vmfunction_import_handle :: "VMOffsets \<Rightarrow> (nat, unit) outcome" where
  "vmfunction_import_handle self = u8_mul 2 (pointer_size self)"

definition vmfunction_import_include_m0_param :: "VMOffsets \<Rightarrow> (nat, unit) outcome" where
  "vmfunction_import_include_m0_param self = u8_mul 3 (pointer_size self)"

definition size_of_vmfunction_import :: "VMOffsets \<Rightarrow> (nat, unit) outcome" where
  "size_of_vmfunction_import self = u8_mul 4 (pointer_size self)"

definition vmdynamicfunction_import_context_address :: "VMOffsets \<Rightarrow> (nat, unit) outcome" where
  "vmdynamicfunction_import_context_address self = u8_mul 0 (pointer_size self)"

definition vmdynamicfunction_import_context_ctx :: "VMOffsets \<Rightarrow> (nat, unit) outcome" where
  "vmdynamicfunction_import_context_ctx self = u8_mul 1 (pointer_size self)"

definition size_of_vmdynamicfunction_import_context :: "VMOffsets \<Rightarrow> (nat, unit) outcome" where
  "size_of_vmdynamicfunction_import_context self = u8_mul 2 (pointer_size self)"

definition size_of_vmfunction_body_ptr :: "VMOffsets \<Rightarrow> (nat, unit) outcome" where
  "size_of_vmfunction_body_ptr self = u8_mul 1 (pointer_size self)"

definition vmtable_import_definition :: "VMOffsets \<Rightarrow> (nat, unit) outcome" where
  "vmtable_import_definition self = u8_mul 0 (pointer_size self)"

definition vmtable_import_handle :: "VMOffsets \<Rightarrow> (nat, unit) outcome" where
  "vmtable_import_handle self = u8_mul 1 (pointer_size self)"

definition size_of_vmtable_import :: "VMOffsets \<Rightarrow> (nat, unit) outcome" where
  "size_of_vmtable_import self = u8_mul 2 (pointer_size self)"

definition vmtable_definition_base :: "VMOffsets \<Rightarrow> (nat, unit) outcome" where
  "vmtable_definition_base self = u8_mul 0 (pointer_size self)"

definition vmtable_definition_current_elements :: "VMOffsets \<Rightarrow> (nat, unit) outcome" where
  "vmtable_definition_current_elements self = u8_mul 1 (pointer_size self)"

definition size_of_vmtable_definition_current_elements :: "VMOffsets \<Rightarrow> (nat, unit) outcome" where
  "size_of_vmtable_definition_current_elements self = Ok 4"

definition size_of_vmtable_definition :: "VMOffsets \<Rightarrow> (nat, unit) outcome" where
  "size_of_vmtable_definition self = u8_mul 2 (pointer_size self)"

definition vmmemory_import_definition :: "VMOffsets \<Rightarrow> (nat, unit) outcome" where
  "vmmemory_import_definition self = u8_mul 0 (pointer_size self)"

definition vmmemory_import_handle :: "VMOffsets \<Rightarrow> (nat, unit) outcome" where
  "vmmemory_import_handle self = u8_mul 1 (pointer_size self)"

definition size_of_vmmemory_import :: "VMOffsets \<Rightarrow> (nat, unit) outcome" where
  "size_of_vmmemory_import self = u8_mul 2 (pointer_size self)"

definition vmmemory_definition_base :: "VMOffsets \<Rightarrow> (nat, unit) outcome" where
  "vmmemory_definition_base self = u8_mul 0 (pointer_size self)"

definition vmmemory_definition_current_length :: "VMOffsets \<Rightarrow> (nat, unit) outcome" where
  "vmmemory_definition_current_length self = u8_mul 1 (pointer_size self)"

definition size_of_vmmemory_definition_current_length :: "VMOffsets \<Rightarrow> (nat, unit) outcome" where
  "size_of_vmmemory_definition_current_length self = Ok 4"

definition size_of_vmmemory_definition :: "VMOffsets \<Rightarrow> (nat, unit) outcome" where
  "size_of_vmmemory_definition self = u8_mul 2 (pointer_size self)"

definition vmglobal_import_definition :: "VMOffsets \<Rightarrow> (nat, unit) outcome" where
  "vmglobal_import_definition self = u8_mul 0 (pointer_size self)"

definition vmglobal_import_handle :: "VMOffsets \<Rightarrow> (nat, unit) outcome" where
  "vmglobal_import_handle self = u8_mul 1 (pointer_size self)"

definition size_of_vmglobal_import :: "VMOffsets \<Rightarrow> (nat, unit) outcome" where
  "size_of_vmglobal_import self = u8_mul 2 (pointer_size self)"

definition size_of_vmglobal_local :: "VMOffsets \<Rightarrow> (nat, unit) outcome" where
  "size_of_vmglobal_local self = Ok (pointer_size self)"

definition size_of_vmshared_signature_index :: "VMOffsets \<Rightarrow> (nat, unit) outcome" where
  "size_of_vmshared_signature_index self = Ok 4"

definition vmcaller_checked_anyfunc_func_ptr :: "VMOffsets \<Rightarrow> (nat, unit) outcome" where
  "vmcaller_checked_anyfunc_func_ptr self = u8_mul 0 (pointer_size self)"

definition vmcaller_checked_anyfunc_type_index :: "VMOffsets \<Rightarrow> (nat, unit) outcome" where
  "vmcaller_checked_anyfunc_type_index self = u8_mul 1 (pointer_size self)"

definition vmcaller_checked_anyfunc_vmctx :: "VMOffsets \<Rightarrow> (nat, unit) outcome" where
  "vmcaller_checked_anyfunc_vmctx self = u8_mul 2 (pointer_size self)"

definition vmcaller_checked_anyfunc_call_trampoline :: "VMOffsets \<Rightarrow> (nat, unit) outcome" where
  "vmcaller_checked_anyfunc_call_trampoline self = u8_mul 3 (pointer_size self)"

definition size_of_vmcaller_checked_anyfunc :: "VMOffsets \<Rightarrow> (nat, unit) outcome" where
  "size_of_vmcaller_checked_anyfunc self = u8_mul 4 (pointer_size self)"

definition vm_funcref_anyfunc_ptr :: "VMOffsets \<Rightarrow> (nat, unit) outcome" where
  "vm_funcref_anyfunc_ptr self = u8_mul 0 (pointer_size self)"

definition size_of_vm_funcref :: "VMOffsets \<Rightarrow> (nat, unit) outcome" where
  "size_of_vm_funcref self = u8_mul 1 (pointer_size self)"

definition size_of_vmshared_tag_index :: "VMOffsets \<Rightarrow> (nat, unit) outcome" where
  "size_of_vmshared_tag_index self = Ok 4"

subsection \<open>Construction\<close>

definition offset_by :: "nat \<Rightarrow> nat \<Rightarrow> (nat, unit) outcome \<Rightarrow> (nat, unit) outcome" where
  "offset_by base num_items item_size =
     bind_ok item_size (\<lambda>s. bind_ok (u32_mul num_items s) (\<lambda>m. u32_add base m))"

definition offset_by_aligned ::
  "nat \<Rightarrow> nat \<Rightarrow> nat \<Rightarrow> (nat, unit) outcome \<Rightarrow> (nat, unit) outcome" where
  "offset_by_aligned ptr_size base num_items item_size =
     bind_ok (offset_by base num_items item_size) (\<lambda>o'. align o' ptr_size)"

text \<open>
  The fields are computed in the order of the source, each from the one before it, and
  stored together at the end; no field that is read is one that is written.
\<close>

definition precompute :: "VMOffsets \<Rightarrow> (VMOffsets, unit) outcome" where
  "precompute self =
    (let ptr_size = pointer_size self; signature_ids_begin = 0 in
     bind_ok (offset_by_aligned ptr_size signature_ids_begin (num_signature_ids self)
         (size_of_vmshared_signature_index self)) (\<lambda>imported_functions_begin.
     bind_ok (offset_by_aligned ptr_size imported_functions_begin (num_imported_functions self)
         (size_of_vmfunction_import self)) (\<lambda>imported_tables_begin.
     bind_ok (offset_by_aligned ptr_size imported_tables_begin (num_imported_tables self)
         (size_of_vmtable_import self)) (\<lambda>imported_memories_begin.
     bind_ok (offset_by_aligned ptr_size imported_memories_begin (num_imported_memories self)
         (size_of_vmmemory_import self)) (\<lambda>tag_ids_begin.
     bind_ok (offset_by_aligned ptr_size tag_ids_begin (num_tag_ids self)
         (size_of_vmshared_tag_index self)) (\<lambda>imported_globals_begin.
     bind_ok (offset_by_aligned ptr_size imported_globals_begin (num_imported_globals self)
         (size_of_vmglobal_import self)) (\<lambda>tables_begin.
     bind_ok (offset_by_aligned ptr_size tables_begin (num_local_tables self)
         (size_of_vmtable_definition self)) (\<lambda>memories_begin.
     bind_ok (bind_ok (offset_by memories_begin (num_local_memories self)
         (size_of_vmmemory_definition self)) (\<lambda>o'. align o' 16)) (\<lambda>globals_begin.
     bind_ok (offset_by globals_begin (num_local_globals self)
         (size_of_vmglobal_local self)) (\<lambda>builtin_functions_begin.
     bind_ok (offset_by builtin_functions_begin builtin_functions_total_number
         (Ok (pointer_size self))) (\<lambda>trap_handler_begin.
     bind_ok (offset_by trap_handler_begin 1 (Ok (pointer_size self))) (\<lambda>gas_limiter_pointer.
     bind_ok (offset_by gas_limiter_pointer 1 (Ok (pointer_size self))) (\<lambda>stack_limit_begin.
     bind_ok (u32_add stack_limit_begin 4) (\<lambda>stack_limit_initial_begin.
     bind_ok (u32_add stack_limit_begin 4) (\<lambda>size.
       Ok (self\<lparr>vmctx_signature_ids_begin := signature_ids_begin,
         vmctx_imported_functions_begin := imported_functions_begin,
         vmctx_imported_tables_begin := imported_tables_begin,
         vmctx_imported_memories_begin := imported_memories_begin,
         vmctx_tag_ids_begin := tag_ids_begin,
         vmctx_imported_globals_begin := imported_globals_begin,
         vmctx_tables_begin := tables_begin,
         vmctx_memories_begin := memories_begin,
         vmctx_globals_begin := globals_begin,
         vmctx_builtin_functions_begin := builtin_functions_begin,
         vmctx_trap_handler_begin := trap_handler_begin,
         vmctx_gas_limiter_pointer := gas_limiter_pointer,
         vmctx_stack_limit_begin := stack_limit_begin,
         vmctx_stack_limit_initial_begin := stack_limit_initial_begin,
         size_of_vmctx := size\<rparr>))))))))))))))))"

definition new_for_trampolines :: "nat \<Rightarrow> VMOffsets" where
  "new_for_trampolines ptr_size = \<lparr>
     pointer_size = ptr_size, num_signature_ids = 0, num_imported_functions = 0,
     num_imported_tables = 0, num_imported_memories = 0, num_tag_ids = 0,
     num_imported_globals = 0, num_local_tables = 0, num_local_memories = 0,
     num_local_globals = 0, vmctx_signature_ids_begin = 0, vmctx_imported_functions_begin = 0,
     vmctx_imported_tables_begin = 0, vmctx_imported_memories_begin = 0,
     vmctx_tag_ids_begin = 0, vmctx_imported_globals_begin = 0, vmctx_tables_begin = 0,
     vmctx_memories_begin = 0, vmctx_globals_begin = 0, vmctx_builtin_functions_begin = 0,
     vmctx_trap_handler_begin = 0, vmctx_gas_limiter_pointer = 0, vmctx_stack_limit_begin = 0,
     vmctx_stack_limit_initial_begin = 0, size_of_vmctx = 0\<rparr>"

definition vmoffsets_new :: "nat \<Rightarrow> ModuleInfo \<Rightarrow> (VMOffsets, unit) outcome" where
  "vmoffsets_new ptr_size module =
     bind_ok (cast_to_u32 (pm_len (mi_signatures module))) (\<lambda>sigs.
     bind_ok (cast_to_u32 (mi_num_imported_functions module)) (\<lambda>ifuncs.
     bind_ok (cast_to_u32 (mi_num_imported_tables module)) (\<lambda>itabs.
     bind_ok (cast_to_u32 (mi_num_imported_memories module)) (\<lambda>imems.
     bind_ok (cast_to_u32 (pm_len (mi_tags module))) (\<lambda>tgs.
     bind_ok (cast_to_u32 (mi_num_imported_globals module)) (\<lambda>iglobs.
     bind_ok (cast_to_u32 (pm_len (mi_tables module))) (\<lambda>tbls.
     bind_ok (cast_to_u32 (pm_len (mi_memories module))) (\<lambda>mms.
     bind_ok (cast_to_u32 (pm_len (mi_globals module))) (\<lambda>globs.
       precompute ((new_for_trampolines ptr_size)\<lparr>
         num_signature_ids := sigs, num_imported_functions := ifuncs,
         num_imported_tables := itabs, num_imported_memories := imems, num_tag_ids := tgs,
         num_imported_globals := iglobs, num_local_tables := tbls, num_local_memories := mms,
         num_local_globals := globs\<rparr>))))))))))"

subsection \<open>Offsets of the elements\<close>

definition vmctx_vmshared_signature_id :: "VMOffsets \<Rightarrow> u32 \<Rightarrow> (nat, unit) outcome" where
  "vmctx_vmshared_signature_id self index =
     bind_ok (assert_that (unat index < num_signature_ids self)) (\<lambda>_.
       offset_by (vmctx_signature_ids_begin self) (unat index) (size_of_vmshared_signature_index self))"

definition vmctx_vmfunction_import :: "VMOffsets \<Rightarrow> u32 \<Rightarrow> (nat, unit) outcome" where
  "vmctx_vmfunction_import self index =
     bind_ok (assert_that (unat index < num_imported_functions self)) (\<lambda>_.
       offset_by (vmctx_imported_functions_begin self) (unat index) (size_of_vmfunction_import self))"

definition vmctx_vmtable_import :: "VMOffsets \<Rightarrow> u32 \<Rightarrow> (nat, unit) outcome" where
  "vmctx_vmtable_import self index =
     bind_ok (assert_that (unat index < num_imported_tables self)) (\<lambda>_.
       offset_by (vmctx_imported_tables_begin self) (unat index) (size_of_vmtable_import self))"

definition vmctx_vmmemory_import :: "VMOffsets \<Rightarrow> u32 \<Rightarrow> (nat, unit) outcome" where
  "vmctx_vmmemory_import self index =
     bind_ok (assert_that (unat index < num_imported_memories self)) (\<lambda>_.
       offset_by (vmctx_imported_memories_begin self) (unat index) (size_of_vmmemory_import self))"

definition vmctx_vmglobal_import :: "VMOffsets \<Rightarrow> u32 \<Rightarrow> (nat, unit) outcome" where
  "vmctx_vmglobal_import self index =
     bind_ok (assert_that (unat index < num_imported_globals self)) (\<lambda>_.
       offset_by (vmctx_imported_globals_begin self) (unat index) (size_of_vmglobal_import self))"

definition vmctx_vmtable_definition :: "VMOffsets \<Rightarrow> u32 \<Rightarrow> (nat, unit) outcome" where
  "vmctx_vmtable_definition self index =
     bind_ok (assert_that (unat index < num_local_tables self)) (\<lambda>_.
       offset_by (vmctx_tables_begin self) (unat index) (size_of_vmtable_definition self))"

definition vmctx_vmmemory_definition :: "VMOffsets \<Rightarrow> u32 \<Rightarrow> (nat, unit) outcome" where
  "vmctx_vmmemory_definition self index =
     bind_ok (assert_that (unat index < num_local_memories self)) (\<lambda>_.
       offset_by (vmctx_memories_begin self) (unat index) (size_of_vmmemory_definition self))"

definition vmctx_vmglobal_definition :: "VMOffsets \<Rightarrow> u32 \<Rightarrow> (nat, unit) outcome" where
  "vmctx_vmglobal_definition self index =
     bind_ok (assert_that (unat index < num_local_globals self)) (\<lambda>_.
       offset_by (vmctx_globals_begin self) (unat index) (size_of_vmglobal_local self))"

definition plus_field :: "(nat, unit) outcome \<Rightarrow> (nat, unit) outcome \<Rightarrow> (nat, unit) outcome" where
  "plus_field element field = bind_ok element (\<lambda>e. bind_ok field (\<lambda>f. u32_add e f))"

definition vmctx_vmfunction_import_body :: "VMOffsets \<Rightarrow> u32 \<Rightarrow> (nat, unit) outcome" where
  "vmctx_vmfunction_import_body self index =
     plus_field (vmctx_vmfunction_import self index) (vmfunction_import_body self)"

definition vmctx_vmfunction_import_vmctx :: "VMOffsets \<Rightarrow> u32 \<Rightarrow> (nat, unit) outcome" where
  "vmctx_vmfunction_import_vmctx self index =
     plus_field (vmctx_vmfunction_import self index) (vmfunction_import_vmctx self)"

definition vmctx_vmtable_import_definition :: "VMOffsets \<Rightarrow> u32 \<Rightarrow> (nat, unit) outcome" where
  "vmctx_vmtable_import_definition self index =
     plus_field (vmctx_vmtable_import self index) (vmtable_import_definition self)"

definition vmctx_vmtable_definition_base :: "VMOffsets \<Rightarrow> u32 \<Rightarrow> (nat, unit) outcome" where
  "vmctx_vmtable_definition_base self index =
     plus_field (vmctx_vmtable_definition self index) (vmtable_definition_base self)"

definition vmctx_vmtable_definition_current_elements :: "VMOffsets \<Rightarrow> u32 \<Rightarrow> (nat, unit) outcome" where
  "vmctx_vmtable_definition_current_elements self index =
     plus_field (vmctx_vmtable_definition self index) (vmtable_definition_current_elements self)"

definition vmctx_vmmemory_import_definition :: "VMOffsets \<Rightarrow> u32 \<Rightarrow> (nat, unit) outcome" where
  "vmctx_vmmemory_import_definition self index =
     plus_field (vmctx_vmmemory_import self index) (vmmemory_import_definition self)"

definition vmctx_vmmemory_import_handle :: "VMOffsets \<Rightarrow> u32 \<Rightarrow> (nat, unit) outcome" where
  "vmctx_vmmemory_import_handle self index =
     plus_field (vmctx_vmmemory_import self index) (vmmemory_import_handle self)"

definition vmctx_vmmemory_definition_base :: "VMOffsets \<Rightarrow> u32 \<Rightarrow> (nat, unit) outcome" where
  "vmctx_vmmemory_definition_base self index =
     plus_field (vmctx_vmmemory_definition self index) (vmmemory_definition_base self)"

definition vmctx_vmmemory_definition_current_length :: "VMOffsets \<Rightarrow> u32 \<Rightarrow> (nat, unit) outcome" where
  "vmctx_vmmemory_definition_current_length self index =
     plus_field (vmctx_vmmemory_definition self index) (vmmemory_definition_current_length self)"

definition vmctx_vmglobal_import_definition :: "VMOffsets \<Rightarrow> u32 \<Rightarrow> (nat, unit) outcome" where
  "vmctx_vmglobal_import_definition self index =
     plus_field (vmctx_vmglobal_import self index) (vmglobal_import_definition self)"

definition vmctx_builtin_function ::
  "VMOffsets \<Rightarrow> VMBuiltinFunctionIndex \<Rightarrow> (nat, unit) outcome" where
  "vmctx_builtin_function self index =
     offset_by (vmctx_builtin_functions_begin self) (builtin_index index) (Ok (pointer_size self))"

section \<open>Facts on the layout\<close>

lemma u32_add_eq [outcome_simps]:
  "(u32_add a b = Ok c) = (c = a + b \<and> a + b < 2 ^ 32)"
  "(u32_add a b = Panic) = (2 ^ 32 \<le> a + b)"
  "u32_add a b \<noteq> Err e"
  by (auto simp: u32_add_def)

lemma u32_mul_eq [outcome_simps]:
  "(u32_mul a b = Ok c) = (c = a * b \<and> a * b < 2 ^ 32)"
  "(u32_mul a b = Panic) = (2 ^ 32 \<le> a * b)"
  "u32_mul a b \<noteq> Err e"
  by (auto simp: u32_mul_def)

lemma u8_mul_eq [outcome_simps]:
  "(u8_mul a b = Ok c) = (c = a * b \<and> a * b < 256)"
  "(u8_mul a b = Panic) = (256 \<le> a * b)"
  "u8_mul a b \<noteq> Err e"
  by (auto simp: u8_mul_def)

lemma offset_by_Ok [outcome_simps]:
  "(offset_by b n s = Ok x) = (\<exists>k. s = Ok k \<and> x = b + n * k \<and> b + n * k < 2 ^ 32)"
  by (auto simp: offset_by_def outcome_simps)

lemma align_Ok:
  assumes "align off w = Ok x"
  shows "off \<le> x" and "w dvd x" and "x < off + w"
proof -
  define q r where "q = off div w" and "r = off mod w"
  from assms have w: "0 < w" and x: "x = (q + (if r = 0 then 0 else 1)) * w"
    by (auto simp: align_def outcome_simps q_def r_def)
  have off: "off = q * w + r" by (simp add: q_def r_def)
  from w have r: "r < w" by (simp add: r_def)
  from off x r show "off \<le> x" and "x < off + w"
    by (simp_all add: add_mult_distrib)
  from x show "w dvd x" by simp
qed

lemma align_total:
  assumes "0 < w" and "off + w \<le> 2 ^ 32"
  shows "\<exists>x. align off w = Ok x"
proof -
  define q r where "q = off div w" and "r = off mod w"
  have off: "off = q * w + r" by (simp add: q_def r_def)
  from assms have r: "r < w" by (simp add: r_def)
  have "(q + (if r = 0 then 0 else 1)) * w < off + w"
    using off r by (simp add: add_mult_distrib)
  with assms show ?thesis by (auto simp: align_def u32_mul_def q_def r_def)
qed

lemmas size_defs =
  size_of_vmfunction_import_def size_of_vmtable_import_def size_of_vmmemory_import_def
  size_of_vmglobal_import_def size_of_vmtable_definition_def size_of_vmmemory_definition_def
  size_of_vmglobal_local_def size_of_vmshared_signature_index_def
  size_of_vmshared_tag_index_def


lemma align_conj: "align off w = Ok x \<Longrightarrow> off \<le> x \<and> w dvd x"
  by (auto dest: align_Ok)

lemma offset_by_aligned_D:
  "offset_by_aligned w b n s = Ok x \<Longrightarrow>
   \<exists>k. s = Ok k \<and> b + n * k \<le> x \<and> w dvd x \<and> x < b + n * k + w"
  by (auto simp: offset_by_aligned_def outcome_simps dest: align_Ok)

lemma precompute_layout:
  assumes "precompute s = Ok t"
  shows "4 * pointer_size t < 256 \<and> 
     vmctx_signature_ids_begin t = 0 \<and>
     num_signature_ids t * 4 \<le> vmctx_imported_functions_begin t \<and>
     vmctx_imported_functions_begin t + num_imported_functions t * (4 * pointer_size t)
       \<le> vmctx_imported_tables_begin t \<and>
     vmctx_imported_tables_begin t + num_imported_tables t * (2 * pointer_size t)
       \<le> vmctx_imported_memories_begin t \<and>
     vmctx_imported_memories_begin t + num_imported_memories t * (2 * pointer_size t)
       \<le> vmctx_tag_ids_begin t \<and>
     vmctx_tag_ids_begin t + num_tag_ids t * 4 \<le> vmctx_imported_globals_begin t \<and>
     vmctx_imported_globals_begin t + num_imported_globals t * (2 * pointer_size t)
       \<le> vmctx_tables_begin t \<and>
     vmctx_tables_begin t + num_local_tables t * (2 * pointer_size t) \<le> vmctx_memories_begin t \<and>
     vmctx_memories_begin t + num_local_memories t * (2 * pointer_size t)
       \<le> vmctx_globals_begin t \<and>
     vmctx_globals_begin t + num_local_globals t * pointer_size t =
       vmctx_builtin_functions_begin t \<and>
     vmctx_builtin_functions_begin t + 37 * pointer_size t = vmctx_trap_handler_begin t \<and>
     vmctx_trap_handler_begin t + pointer_size t = vmctx_gas_limiter_pointer t \<and>
     vmctx_gas_limiter_pointer t + pointer_size t = vmctx_stack_limit_begin t \<and>
     vmctx_stack_limit_begin t + 4 = size_of_vmctx t \<and>
     vmctx_stack_limit_initial_begin t = size_of_vmctx t \<and>
     size_of_vmctx t < 2 ^ 32 \<and>
     list_all (\<lambda>x. pointer_size t dvd x)
       [vmctx_imported_functions_begin t, vmctx_imported_tables_begin t,
        vmctx_imported_memories_begin t, vmctx_tag_ids_begin t,
        vmctx_imported_globals_begin t, vmctx_tables_begin t, vmctx_memories_begin t] \<and>
     16 dvd vmctx_globals_begin t"
  using assms unfolding precompute_def Let_def bind_ok_eq_Ok
  apply (elim exE conjE)
  apply (drule offset_by_aligned_D)+
  apply (drule align_conj)
  apply (clarsimp simp: size_defs outcome_simps builtin_functions_total_number_def)
  done



text \<open>A list of segments \<open>(start, count, size)\<close> laid out one after the other up to a limit.\<close>

fun packed :: "(nat \<times> nat \<times> nat) list \<Rightarrow> nat \<Rightarrow> bool" where
  "packed [] lim = True"
| "packed ((b, n, s) # segs) lim =
     (b + n * s \<le> (case segs of [] \<Rightarrow> lim | (b', _) # _ \<Rightarrow> b') \<and> packed segs lim)"

lemma packed_le: "packed ((b, n, s) # segs) lim \<Longrightarrow> (b', n', s') \<in> set segs \<Longrightarrow> b + n * s \<le> b'"
proof (induction segs arbitrary: b n s)
  case (Cons seg segs)
  obtain c m r where seg: "seg = (c, m, r)" by (cases seg)
  with Cons.prems have le: "b + n * s \<le> c" and rest: "packed ((c, m, r) # segs) lim" by auto
  show ?case
  proof (cases "(b', n', s') = seg")
    case True
    with seg le show ?thesis by simp
  next
    case False
    with Cons.prems have "c + m * r \<le> b'" using Cons.IH [OF rest] by auto
    with le show ?thesis by simp
  qed
qed simp

lemma packed_tl: "packed (seg # segs) lim \<Longrightarrow> packed segs lim"
  by (cases seg) simp

lemma packed_nth:
  "packed segs lim \<Longrightarrow> i < j \<Longrightarrow> j < length segs \<Longrightarrow> segs ! i = (b, n, s) \<Longrightarrow>
   segs ! j = (b', n', s') \<Longrightarrow> b + n * s \<le> b'"
proof (induction segs arbitrary: i j)
  case (Cons seg segs)
  show ?case
  proof (cases i)
    case 0
    with Cons.prems have "(b', n', s') \<in> set segs"
      by (metis length_Cons less_imp_Suc_add nth_Cons_Suc nth_mem Suc_less_eq add_0)
    with Cons.prems 0 show ?thesis by (metis nth_Cons_0 packed_le)
  next
    case (Suc i')
    with Cons.prems obtain j' where "j = Suc j'" by (cases j) auto
    with Suc Cons.prems show ?thesis
      by (auto intro!: Cons.IH dest: packed_tl)
  qed
qed simp

lemma packed_lim:
  "packed segs lim \<Longrightarrow> (b, n, s) \<in> set segs \<Longrightarrow> b + n * s \<le> lim"
proof (induction segs arbitrary: b n s)
  case (Cons seg segs)
  show ?case
  proof (cases segs)
    case Nil
    with Cons.prems show ?thesis by auto
  next
    case (Cons seg2 segs2)
    obtain c m r where seg2: "seg2 = (c, m, r)" by (cases seg2)
    have tail: "packed segs lim" using Cons.prems by (auto dest: packed_tl)
    from Cons seg2 have "(c, m, r) \<in> set segs" by simp
    with tail have "c + m * r \<le> lim" by (rule Cons.IH)
    moreover have "b + n * s \<le> c" if "seg = (b, n, s)"
      using that Cons.prems Cons seg2 by simp
    ultimately show ?thesis
      using Cons.prems Cons.IH [OF tail] by auto
  qed
qed simp

text \<open>The regions of the context, in the order of their offsets.\<close>

definition vmctx_segments :: "VMOffsets \<Rightarrow> (nat \<times> nat \<times> nat) list" where
  "vmctx_segments t =
    [(vmctx_signature_ids_begin t, num_signature_ids t, 4),
     (vmctx_imported_functions_begin t, num_imported_functions t, 4 * pointer_size t),
     (vmctx_imported_tables_begin t, num_imported_tables t, 2 * pointer_size t),
     (vmctx_imported_memories_begin t, num_imported_memories t, 2 * pointer_size t),
     (vmctx_tag_ids_begin t, num_tag_ids t, 4),
     (vmctx_imported_globals_begin t, num_imported_globals t, 2 * pointer_size t),
     (vmctx_tables_begin t, num_local_tables t, 2 * pointer_size t),
     (vmctx_memories_begin t, num_local_memories t, 2 * pointer_size t),
     (vmctx_globals_begin t, num_local_globals t, pointer_size t),
     (vmctx_builtin_functions_begin t, builtin_functions_total_number, pointer_size t)]"

text \<open>The elements that compiled code addresses, with their offsets and sizes.\<close>

datatype vmctx_slot =
    SignatureId SignatureIndex
  | FunctionImport FunctionIndex
  | TableImport TableIndex
  | MemoryImport MemoryIndex
  | GlobalImport GlobalIndex
  | TableDefinition LocalTableIndex
  | MemoryDefinition LocalMemoryIndex
  | GlobalDefinition LocalGlobalIndex
  | BuiltinFunction VMBuiltinFunctionIndex

fun slot_offset :: "VMOffsets \<Rightarrow> vmctx_slot \<Rightarrow> (nat, unit) outcome" where
  "slot_offset t (SignatureId i) = vmctx_vmshared_signature_id t i"
| "slot_offset t (FunctionImport i) = vmctx_vmfunction_import t i"
| "slot_offset t (TableImport i) = vmctx_vmtable_import t i"
| "slot_offset t (MemoryImport i) = vmctx_vmmemory_import t i"
| "slot_offset t (GlobalImport i) = vmctx_vmglobal_import t i"
| "slot_offset t (TableDefinition i) = vmctx_vmtable_definition t i"
| "slot_offset t (MemoryDefinition i) = vmctx_vmmemory_definition t i"
| "slot_offset t (GlobalDefinition i) = vmctx_vmglobal_definition t i"
| "slot_offset t (BuiltinFunction b) = vmctx_builtin_function t b"

text \<open>The region a slot belongs to and its position in it.\<close>

fun slot_place :: "vmctx_slot \<Rightarrow> nat \<times> nat" where
  "slot_place (SignatureId i) = (0, unat i)"
| "slot_place (FunctionImport i) = (1, unat i)"
| "slot_place (TableImport i) = (2, unat i)"
| "slot_place (MemoryImport i) = (3, unat i)"
| "slot_place (GlobalImport i) = (5, unat i)"
| "slot_place (TableDefinition i) = (6, unat i)"
| "slot_place (MemoryDefinition i) = (7, unat i)"
| "slot_place (GlobalDefinition i) = (8, unat i)"
| "slot_place (BuiltinFunction b) = (9, builtin_index b)"

definition slot_size :: "VMOffsets \<Rightarrow> vmctx_slot \<Rightarrow> nat" where
  "slot_size t s = snd (snd (vmctx_segments t ! fst (slot_place s)))"

definition slot_in_range :: "VMOffsets \<Rightarrow> vmctx_slot \<Rightarrow> bool" where
  "slot_in_range t s = (snd (slot_place s) < fst (snd (vmctx_segments t ! fst (slot_place s))))"

lemma slot_place_inj: "slot_place s = slot_place t \<Longrightarrow> s = t"
  by (cases s; cases t) (auto simp: word_unat_eq_iff dest: builtin_index_inj)


lemma precompute_packed:
  assumes "precompute s = Ok t"
  shows "packed (vmctx_segments t) (size_of_vmctx t)"
  using precompute_layout [OF assms]
  by (simp add: vmctx_segments_def builtin_functions_total_number_def)

text \<open>An offset is defined exactly for the indices of the region, and never overflows.\<close>

lemma slot_offset_cases:
  assumes "precompute s = Ok t"
  shows "slot_offset t x =
    (if slot_in_range t x
     then Ok (fst (vmctx_segments t ! fst (slot_place x)) + snd (slot_place x) * slot_size t x)
     else Panic)"
proof -
  note layout = precompute_layout [OF assms]
  have small: "u8_mul 2 (pointer_size t) = Ok (2 * pointer_size t)"
    "u8_mul 4 (pointer_size t) = Ok (4 * pointer_size t)"
    using layout by (simp_all add: u8_mul_def)
  have bound: "b + i * sz < 2 ^ 32"
    if "(b, n, sz) \<in> set (vmctx_segments t)" "i < n" for b n sz i
  proof -
    have "b + n * sz \<le> size_of_vmctx t"
      using packed_lim [OF precompute_packed [OF assms] that(1)] .
    moreover have "i * sz \<le> n * sz" using that(2) by simp
    ultimately show ?thesis using layout by linarith
  qed
  have mul: "i * sz < 2 ^ 32" if "(b, n, sz) \<in> set (vmctx_segments t)" "i < n" for b n sz i
    using bound [OF that] by linarith
  note facts = slot_in_range_def slot_size_def vmctx_segments_def offset_by_def size_defs small
    vmctx_vmshared_signature_id_def vmctx_vmfunction_import_def vmctx_vmtable_import_def
    vmctx_vmmemory_import_def vmctx_vmglobal_import_def vmctx_vmtable_definition_def
    vmctx_vmmemory_definition_def vmctx_vmglobal_definition_def vmctx_builtin_function_def
    u32_mul_def u32_add_def builtin_index_less
  have seg: "fst (slot_place x) < length (vmctx_segments t)"
    by (cases x) (simp_all add: vmctx_segments_def)
  obtain b n sz where nth: "vmctx_segments t ! fst (slot_place x) = (b, n, sz)"
    by (cases "vmctx_segments t ! fst (slot_place x)")
  with seg have mem: "(b, n, sz) \<in> set (vmctx_segments t)" by (metis nth_mem)
  show ?thesis
    using bound [OF mem, of "snd (slot_place x)"] mul [OF mem, of "snd (slot_place x)"] nth
    by (cases x) (auto simp: facts)
qed


lemma vmoffsets_new_precompute:
  "vmoffsets_new ptr_size m = Ok t \<Longrightarrow>
   \<exists>s. precompute s = Ok t \<and> pointer_size s = ptr_size"
  unfolding vmoffsets_new_def bind_ok_eq_Ok
  by (elim exE conjE) (auto simp: new_for_trampolines_def intro!: exI)

lemma precompute_pointer_size: "precompute s = Ok t \<Longrightarrow> pointer_size t = pointer_size s"
  unfolding precompute_def Let_def bind_ok_eq_Ok by (elim exE conjE) auto

text \<open>Two places of a packed layout are the same or do not meet.\<close>

lemma packed_disjoint:
  assumes "packed segs lim"
    and "k < length segs" "segs ! k = (b, n, s)" "i < n"
    and "l < length segs" "segs ! l = (c, m, r)" "j < m"
    and "(k, i) \<noteq> (l, j)"
  shows "disjoint_ranges (b + i * s) s (c + j * r) r"
proof -
  have end_le: "b + i * s + s \<le> b + n * s" if "i < n" for b i n s :: nat
  proof -
    from that have "Suc i * s \<le> n * s" by (intro mult_le_mono1) simp
    then show ?thesis by simp
  qed
  consider "k < l" | "l < k" | "k = l" "i < j" | "k = l" "j < i"
    using assms(8) by (cases k l rule: linorder_cases; cases i j rule: linorder_cases) auto
  then show ?thesis
  proof cases
    case 1
    from packed_nth [OF assms(1) 1 assms(5) assms(3) assms(6)] end_le [OF assms(4), of b s]
    show ?thesis by (simp add: disjoint_ranges_def)
  next
    case 2
    from packed_nth [OF assms(1) 2 assms(2) assms(6) assms(3)] end_le [OF assms(7), of c r]
    show ?thesis by (simp add: disjoint_ranges_def)
  next
    case 3
    with assms end_le [of i j b s] show ?thesis by (auto simp: disjoint_ranges_def)
  next
    case 4
    with assms end_le [of j i c r] show ?thesis by (auto simp: disjoint_ranges_def)
  qed
qed

lemma slot_place_length: "fst (slot_place x) < length (vmctx_segments t)"
  by (cases x) (simp_all add: vmctx_segments_def)

lemma slot_offset_place:
  assumes "precompute s = Ok t" and "slot_offset t x = Ok p"
  obtains b n where "vmctx_segments t ! fst (slot_place x) = (b, n, slot_size t x)"
    and "snd (slot_place x) < n" and "p = b + snd (slot_place x) * slot_size t x"
proof -
  obtain b n sz where nth: "vmctx_segments t ! fst (slot_place x) = (b, n, sz)"
    by (cases "vmctx_segments t ! fst (slot_place x)")
  then have sz: "sz = slot_size t x" by (simp add: slot_size_def)
  have "slot_in_range t x" and "p = b + snd (slot_place x) * slot_size t x"
    using slot_offset_cases [OF assms(1), of x] assms(2) nth by (auto split: if_splits)
  with nth sz show thesis by (intro that) (auto simp: slot_in_range_def)
qed

lemma slots_disjoint:
  assumes "precompute s = Ok t"
    and "slot_offset t x = Ok p"
    and "slot_offset t y = Ok q"
    and "x \<noteq> y"
  shows "disjoint_ranges p (slot_size t x) q (slot_size t y)"
proof -
  obtain b n where x: "vmctx_segments t ! fst (slot_place x) = (b, n, slot_size t x)"
    "snd (slot_place x) < n" "p = b + snd (slot_place x) * slot_size t x"
    using slot_offset_place [OF assms(1,2)] .
  obtain c m where y: "vmctx_segments t ! fst (slot_place y) = (c, m, slot_size t y)"
    "snd (slot_place y) < m" "q = c + snd (slot_place y) * slot_size t y"
    using slot_offset_place [OF assms(1,3)] .
  have "slot_place x \<noteq> slot_place y" using assms(4) slot_place_inj by blast
  then have "(fst (slot_place x), snd (slot_place x)) \<noteq> (fst (slot_place y), snd (slot_place y))"
    by simp
  from packed_disjoint [OF precompute_packed [OF assms(1)] slot_place_length x(1,2)
      slot_place_length y(1,2) this]
  show ?thesis by (simp add: x(3) y(3))
qed

lemma slot_in_bounds:
  assumes "precompute s = Ok t" and "slot_offset t x = Ok p"
  shows "p + slot_size t x \<le> size_of_vmctx t"
proof -
  obtain b n where x: "vmctx_segments t ! fst (slot_place x) = (b, n, slot_size t x)"
    "snd (slot_place x) < n" "p = b + snd (slot_place x) * slot_size t x"
    using slot_offset_place [OF assms] .
  from x(1) slot_place_length have "(b, n, slot_size t x) \<in> set (vmctx_segments t)"
    by (metis nth_mem)
  from packed_lim [OF precompute_packed [OF assms(1)] this]
  have "b + n * slot_size t x \<le> size_of_vmctx t" .
  moreover from x(2) have "Suc (snd (slot_place x)) * slot_size t x \<le> n * slot_size t x"
    by (intro mult_le_mono1) simp
  ultimately show ?thesis using x(3) by simp
qed

fun slot_align :: "VMOffsets \<Rightarrow> vmctx_slot \<Rightarrow> nat" where
  "slot_align t (SignatureId _) = 4"
| "slot_align t _ = pointer_size t"

lemma slot_aligned:
  assumes "precompute s = Ok t" and "slot_offset t x = Ok p"
    and "pointer_size t dvd 16"
  shows "slot_align t x dvd p"
proof -
  obtain b n where x: "vmctx_segments t ! fst (slot_place x) = (b, n, slot_size t x)"
    "p = b + snd (slot_place x) * slot_size t x"
    using slot_offset_place [OF assms(1,2)] .
  note layout = precompute_layout [OF assms(1)]
  have globals: "pointer_size t dvd vmctx_globals_begin t"
    using layout assms(3) dvd_trans by blast
  have builtins: "pointer_size t dvd vmctx_builtin_functions_begin t"
  proof -
    have "vmctx_builtin_functions_begin t =
        vmctx_globals_begin t + num_local_globals t * pointer_size t"
      using layout by simp
    with globals show ?thesis by simp
  qed
  have "slot_align t x dvd slot_size t x"
    by (cases x) (simp_all add: slot_size_def vmctx_segments_def)
  moreover have "slot_align t x dvd b"
    using x(1) layout globals builtins
    by (cases x) (auto simp: vmctx_segments_def slot_size_def)
  ultimately show ?thesis by (simp add: x(2))
qed

text \<open>
  A bound under which no computation of the layout overflows: the limits a validator puts on
  the number of entities of each kind.
\<close>

definition counts_bounded :: "VMOffsets \<Rightarrow> bool" where
  "counts_bounded s =
     (num_signature_ids s \<le> 1000000 \<and> num_imported_functions s \<le> 1000000 \<and>
      num_imported_tables s \<le> 1000000 \<and> num_imported_memories s \<le> 1000000 \<and>
      num_tag_ids s \<le> 1000000 \<and> num_imported_globals s \<le> 1000000 \<and>
      num_local_tables s \<le> 1000000 \<and> num_local_memories s \<le> 1000000 \<and>
      num_local_globals s \<le> 1000000)"

lemma offset_by_aligned_total:
  assumes "b \<le> c" "n \<le> 1000000" "k \<le> 32" "0 < w" "w \<le> 16" "c \<le> 4000000000"
  shows "\<exists>x. offset_by_aligned w b n (Ok k) = Ok x \<and> x \<le> c + 32000016"
proof -
  have "n * k \<le> 32000000" using assms(2,3) mult_le_mono [of n 1000000 k 32] by simp
  with assms obtain x where x: "align (b + n * k) w = Ok x"
    using align_total [of w "b + n * k"] by auto
  have "x \<le> c + 32000016"
    using align_Ok(3) [OF x] assms \<open>n * k \<le> 32000000\<close> by simp
  with x show ?thesis
    using assms \<open>n * k \<le> 32000000\<close>
    by (simp add: offset_by_aligned_def offset_by_def u32_mul_def u32_add_def)
qed

lemma precompute_total:
  assumes "counts_bounded s" and "pointer_size s = 4 \<or> pointer_size s = 8"
  shows "\<exists>t. precompute s = Ok t"
proof -
  note c = assms(1) [unfolded counts_bounded_def]
  let ?p = "pointer_size s"
  have p: "0 < ?p" "?p \<le> 8" using assms(2) by auto
  have sz: "u8_mul 2 ?p = Ok (2 * ?p)" "u8_mul 4 ?p = Ok (4 * ?p)"
    using assms(2) by (auto simp: u8_mul_def)
  obtain a1 where 1: "offset_by_aligned ?p 0 (num_signature_ids s) (Ok 4) = Ok a1" "a1 \<le> 32000016"
    using offset_by_aligned_total [of 0 0 "num_signature_ids s" "4" "?p"] c p by auto
  obtain a2 where 2: "offset_by_aligned ?p a1 (num_imported_functions s) (Ok (4 * ?p)) = Ok a2"
    "a2 \<le> 64000032"
    using offset_by_aligned_total [of a1 32000016 "num_imported_functions s" "4 * ?p" "?p"] 1(2) c p by auto
  obtain a3 where 3: "offset_by_aligned ?p a2 (num_imported_tables s) (Ok (2 * ?p)) = Ok a3"
    "a3 \<le> 96000048"
    using offset_by_aligned_total [of a2 64000032 "num_imported_tables s" "2 * ?p" "?p"] 2(2) c p by auto
  obtain a4 where 4: "offset_by_aligned ?p a3 (num_imported_memories s) (Ok (2 * ?p)) = Ok a4"
    "a4 \<le> 128000064"
    using offset_by_aligned_total [of a3 96000048 "num_imported_memories s" "2 * ?p" "?p"] 3(2) c p by auto
  obtain a5 where 5: "offset_by_aligned ?p a4 (num_tag_ids s) (Ok 4) = Ok a5" "a5 \<le> 160000080"
    using offset_by_aligned_total [of a4 128000064 "num_tag_ids s" "4" "?p"] 4(2) c p by auto
  obtain a6 where 6: "offset_by_aligned ?p a5 (num_imported_globals s) (Ok (2 * ?p)) = Ok a6"
    "a6 \<le> 192000096"
    using offset_by_aligned_total [of a5 160000080 "num_imported_globals s" "2 * ?p" "?p"] 5(2) c p by auto
  obtain a7 where 7: "offset_by_aligned ?p a6 (num_local_tables s) (Ok (2 * ?p)) = Ok a7"
    "a7 \<le> 224000112"
    using offset_by_aligned_total [of a6 192000096 "num_local_tables s" "2 * ?p" "?p"] 6(2) c p by auto
  obtain a8 where 8: "offset_by_aligned 16 a7 (num_local_memories s) (Ok (2 * ?p)) = Ok a8"
    "a8 \<le> 256000128"
    using offset_by_aligned_total [of a7 224000112 "num_local_memories s" "2 * ?p" "16"] 7(2) c p by auto
  have n: "num_local_globals s * ?p \<le> 8000000"
    using c p mult_le_mono [of "num_local_globals s" 1000000 ?p 8] by simp
  note eqs = 1(1) 2(1) 3(1) 4(1) 5(1) 6(1) 7(1) 8(1) [unfolded offset_by_aligned_def]
  show ?thesis
    using 8(2) n p
    by (simp add: precompute_def Let_def size_defs sz eqs)
      (simp add: offset_by_def u32_mul_def u32_add_def builtin_functions_total_number_def)
qed

text \<open>The layout of a module with two memories, on a 64-bit target.\<close>

definition example_module :: ModuleInfo where
  "example_module = (module_new 0)\<lparr>mi_memories :=
     [\<lparr>mt_minimum = 1, mt_maximum = None, mt_shared = False\<rparr>,
      \<lparr>mt_minimum = 2, mt_maximum = None, mt_shared = False\<rparr>]\<rparr>"

definition example_offsets :: VMOffsets where
  "example_offsets = (new_for_trampolines 8)\<lparr>num_local_memories := 2,
     vmctx_globals_begin := 32, vmctx_builtin_functions_begin := 32,
     vmctx_trap_handler_begin := 328, vmctx_gas_limiter_pointer := 336,
     vmctx_stack_limit_begin := 344, vmctx_stack_limit_initial_begin := 348,
     size_of_vmctx := 348\<rparr>"

lemma example_offsets_new: "vmoffsets_new 8 example_module = Ok example_offsets"
  by (simp add: vmoffsets_new_def example_module_def module_new_def pm_new_def pm_len_def
      cast_to_u32_def precompute_def Let_def size_defs offset_by_aligned_def offset_by_def
      u8_mul_def u32_mul_def u32_add_def align_def new_for_trampolines_def
      builtin_functions_total_number_def example_offsets_def)

section \<open>Properties\<close>

text \<open>
  C9: In the layout computed for a module, any two distinct elements that compiled code can
  address (signatures, imports, definitions, builtin pointers) occupy disjoint byte ranges,
  all inside the \<open>size_of_vmctx\<close> bytes that are allocated.
\<close>

theorem vmctx_slots_disjoint:
  assumes "vmoffsets_new ptr_size m = Ok t"
    and "slot_offset t x = Ok p" and "slot_offset t y = Ok q" and "x \<noteq> y"
  shows "disjoint_ranges p (slot_size t x) q (slot_size t y) \<and>
         p + slot_size t x \<le> size_of_vmctx t \<and> q + slot_size t y \<le> size_of_vmctx t"
proof -
  obtain s where "precompute s = Ok t"
    using vmoffsets_new_precompute [OF assms(1)] by blast
  with assms show ?thesis by (blast intro: slots_disjoint slot_in_bounds)
qed

theorem vmctx_slots_disjoint_witness:
  "vmoffsets_new 8 example_module = Ok example_offsets \<and>
   disjoint_ranges 16 16 32 8"
  using vmctx_slots_disjoint [of 8 example_module example_offsets "MemoryDefinition 1" 16
      "BuiltinFunction get_memory32_grow_index" 32]
  by (simp add: example_offsets_new example_offsets_def new_for_trampolines_def slot_size_def vmctx_segments_def
      vmctx_vmmemory_definition_def vmctx_builtin_function_def offset_by_def size_defs
      u8_mul_def u32_mul_def u32_add_def)

text \<open>
  C10: The offset of an element is defined exactly when its index is below the number of
  elements of its kind: out of range the accessor panics, in range it never overflows. On a
  target with 4- or 8-byte pointers every offset is aligned for its contents.
\<close>

theorem vmctx_slots_aligned:
  assumes "vmoffsets_new ptr_size m = Ok t" and "ptr_size = 4 \<or> ptr_size = 8"
  shows "if slot_in_range t x
         then \<exists>p. slot_offset t x = Ok p \<and> p < 2 ^ 32 \<and> slot_align t x dvd p
         else slot_offset t x = Panic"
proof -
  obtain s where s: "precompute s = Ok t" and "pointer_size s = ptr_size"
    using vmoffsets_new_precompute [OF assms(1)] by blast
  then have "pointer_size t dvd 16"
    using assms(2) precompute_pointer_size [OF s] by auto
  then have "slot_align t x dvd p \<and> p < 2 ^ 32" if "slot_offset t x = Ok p" for p
    using slot_aligned [OF s that] slot_in_bounds [OF s that] precompute_layout [OF s] by auto
  with slot_offset_cases [OF s, of x] show ?thesis by auto
qed

theorem vmctx_slots_aligned_witness:
  "\<exists>p. slot_offset example_offsets (MemoryDefinition 1) = Ok p \<and> 8 dvd p"
  using vmctx_slots_aligned [of 8 example_module example_offsets "MemoryDefinition 1"]
  by (auto simp: example_offsets_new slot_in_range_def vmctx_segments_def example_offsets_def
      new_for_trampolines_def)

text \<open>
  C19: For a module with at most a million entities of each kind the layout can be computed:
  no addition or multiplication on offsets overflows, on targets with 4- or 8-byte pointers.
\<close>

theorem vmoffsets_new_total:
  assumes "ptr_size = 4 \<or> ptr_size = 8"
    and "length (mi_signatures m) \<le> 1000000" and "mi_num_imported_functions m \<le> 1000000"
    and "mi_num_imported_tables m \<le> 1000000" and "mi_num_imported_memories m \<le> 1000000"
    and "length (mi_tags m) \<le> 1000000" and "mi_num_imported_globals m \<le> 1000000"
    and "length (mi_tables m) \<le> 1000000" and "length (mi_memories m) \<le> 1000000"
    and "length (mi_globals m) \<le> 1000000"
  shows "\<exists>t. vmoffsets_new ptr_size m = Ok t \<and> size_of_vmctx t < 2 ^ 32"
proof -
  have "\<exists>t. vmoffsets_new ptr_size m = Ok t"
    using assms by (auto simp: vmoffsets_new_def cast_to_u32_def pm_len_def
        intro!: precompute_total simp: counts_bounded_def new_for_trampolines_def)
  then show ?thesis
    using vmoffsets_new_precompute precompute_layout by blast
qed

theorem vmoffsets_new_total_witness:
  "\<exists>t. vmoffsets_new 8 example_module = Ok t \<and> size_of_vmctx t < 2 ^ 32"
  using vmoffsets_new_total [of 8 example_module] by (simp add: example_module_def
      module_new_def pm_new_def)

text \<open>
  The offset recorded for the initial stack limit is the size of the whole context: the
  field it names would lie entirely past the end of the allocation.
\<close>

lemma vmctx_stack_limit_initial_out_of_bounds:
  assumes "vmoffsets_new ptr_size m = Ok t"
  shows "vmctx_stack_limit_initial_begin t = size_of_vmctx t"
  using vmoffsets_new_precompute [OF assms] precompute_layout by blast

end
