(* ===== verification/VM_Instance.thy ===== *)
theory VM_Instance
  imports Memory_Ops Table Sig_Registry VM_Offsets
begin

text \<open>
  Instances at run time, \<open>lib/vm/src/instance/mod.rs\<close>: the objects of the store (globals of
  \<open>global.rs\<close>, functions and tags of \<open>export.rs\<close>), the structures of \<open>vmcontext.rs\<close> and
  \<open>imports.rs\<close> that describe imports, the record of an instance with its \<open>VMContext\<close>, and the
  operations on memories and tables that compiled code asks for. An operation takes the process
  (operating system, cells of shared memories, store) and returns it changed.
\<close>

section \<open>Globals\<close>

text \<open>\<open>RawValue\<close>, a union of 16 bytes. Writing a shorter member leaves the other bytes alone.\<close>

type_synonym RawValue = "128 word"

definition raw_low :: "nat \<Rightarrow> RawValue \<Rightarrow> RawValue \<Rightarrow> RawValue" where
  "raw_low n v x = or (and v (not (mask n))) (take_bit n x)"

definition raw_default_value :: RawValue where
  "raw_default_value = 0"

definition raw_set_i32 :: "RawValue \<Rightarrow> i32 \<Rightarrow> RawValue" where
  "raw_set_i32 v x = raw_low 32 v (ucast x)"

definition raw_set_i64 :: "RawValue \<Rightarrow> i64 \<Rightarrow> RawValue" where
  "raw_set_i64 v x = raw_low 64 v (ucast x)"

definition raw_set_funcref :: "RawValue \<Rightarrow> usize \<Rightarrow> RawValue" where
  "raw_set_funcref v x = raw_low 64 v (of_nat x)"

definition raw_i32 :: "RawValue \<Rightarrow> i32" where
  "raw_i32 v = ucast v"

definition raw_i64 :: "RawValue \<Rightarrow> i64" where
  "raw_i64 v = ucast v"

record VMGlobal =
  vg_ty :: GlobalType
  vg_definition :: "RawValue MaybeInstanceOwned"

definition vmglobal_new :: "GlobalType \<Rightarrow> VMGlobal" where
  "vmglobal_new ty = \<lparr>vg_ty = ty, vg_definition = Host raw_default_value\<rparr>"

definition vmglobal_copy_on_write :: "VMGlobal \<Rightarrow> VMGlobal" where
  "vmglobal_copy_on_write g = \<lparr>vg_ty = vg_ty g, vg_definition = Host (owned_value (vg_definition g))\<rparr>"

section \<open>Functions and tags\<close>

record VMCallerCheckedAnyfunc =
  af_func_ptr :: usize
  af_type_index :: VMSharedSignatureIndex
  af_vmctx :: usize
  af_call_trampoline :: usize

datatype VMFunctionKind = FnStatic | FnDynamic

text \<open>
  \<open>vf_box\<close> is the address of the boxed record of a function that the host owns;
  \<open>vf_host_data_unit\<close> tells whether the data attached to the function is \<open>()\<close>.
\<close>

record VMFunction =
  vf_anyfunc :: "VMCallerCheckedAnyfunc MaybeInstanceOwned"
  vf_box :: usize
  vf_signature :: FunctionType
  vf_kind :: VMFunctionKind
  vf_host_data_unit :: bool

definition vf_anyfunc_ptr :: "VMFunction \<Rightarrow> usize" where
  "vf_anyfunc_ptr f = (case vf_anyfunc f of Host _ \<Rightarrow> vf_box f | Instance p _ \<Rightarrow> p)"

record VMTag =
  vtag_kind :: TagKind
  vtag_signature :: FunctionType

definition vmtag_new :: "TagKind \<Rightarrow> FunctionType \<Rightarrow> VMTag" where
  "vmtag_new kind ty = \<lparr>vtag_kind = kind, vtag_signature = ty\<rparr>"

section \<open>The store and the process\<close>

record StoreObjects =
  so_memories :: "VMMemory list"
  so_tables :: "VMTable list"
  so_globals :: "VMGlobal list"
  so_functions :: "VMFunction list"
  so_tags :: "VMTag list"

text \<open>The state that the operations of an instance read and change.\<close>

record process =
  pr_os :: os_state
  pr_cells :: cells
  pr_store :: StoreObjects

definition pr_memories :: "process \<Rightarrow> VMMemory list" where
  "pr_memories p = so_memories (pr_store p)"

definition pr_tables :: "process \<Rightarrow> VMTable list" where
  "pr_tables p = so_tables (pr_store p)"

definition pr_globals :: "process \<Rightarrow> VMGlobal list" where
  "pr_globals p = so_globals (pr_store p)"

definition pr_set_tables :: "process \<Rightarrow> VMTable list \<Rightarrow> process" where
  "pr_set_tables p ts = p\<lparr>pr_store := (pr_store p)\<lparr>so_tables := ts\<rparr>\<rparr>"

definition pr_set_globals :: "process \<Rightarrow> VMGlobal list \<Rightarrow> process" where
  "pr_set_globals p gs = p\<lparr>pr_store := (pr_store p)\<lparr>so_globals := gs\<rparr>\<rparr>"

text \<open>A method called on the object behind a handle, \<open>handle.get_mut(context).f()\<close>.\<close>

definition on_table ::
  "process \<Rightarrow> InternalStoreHandle \<Rightarrow> (VMTable \<Rightarrow> ('r \<times> VMTable, 'e) outcome) \<Rightarrow>
     ('r \<times> process, 'e) outcome" where
  "on_table p h f =
     bind_ok (ish_get (pr_tables p) h) (\<lambda>t.
     bind_ok (f t) (\<lambda>(r, t').
     bind_ok (ish_set (pr_tables p) h t') (\<lambda>ts. Ok (r, pr_set_tables p ts))))"

definition on_memory_grow ::
  "os \<Rightarrow> process \<Rightarrow> InternalStoreHandle \<Rightarrow> Pages \<Rightarrow> (Pages \<times> process, MemoryError) outcome" where
  "on_memory_grow os p h delta =
     bind_ok (ish_get (pr_memories p) h) (\<lambda>m.
     bind_ok (vm_grow os (pr_os p) (pr_cells p) m delta) (\<lambda>(prev, (c', m'), st').
     bind_ok (ish_set (pr_memories p) h m') (\<lambda>ms.
       Ok (prev, p\<lparr>pr_os := st', pr_cells := c',
         pr_store := (pr_store p)\<lparr>so_memories := ms\<rparr>\<rparr>))))"

section \<open>Imports\<close>

text \<open>
  The structures that compiled code reads for imported entities. The pointer to the definition
  of a table, memory or global is the handle of the object that owns the definition.
\<close>

record VMFunctionImport =
  fi_body :: usize
  fi_environment :: usize
  fi_handle :: InternalStoreHandle
  fi_include_m0_param :: bool

record VMTableImport =
  tbi_definition :: InternalStoreHandle
  tbi_handle :: InternalStoreHandle

record VMMemoryImport =
  mmi_definition :: InternalStoreHandle
  mmi_handle :: InternalStoreHandle

record VMGlobalImport =
  gbi_definition :: InternalStoreHandle
  gbi_handle :: InternalStoreHandle

record Imports =
  im_functions :: "VMFunctionImport PrimaryMap"
  im_tables :: "VMTableImport PrimaryMap"
  im_memories :: "VMMemoryImport PrimaryMap"
  im_globals :: "VMGlobalImport PrimaryMap"

definition imports_none :: Imports where
  "imports_none = \<lparr>im_functions = pm_new, im_tables = pm_new, im_memories = pm_new,
     im_globals = pm_new\<rparr>"

section \<open>Instances\<close>

text \<open>
  \<open>Instance\<close>. The fields from \<open>in_vmctx_ptr\<close> on are the \<open>VMContext\<close> behind the structure: its
  address and the arrays written into it. The definitions of local memories and tables are also
  in it; each is kept with the memory or table that owns it (\<open>MaybeInstanceOwned\<close>), together
  with the address of its slot. A pointer to the definition of a local global is its handle.
\<close>

record VMInstance =
  in_module :: ModuleInfo
  in_offsets :: VMOffsets
  in_memories :: "InternalStoreHandle PrimaryMap"
  in_tables :: "InternalStoreHandle PrimaryMap"
  in_globals :: "InternalStoreHandle PrimaryMap"
  in_tags :: "InternalStoreHandle PrimaryMap"
  in_functions :: "usize PrimaryMap"
  in_function_call_trampolines :: "usize PrimaryMap"
  in_passive_elements :: "ElemIndex \<rightharpoonup> usize option list"
  in_passive_data :: "DataIndex \<rightharpoonup> u8 list"
  in_funcrefs_ptr :: usize
  in_funcrefs :: "VMCallerCheckedAnyfunc PrimaryMap"
  in_imported_funcrefs :: "usize PrimaryMap"
  in_vmctx_ptr :: usize
  in_tag_ids :: "u32 list"
  in_signature_ids :: "VMSharedSignatureIndex list"
  in_imports :: Imports
  in_global_ptrs :: "InternalStoreHandle list"
  in_builtin_functions :: "usize list"

text \<open>Sizes of the structures on the 64-bit host.\<close>

definition SIZE_VMTableDefinition :: usize where "SIZE_VMTableDefinition = 16"

definition SIZE_VMMemoryDefinition :: usize where "SIZE_VMMemoryDefinition = 16"

definition SIZE_VMCallerCheckedAnyfunc :: usize where "SIZE_VMCallerCheckedAnyfunc = 32"

definition imported_function :: "VMInstance \<Rightarrow> FunctionIndex \<Rightarrow> (VMFunctionImport, 'e) outcome" where
  "imported_function self index = unwrap (nth_opt (im_functions (in_imports self)) (unat index))"

definition imported_table :: "VMInstance \<Rightarrow> TableIndex \<Rightarrow> (VMTableImport, 'e) outcome" where
  "imported_table self index = unwrap (nth_opt (im_tables (in_imports self)) (unat index))"

definition imported_memory :: "VMInstance \<Rightarrow> MemoryIndex \<Rightarrow> (VMMemoryImport, 'e) outcome" where
  "imported_memory self index = unwrap (nth_opt (im_memories (in_imports self)) (unat index))"

definition imported_global :: "VMInstance \<Rightarrow> GlobalIndex \<Rightarrow> (VMGlobalImport, 'e) outcome" where
  "imported_global self index = unwrap (nth_opt (im_globals (in_imports self)) (unat index))"

definition tables_ptr :: "VMInstance \<Rightarrow> usize" where
  "tables_ptr self = in_vmctx_ptr self + vmctx_tables_begin (in_offsets self)"

definition table_ptr :: "VMInstance \<Rightarrow> LocalTableIndex \<Rightarrow> usize" where
  "table_ptr self index = tables_ptr self + unat index * SIZE_VMTableDefinition"

definition memories_ptr :: "VMInstance \<Rightarrow> usize" where
  "memories_ptr self = in_vmctx_ptr self + vmctx_memories_begin (in_offsets self)"

definition memory_ptr :: "VMInstance \<Rightarrow> LocalMemoryIndex \<Rightarrow> usize" where
  "memory_ptr self index = memories_ptr self + unat index * SIZE_VMMemoryDefinition"

text \<open>
  Reading a slot of the \<open>VMContext\<close>: the definition of the memory or table that was placed
  there. A slot where none was placed holds whatever the allocation contained.
\<close>

fun owned_at :: "usize \<Rightarrow> 'a MaybeInstanceOwned \<Rightarrow> bool" where
  "owned_at a (Host _) = False"
| "owned_at a (Instance p _) = (p = a)"

definition memory_slot :: "process \<Rightarrow> usize \<Rightarrow> VMMemoryDefinition option" where
  "memory_slot p a =
     map_option (\<lambda>m. om_vmmemory (vm_view (pr_cells p, m)))
       (List.find (\<lambda>m. vm_valid (pr_cells p, m) \<and>
          owned_at a (wm_definition (om_mmap (vm_view (pr_cells p, m))))) (pr_memories p))"

definition table_slot :: "process \<Rightarrow> usize \<Rightarrow> VMTableDefinition option" where
  "table_slot p a =
     map_option get_vm_table_definition
       (List.find (\<lambda>t. owned_at a (vt_definition t)) (pr_tables p))"

definition in_memory :: "process \<Rightarrow> VMInstance \<Rightarrow> LocalMemoryIndex \<Rightarrow> (VMMemoryDefinition, 'e) outcome"
  where
  "in_memory p self index = unwrap (memory_slot p (memory_ptr self index))"

definition in_table :: "process \<Rightarrow> VMInstance \<Rightarrow> LocalTableIndex \<Rightarrow> (VMTableDefinition, 'e) outcome"
  where
  "in_table p self index = unwrap (table_slot p (table_ptr self index))"

definition imported_memory_definition ::
  "process \<Rightarrow> VMInstance \<Rightarrow> MemoryIndex \<Rightarrow> (VMMemoryDefinition, 'e) outcome" where
  "imported_memory_definition p self index =
     bind_ok (imported_memory self index) (\<lambda>import.
     bind_ok (ish_get (pr_memories p) (mmi_definition import)) (\<lambda>m. vm_vmmemory (pr_cells p) m))"

definition get_memory ::
  "process \<Rightarrow> VMInstance \<Rightarrow> MemoryIndex \<Rightarrow> (VMMemoryDefinition, 'e) outcome" where
  "get_memory p self index =
     bind_ok (local_memory_index (in_module self) index) (\<lambda>l.
       case l of
         Some local_index \<Rightarrow> in_memory p self local_index
       | None \<Rightarrow> imported_memory_definition p self index)"

text \<open>\<open>get_vmmemory\<close>, \<open>get_vmmemory_mut\<close> and \<open>get_local_vmmemory_mut\<close>: the handle they resolve.\<close>

definition get_local_vmmemory :: "VMInstance \<Rightarrow> LocalMemoryIndex \<Rightarrow> (InternalStoreHandle, 'e) outcome"
  where
  "get_local_vmmemory self local_index = unwrap (pm_get (in_memories self) local_index)"

definition get_vmmemory :: "VMInstance \<Rightarrow> MemoryIndex \<Rightarrow> (InternalStoreHandle, 'e) outcome" where
  "get_vmmemory self index =
     bind_ok (local_memory_index (in_module self) index) (\<lambda>l.
       case l of
         Some local_index \<Rightarrow> get_local_vmmemory self local_index
       | None \<Rightarrow> bind_ok (imported_memory self index) (\<lambda>import. Ok (mmi_handle import)))"

definition global_ptr :: "VMInstance \<Rightarrow> LocalGlobalIndex \<Rightarrow> (InternalStoreHandle, 'e) outcome" where
  "global_ptr self index = unwrap (nth_opt (in_global_ptrs self) (unat index))"

definition global_val :: "process \<Rightarrow> InternalStoreHandle \<Rightarrow> (RawValue, 'e) outcome" where
  "global_val p ptr = bind_ok (ish_get (pr_globals p) ptr) (\<lambda>g. Ok (owned_value (vg_definition g)))"

definition in_global :: "process \<Rightarrow> VMInstance \<Rightarrow> LocalGlobalIndex \<Rightarrow> (RawValue, 'e) outcome" where
  "in_global p self index = bind_ok (global_ptr self index) (global_val p)"

definition write_global ::
  "process \<Rightarrow> InternalStoreHandle \<Rightarrow> (RawValue \<Rightarrow> RawValue) \<Rightarrow> (process, 'e) outcome" where
  "write_global p ptr f =
     bind_ok (ish_get (pr_globals p) ptr) (\<lambda>g.
     bind_ok (ish_set (pr_globals p) ptr
        (g\<lparr>vg_definition := owned_update f (vg_definition g)\<rparr>)) (\<lambda>gs. Ok (pr_set_globals p gs)))"

definition set_global ::
  "process \<Rightarrow> VMInstance \<Rightarrow> LocalGlobalIndex \<Rightarrow> RawValue \<Rightarrow> (process, 'e) outcome" where
  "set_global p self index global =
     bind_ok (global_ptr self index) (\<lambda>ptr. write_global p ptr (\<lambda>_. global))"

section \<open>Memories\<close>

definition in_memory_grow ::
  "os \<Rightarrow> process \<Rightarrow> VMInstance \<Rightarrow> LocalMemoryIndex \<Rightarrow> Pages \<Rightarrow> (Pages \<times> process, MemoryError) outcome"
  where
  "in_memory_grow os p self mem_index delta =
     bind_ok (unwrap (pm_get (in_memories self) mem_index)) (\<lambda>mem. on_memory_grow os p mem delta)"

definition imported_memory_grow ::
  "os \<Rightarrow> process \<Rightarrow> VMInstance \<Rightarrow> MemoryIndex \<Rightarrow> Pages \<Rightarrow> (Pages \<times> process, MemoryError) outcome" where
  "imported_memory_grow os p self mem_index delta =
     bind_ok (imported_memory self mem_index) (\<lambda>import. on_memory_grow os p (mmi_handle import) delta)"

definition in_memory_size :: "process \<Rightarrow> VMInstance \<Rightarrow> LocalMemoryIndex \<Rightarrow> (Pages, 'e) outcome" where
  "in_memory_size p self mem_index =
     bind_ok (unwrap (pm_get (in_memories self) mem_index)) (\<lambda>mem.
     bind_ok (ish_get (pr_memories p) mem) (vm_size (pr_cells p)))"

definition imported_memory_size :: "process \<Rightarrow> VMInstance \<Rightarrow> MemoryIndex \<Rightarrow> (Pages, 'e) outcome" where
  "imported_memory_size p self mem_index =
     bind_ok (imported_memory self mem_index) (\<lambda>import.
     bind_ok (ish_get (pr_memories p) (mmi_handle import)) (vm_size (pr_cells p)))"

definition in_memory_index :: "VMInstance \<Rightarrow> usize \<Rightarrow> (LocalMemoryIndex, 'e) outcome" where
  "in_memory_index self memory =
     bind_ok (usize_sub memory (memories_ptr self)) (\<lambda>d.
     bind_ok (entity_new (d div SIZE_VMMemoryDefinition)) (\<lambda>index.
     bind_ok (assert_that (entity_index index < length (in_memories self))) (\<lambda>_. Ok index)))"

definition pr_with_os :: "process \<Rightarrow> (os_state, 'e) outcome \<Rightarrow> (process, 'e) outcome" where
  "pr_with_os p r = bind_ok r (\<lambda>st. Ok (p\<lparr>pr_os := st\<rparr>))"

definition local_memory_copy ::
  "process \<Rightarrow> VMInstance \<Rightarrow> LocalMemoryIndex \<Rightarrow> u32 \<Rightarrow> u32 \<Rightarrow> u32 \<Rightarrow> (process, TrapCode) outcome" where
  "local_memory_copy p self mem_index dst src len =
     bind_ok (in_memory p self mem_index) (\<lambda>memory.
       pr_with_os p (memory_copy (pr_os p) memory dst src len))"

definition imported_memory_copy ::
  "process \<Rightarrow> VMInstance \<Rightarrow> MemoryIndex \<Rightarrow> u32 \<Rightarrow> u32 \<Rightarrow> u32 \<Rightarrow> (process, TrapCode) outcome" where
  "imported_memory_copy p self mem_index dst src len =
     bind_ok (imported_memory_definition p self mem_index) (\<lambda>memory.
       pr_with_os p (memory_copy (pr_os p) memory dst src len))"

definition local_memory_fill ::
  "process \<Rightarrow> VMInstance \<Rightarrow> LocalMemoryIndex \<Rightarrow> u32 \<Rightarrow> u32 \<Rightarrow> u32 \<Rightarrow> (process, TrapCode) outcome" where
  "local_memory_fill p self mem_index dst val len =
     bind_ok (in_memory p self mem_index) (\<lambda>memory.
       pr_with_os p (memory_fill (pr_os p) memory dst val len))"

definition imported_memory_fill ::
  "process \<Rightarrow> VMInstance \<Rightarrow> MemoryIndex \<Rightarrow> u32 \<Rightarrow> u32 \<Rightarrow> u32 \<Rightarrow> (process, TrapCode) outcome" where
  "imported_memory_fill p self mem_index dst val len =
     bind_ok (imported_memory_definition p self mem_index) (\<lambda>memory.
       pr_with_os p (memory_fill (pr_os p) memory dst val len))"

definition passive_data_of :: "VMInstance \<Rightarrow> DataIndex \<Rightarrow> u8 list" where
  "passive_data_of self data_index =
     (case in_passive_data self data_index of None \<Rightarrow> [] | Some d \<Rightarrow> d)"

definition memory_init ::
  "process \<Rightarrow> VMInstance \<Rightarrow> MemoryIndex \<Rightarrow> DataIndex \<Rightarrow> u32 \<Rightarrow> u32 \<Rightarrow> u32 \<Rightarrow>
     (process, TrapCode) outcome" where
  "memory_init p self mem_index data_index dst src len =
     bind_ok (get_vmmemory self mem_index) (\<lambda>h.
     bind_ok (ish_get (pr_memories p) h) (\<lambda>memory.
       let data = passive_data_of self data_index in
       bind_ok (vm_vmmemory (pr_cells p) memory) (\<lambda>md.
         if beyond src len (length data) \<or> beyond dst len (md_current_length md)
         then Err HeapAccessOutOfBounds
         else pr_with_os p (vm_initialize_with_data (pr_os p) (pr_cells p) memory (unat dst)
                (take (unat len) (drop (unat src) data))))))"

definition data_drop :: "VMInstance \<Rightarrow> DataIndex \<Rightarrow> VMInstance" where
  "data_drop self data_index = self\<lparr>in_passive_data := (in_passive_data self)(data_index := None)\<rparr>"

section \<open>Tables\<close>

definition in_table_index :: "VMInstance \<Rightarrow> usize \<Rightarrow> (LocalTableIndex, 'e) outcome" where
  "in_table_index self table =
     bind_ok (usize_sub table (tables_ptr self)) (\<lambda>d.
     bind_ok (entity_new (d div SIZE_VMTableDefinition)) (\<lambda>index.
     bind_ok (assert_that (entity_index index < length (in_tables self))) (\<lambda>_. Ok index)))"

definition local_table_handle :: "VMInstance \<Rightarrow> LocalTableIndex \<Rightarrow> (InternalStoreHandle, 'e) outcome"
  where
  "local_table_handle self tab_index = unwrap (pm_get (in_tables self) tab_index)"

definition imported_table_handle :: "VMInstance \<Rightarrow> TableIndex \<Rightarrow> (InternalStoreHandle, 'e) outcome" where
  "imported_table_handle self tab_index =
     bind_ok (imported_table self tab_index) (\<lambda>import. Ok (tbi_handle import))"

text \<open>\<open>get_table_handle\<close>, and \<open>get_table\<close>, which resolves the same handle.\<close>

definition get_table_handle :: "VMInstance \<Rightarrow> TableIndex \<Rightarrow> (InternalStoreHandle, 'e) outcome" where
  "get_table_handle self tab_index =
     bind_ok (local_table_index (in_module self) tab_index) (\<lambda>l.
       case l of
         Some local_index \<Rightarrow> local_table_handle self local_index
       | None \<Rightarrow> imported_table_handle self tab_index)"

definition table_size_of :: "process \<Rightarrow> InternalStoreHandle \<Rightarrow> (u32, 'e) outcome" where
  "table_size_of p h = bind_ok (ish_get (pr_tables p) h) (\<lambda>t. Ok (table_size t))"

definition in_table_size :: "process \<Rightarrow> VMInstance \<Rightarrow> LocalTableIndex \<Rightarrow> (u32, 'e) outcome" where
  "in_table_size p self tab_index =
     bind_ok (local_table_handle self tab_index) (table_size_of p)"

definition imported_table_size :: "process \<Rightarrow> VMInstance \<Rightarrow> TableIndex \<Rightarrow> (u32, 'e) outcome" where
  "imported_table_size p self tab_index =
     bind_ok (imported_table_handle self tab_index) (table_size_of p)"

text \<open>A refused request leaves the table as it is; \<open>alloc\<close> is the allocator of \<open>Table\<close>.\<close>

definition grow_table ::
  "(nat \<Rightarrow> usize) \<Rightarrow> u32 \<Rightarrow> TableElement \<Rightarrow> VMTable \<Rightarrow> (u32 option \<times> VMTable, 'e) outcome" where
  "grow_table alloc delta init_value t =
     (case table_grow alloc t delta init_value of
        None \<Rightarrow> Ok (None, t) | Some (prev, t') \<Rightarrow> Ok (Some prev, t'))"

definition in_table_grow ::
  "(nat \<Rightarrow> usize) \<Rightarrow> process \<Rightarrow> VMInstance \<Rightarrow> LocalTableIndex \<Rightarrow> u32 \<Rightarrow> TableElement \<Rightarrow>
     (u32 option \<times> process, 'e) outcome" where
  "in_table_grow alloc p self tab_index delta init_value =
     bind_ok (local_table_handle self tab_index) (\<lambda>h.
       on_table p h (grow_table alloc delta init_value))"

definition imported_table_grow ::
  "(nat \<Rightarrow> usize) \<Rightarrow> process \<Rightarrow> VMInstance \<Rightarrow> TableIndex \<Rightarrow> u32 \<Rightarrow> TableElement \<Rightarrow>
     (u32 option \<times> process, 'e) outcome" where
  "imported_table_grow alloc p self tab_index delta init_value =
     bind_ok (imported_table_handle self tab_index) (\<lambda>h.
       on_table p h (grow_table alloc delta init_value))"

definition in_table_get ::
  "process \<Rightarrow> VMInstance \<Rightarrow> LocalTableIndex \<Rightarrow> u32 \<Rightarrow> (TableElement option, 'e) outcome" where
  "in_table_get p self tab_index index =
     bind_ok (local_table_handle self tab_index) (\<lambda>h.
     bind_ok (ish_get (pr_tables p) h) (\<lambda>t. table_get t index))"

definition imported_table_get ::
  "process \<Rightarrow> VMInstance \<Rightarrow> TableIndex \<Rightarrow> u32 \<Rightarrow> (TableElement option, 'e) outcome" where
  "imported_table_get p self tab_index index =
     bind_ok (imported_table_handle self tab_index) (\<lambda>h.
     bind_ok (ish_get (pr_tables p) h) (\<lambda>t. table_get t index))"

definition on_table_unit ::
  "process \<Rightarrow> InternalStoreHandle \<Rightarrow> (VMTable \<Rightarrow> (VMTable, 'e) outcome) \<Rightarrow> (process, 'e) outcome" where
  "on_table_unit p h f =
     bind_ok (on_table p h (\<lambda>t. bind_ok (f t) (\<lambda>t'. Ok ((), t')))) (\<lambda>(_, p'). Ok p')"

definition in_table_set ::
  "process \<Rightarrow> VMInstance \<Rightarrow> LocalTableIndex \<Rightarrow> u32 \<Rightarrow> TableElement \<Rightarrow> (process, TrapCode) outcome" where
  "in_table_set p self tab_index index val =
     bind_ok (local_table_handle self tab_index) (\<lambda>h. on_table_unit p h (\<lambda>t. table_set t index val))"

definition imported_table_set ::
  "process \<Rightarrow> VMInstance \<Rightarrow> TableIndex \<Rightarrow> u32 \<Rightarrow> TableElement \<Rightarrow> (process, TrapCode) outcome" where
  "imported_table_set p self tab_index index val =
     bind_ok (imported_table_handle self tab_index) (\<lambda>h.
       on_table_unit p h (\<lambda>t. table_set t index val))"

text \<open>The reference to a function is the address of its record.\<close>

definition func_ref :: "VMInstance \<Rightarrow> FunctionIndex \<Rightarrow> (usize option, 'e) outcome" where
  "func_ref self function_index =
     (if function_index = reserved_value then Ok None
      else bind_ok (local_func_index (in_module self) function_index) (\<lambda>l.
        case l of
          Some local_function_index \<Rightarrow>
            bind_ok (pm_index (in_funcrefs self) local_function_index) (\<lambda>_.
              Ok (Some (in_funcrefs_ptr self +
                unat local_function_index * SIZE_VMCallerCheckedAnyfunc)))
        | None \<Rightarrow>
            bind_ok (pm_index (in_imported_funcrefs self) function_index) (\<lambda>r. Ok (Some r))))"

definition passive_elements_of :: "VMInstance \<Rightarrow> ElemIndex \<Rightarrow> usize option list" where
  "passive_elements_of self elem_index =
     (case in_passive_elements self elem_index of None \<Rightarrow> [] | Some e \<Rightarrow> e)"

text \<open>Setting one element after the other, each expected to succeed.\<close>

fun table_set_all :: "VMTable \<Rightarrow> (u32 \<times> TableElement) list \<Rightarrow> (VMTable, TrapCode) outcome" where
  "table_set_all t [] = Ok t"
| "table_set_all t ((i, v) # es) =
     bind_ok (unwrap_res (table_set t i v)) (\<lambda>t'. table_set_all t' es)"

definition table_init_entries ::
  "usize option list \<Rightarrow> u32 \<Rightarrow> u32 \<Rightarrow> u32 \<Rightarrow> (u32 \<times> TableElement) list" where
  "table_init_entries elem dst src len =
     map (\<lambda>k. (dst + of_nat k, ElFuncRef (elem ! (unat src + k)))) [0..<unat len]"

definition table_init ::
  "process \<Rightarrow> VMInstance \<Rightarrow> TableIndex \<Rightarrow> ElemIndex \<Rightarrow> u32 \<Rightarrow> u32 \<Rightarrow> u32 \<Rightarrow>
     (process, TrapCode) outcome" where
  "table_init p self tab_index elem_index dst src len =
     bind_ok (get_table_handle self tab_index) (\<lambda>h.
       on_table_unit p h (\<lambda>table.
         let elem = passive_elements_of self elem_index in
         if beyond src len (length elem) \<or> out_of_bounds dst len (table_size table)
         then Err TableAccessOutOfBounds
         else table_set_all table (table_init_entries elem dst src len)))"

definition table_fill ::
  "process \<Rightarrow> VMInstance \<Rightarrow> TableIndex \<Rightarrow> u32 \<Rightarrow> TableElement \<Rightarrow> u32 \<Rightarrow> (process, TrapCode) outcome" where
  "table_fill p self tab_index start_index item len =
     bind_ok (get_table_handle self tab_index) (\<lambda>h.
       on_table_unit p h (\<lambda>table.
         if beyond start_index len (unat (table_size table)) then Err TableAccessOutOfBounds
         else table_set_all table (map (\<lambda>k. (start_index + of_nat k, item)) [0..<unat len])))"

definition elem_drop :: "VMInstance \<Rightarrow> ElemIndex \<Rightarrow> VMInstance" where
  "elem_drop self elem_index =
     self\<lparr>in_passive_elements := (in_passive_elements self)(elem_index := None)\<rparr>"

section \<open>Waiting and notifying\<close>

text \<open>
  \<open>do_wait\<close> and \<open>do_notify\<close> stand for the operations of the wait lists (\<open>Thread_Conditions\<close>) of
  the memory, which return when the thread is woken. The timeout is in nanoseconds.
\<close>

type_synonym wait_fn =
  "nat \<Rightarrow> NotifyLocation \<Rightarrow> ExpectedValue \<Rightarrow> nat option \<Rightarrow> (u32, WaiterError) outcome"

definition vm_do_wait ::
  "wait_fn \<Rightarrow> cells \<Rightarrow> VMMemory \<Rightarrow> u32 \<Rightarrow> ExpectedValue \<Rightarrow> nat option \<Rightarrow> (u32, WaiterError) outcome" where
  "vm_do_wait do_wait c memory dst expected timeout =
     bind_ok (vm_wait_location c memory dst) (\<lambda>loc.
     bind_ok (ok_or Unimplemented (vm_thread_conditions memory)) (\<lambda>conds.
       do_wait conds loc expected timeout))"

definition memory_wait ::
  "wait_fn \<Rightarrow> cells \<Rightarrow> VMMemory \<Rightarrow> u32 \<Rightarrow> ExpectedValue \<Rightarrow> i64 \<Rightarrow> (u32, TrapCode) outcome" where
  "memory_wait do_wait c memory dst expected timeout =
     (let t = (if timeout <s 0 then None else Some (unat timeout)) in
      case vm_do_wait do_wait c memory dst expected t of
        Ok count \<Rightarrow> Ok count
      | Err _ \<Rightarrow> Err TableAccessOutOfBounds
      | Panic \<Rightarrow> Panic)"

text \<open>After the check of the value: wait when it is the expected one.\<close>

definition wait_checked ::
  "wait_fn \<Rightarrow> process \<Rightarrow> (InternalStoreHandle, TrapCode) outcome \<Rightarrow> u32 \<Rightarrow> ExpectedValue \<Rightarrow> i64 \<Rightarrow>
     (u32, TrapCode) outcome \<Rightarrow> (u32, TrapCode) outcome" where
  "wait_checked do_wait p handle dst expected timeout check =
     bind_ok check (\<lambda>ret.
       if ret = 0
       then bind_ok handle (\<lambda>h. bind_ok (ish_get (pr_memories p) h) (\<lambda>memory.
              memory_wait do_wait (pr_cells p) memory dst expected timeout))
       else Ok ret)"

definition local_memory_wait32 ::
  "wait_fn \<Rightarrow> process \<Rightarrow> VMInstance \<Rightarrow> LocalMemoryIndex \<Rightarrow> u32 \<Rightarrow> u32 \<Rightarrow> i64 \<Rightarrow> (u32, TrapCode) outcome"
  where
  "local_memory_wait32 do_wait p self mem_index dst val timeout =
     bind_ok (in_memory p self mem_index) (\<lambda>memory.
       wait_checked do_wait p (get_local_vmmemory self mem_index) dst (U32 val) timeout
         (memory32_atomic_check32 (pr_os p) memory dst val))"

definition imported_memory_wait32 ::
  "wait_fn \<Rightarrow> process \<Rightarrow> VMInstance \<Rightarrow> MemoryIndex \<Rightarrow> u32 \<Rightarrow> u32 \<Rightarrow> i64 \<Rightarrow> (u32, TrapCode) outcome" where
  "imported_memory_wait32 do_wait p self mem_index dst val timeout =
     bind_ok (imported_memory_definition p self mem_index) (\<lambda>memory.
       wait_checked do_wait p (get_vmmemory self mem_index) dst (U32 val) timeout
         (memory32_atomic_check32 (pr_os p) memory dst val))"

definition local_memory_wait64 ::
  "wait_fn \<Rightarrow> process \<Rightarrow> VMInstance \<Rightarrow> LocalMemoryIndex \<Rightarrow> u32 \<Rightarrow> u64 \<Rightarrow> i64 \<Rightarrow> (u32, TrapCode) outcome"
  where
  "local_memory_wait64 do_wait p self mem_index dst val timeout =
     bind_ok (in_memory p self mem_index) (\<lambda>memory.
       wait_checked do_wait p (get_local_vmmemory self mem_index) dst (U64 val) timeout
         (memory32_atomic_check64 (pr_os p) memory dst val))"

definition imported_memory_wait64 ::
  "wait_fn \<Rightarrow> process \<Rightarrow> VMInstance \<Rightarrow> MemoryIndex \<Rightarrow> u32 \<Rightarrow> u64 \<Rightarrow> i64 \<Rightarrow> (u32, TrapCode) outcome" where
  "imported_memory_wait64 do_wait p self mem_index dst val timeout =
     bind_ok (imported_memory_definition p self mem_index) (\<lambda>memory.
       wait_checked do_wait p (get_vmmemory self mem_index) dst (U64 val) timeout
         (memory32_atomic_check64 (pr_os p) memory dst val))"

fun vm_do_notify :: "(nat \<Rightarrow> u32 \<Rightarrow> u32 \<Rightarrow> u32) \<Rightarrow> VMMemory \<Rightarrow> u32 \<Rightarrow> u32 \<Rightarrow> u32" where
  "vm_do_notify do_notify (OwnedMemory _) dst count = 0"
| "vm_do_notify do_notify (SharedMemory h) dst count = do_notify (shm_conditions h) dst count"

definition local_memory_notify ::
  "(nat \<Rightarrow> u32 \<Rightarrow> u32 \<Rightarrow> u32) \<Rightarrow> process \<Rightarrow> VMInstance \<Rightarrow> LocalMemoryIndex \<Rightarrow> u32 \<Rightarrow> u32 \<Rightarrow>
     (u32, TrapCode) outcome" where
  "local_memory_notify do_notify p self mem_index dst count =
     bind_ok (get_local_vmmemory self mem_index) (\<lambda>h.
     bind_ok (ish_get (pr_memories p) h) (\<lambda>memory.
       Ok (vm_do_notify do_notify memory dst count)))"

definition imported_memory_notify ::
  "(nat \<Rightarrow> u32 \<Rightarrow> u32 \<Rightarrow> u32) \<Rightarrow> process \<Rightarrow> VMInstance \<Rightarrow> MemoryIndex \<Rightarrow> u32 \<Rightarrow> u32 \<Rightarrow>
     (u32, TrapCode) outcome" where
  "imported_memory_notify do_notify p self mem_index dst count =
     bind_ok (get_vmmemory self mem_index) (\<lambda>h.
     bind_ok (ish_get (pr_memories p) h) (\<lambda>memory.
       Ok (vm_do_notify do_notify memory dst count)))"

section \<open>Tables of an instance\<close>

text \<open>The handles of an instance name tables of the store, all of which are well formed.\<close>

definition tables_linked :: "process \<Rightarrow> VMInstance \<Rightarrow> bool" where
  "tables_linked p self =
     (list_all table_wf (pr_tables p) \<and>
      list_all (ish_valid (pr_tables p)) (in_tables self) \<and>
      list_all (\<lambda>i. ish_valid (pr_tables p) (tbi_handle i)) (im_tables (in_imports self)) \<and>
      length (im_tables (in_imports self)) = mi_num_imported_tables (in_module self) \<and>
      length (in_tables self) + mi_num_imported_tables (in_module self) =
        length (mi_tables (in_module self)) \<and>
      length (mi_tables (in_module self)) < 2 ^ 32 \<and>
      (\<forall>e. length (passive_elements_of self e) < 2 ^ 32))"

lemma unat_not_reserved: "unat i < n \<Longrightarrow> n < 2 ^ 32 \<Longrightarrow> (i :: u32) \<noteq> reserved_value"
  by (auto simp: reserved_value_def)

lemma local_index_eq:
  assumes "i \<noteq> reserved_value"
  shows "map_new (usize_checked_sub (entity_index i) n) =
    (if unat i < n then Ok None else Ok (Some (as_u32 (unat i - n))))"
proof -
  from assms have "unat i \<noteq> 4294967295" by (simp add: reserved_value_def word_unat_eq_iff)
  with unat_u32_less [of i] have "unat i < 4294967295" by linarith
  then show ?thesis
    by (auto simp: usize_checked_sub_def entity_index_def entity_new_def assert_that_def)
qed

lemma get_table_handle_valid:
  assumes "tables_linked p self" and "unat i < length (mi_tables (in_module self))"
  shows "\<exists>h. get_table_handle self i = Ok h \<and> ish_valid (pr_tables p) h"
proof -
  let ?n = "mi_num_imported_tables (in_module self)"
  have "i \<noteq> reserved_value" and small: "unat i - ?n < 2 ^ 32"
    using assms unat_not_reserved [of i] by (auto simp: tables_linked_def)
  note eq = local_index_eq [OF this(1), of ?n, folded local_table_index_def]
  show ?thesis
  proof (cases "unat i < ?n")
    case True
    with assms show ?thesis
      by (auto simp: eq get_table_handle_def imported_table_handle_def imported_table_def
          tables_linked_def outcome_simps nth_opt_def list_all_length)
  next
    case False
    with assms have "unat i - ?n < length (in_tables self)" by (auto simp: tables_linked_def)
    with False assms small show ?thesis
      by (auto simp: eq get_table_handle_def local_table_handle_def pm_get_def entity_index_def
          tables_linked_def nth_opt_def list_all_length unat_as_u32)
  qed
qed

text \<open>The table behind an index, and the process with that table replaced.\<close>

lemma on_table_unit_eq:
  assumes "ish_valid (pr_tables p) h"
  shows "on_table_unit p h f = bind_ok (f (pr_tables p ! (h - 1))) (\<lambda>t.
    Ok (pr_set_tables p ((pr_tables p)[h - 1 := t])))"
proof -
  have "ish_get (pr_tables p) h = (Ok (pr_tables p ! (h - 1)) :: (_, 'a) outcome)"
    "\<And>t. ish_set (pr_tables p) h t = (Ok ((pr_tables p)[h - 1 := t]) :: (_, 'a) outcome)"
    using assms by (simp_all add: outcome_simps)
  then show ?thesis
    by (cases "f (pr_tables p ! (h - 1))") (simp_all add: on_table_unit_def on_table_def)
qed

lemma table_set_all_ok:
  assumes "\<forall>(i, v) \<in> set es. unat i < length (vt_vec t) \<and> element_matches (tt_ty (vt_table t)) v"
  shows "table_set_all t es =
    Ok (t\<lparr>vt_vec := fold (\<lambda>(i, v) xs. xs[unat i := raw_from_element v]) es (vt_vec t)\<rparr>)"
  using assms
proof (induction es arbitrary: t)
  case (Cons e es)
  obtain i v where e: "e = (i, v)" by (cases e)
  let ?t = "t\<lparr>vt_vec := (vt_vec t)[unat i := raw_from_element v]\<rparr>"
  have "table_set t i v = Ok ?t" using Cons.prems by (simp add: table_set_def e)
  moreover have "\<forall>(i, v) \<in> set es. unat i < length (vt_vec ?t) \<and>
      element_matches (tt_ty (vt_table ?t)) v"
    using Cons.prems by simp
  ultimately show ?case using Cons.IH [of ?t] by (simp add: e)
qed simp

lemma table_set_all_panic:
  assumes "unat i < length (vt_vec t)" and "\<not> element_matches (tt_ty (vt_table t)) v"
  shows "table_set_all t ((i, v) # es) = Panic"
  using assms by (simp add: table_set_def)

text \<open>Elements written to consecutive indices are a block.\<close>

lemma fold_entries_blit:
  assumes "unat dst + unat len \<le> length xs" and "length xs < 2 ^ 32"
    and "src + unat len \<le> length vs"
    and "\<And>k. k < unat len \<Longrightarrow> raw_from_element (g k) = vs ! (src + k)"
  shows "fold (\<lambda>(i, v) xs. xs[unat i := raw_from_element v])
      (map (\<lambda>k. ((dst :: u32) + of_nat k, g k)) [0..<unat (len :: u32)]) xs =
    list_blit xs (unat dst) vs src (unat len)"
proof -
  have "fold (\<lambda>(i, v) xs. xs[unat i := raw_from_element v])
      (map (\<lambda>k. (dst + of_nat k, g k)) [0..<unat len]) xs =
    fold (\<lambda>k xs. xs[unat dst + k := vs ! (src + k)]) [0..<unat len] xs"
    unfolding fold_map o_def
    by (rule fold_cong [OF refl refl])
      (use assms(4) unat_index_add [OF assms(1,2)] in auto)
  also have "\<dots> = list_blit xs (unat dst) vs src (unat len)"
    using assms by (intro fold_blit) (auto simp: atLeast0LessThan)
  finally show ?thesis .
qed

lemma entries_within:
  assumes "unat (dst :: u32) + unat (len :: u32) \<le> n" and "n < 2 ^ 32"
  shows "\<forall>(i, v) \<in> set (map (\<lambda>k. (dst + of_nat k, g k)) [0..<unat len]). unat i < n"
  using assms unat_index_add [OF assms] by auto

text \<open>Both range checks of \<open>table.init\<close> and \<open>table.fill\<close>.\<close>

lemma beyond_small: "n < 2 ^ 32 \<Longrightarrow> beyond a len n \<longleftrightarrow> n < unat a + unat len"
  by (auto simp: beyond_iff)

lemma table_init_within:
  assumes "table_wf t" and "tt_ty (vt_table t) = FuncRef" and "length elem < 2 ^ 32"
    and "unat src + unat len \<le> length elem" and "unat dst + unat len \<le> length (vt_vec t)"
  shows "table_set_all t (table_init_entries elem dst src len) =
    Ok (t\<lparr>vt_vec := list_blit (vt_vec t) (unat dst) (map raw_ref elem) (unat src) (unat len)\<rparr>)"
proof -
  have lim: "length (vt_vec t) < 2 ^ 32" using assms(1) by (simp add: table_wf_def)
  have "\<forall>(i, v) \<in> set (table_init_entries elem dst src len).
      unat i < length (vt_vec t) \<and> element_matches (tt_ty (vt_table t)) v"
    using entries_within [OF assms(5) lim] assms(2) by (auto simp: table_init_entries_def)
  note run = table_set_all_ok [OF this]
  show ?thesis
    unfolding run unfolding table_init_entries_def
    using assms(4) by (subst fold_entries_blit [OF assms(5) lim, where vs = "map raw_ref elem"]) auto
qed

lemma table_fill_within:
  assumes "table_wf t" and "element_matches (tt_ty (vt_table t)) item"
    and "unat (start :: u32) + unat (len :: u32) \<le> length (vt_vec t)"
  shows "table_set_all t (map (\<lambda>k. (start + of_nat k, item)) [0..<unat len]) =
    Ok (t\<lparr>vt_vec := list_blit (vt_vec t) (unat start)
      (replicate (unat len) (raw_from_element item)) 0 (unat len)\<rparr>)"
proof -
  have lim: "length (vt_vec t) < 2 ^ 32" using assms(1) by (simp add: table_wf_def)
  have "\<forall>(i, v) \<in> set (map (\<lambda>k. (start + of_nat k, item)) [0..<unat len]).
      unat i < length (vt_vec t) \<and> element_matches (tt_ty (vt_table t)) v"
    using entries_within [OF assms(3) lim, of "\<lambda>_. item"] assms(2) by auto
  note run = table_set_all_ok [OF this]
  show ?thesis
    unfolding run by (subst fold_entries_blit [OF assms(3) lim]) auto
qed

text \<open>
  C33: \<open>table.init\<close> and \<open>table.fill\<close> on any table of an instance, local or imported. Both trap exactly
  when a range leaves the table or the element segment, and before anything is written.
  Otherwise \<open>table.init\<close> puts the block of references of the segment into a table of function
  references, \<open>table.fill\<close> repeats one element, and no other table or object changes. After
  \<open>elem.drop\<close> a segment counts as empty.
\<close>

theorem table_init_fill_correct:
  assumes "tables_linked p self" and "unat i < length (mi_tables (in_module self))"
    and "get_table_handle self i = (Ok h :: (InternalStoreHandle, TrapCode) outcome)"
  defines "t \<equiv> pr_tables p ! (h - 1)"
  shows "(tt_ty (vt_table t) = FuncRef \<longrightarrow> table_init p self i e dst src len =
      (if unat src + unat len \<le> length (passive_elements_of self e) \<and>
          unat dst + unat len \<le> length (vt_vec t)
       then Ok (pr_set_tables p ((pr_tables p)[h - 1 := t\<lparr>vt_vec := list_blit (vt_vec t) (unat dst)
         (map raw_ref (passive_elements_of self e)) (unat src) (unat len)\<rparr>]))
       else Err TableAccessOutOfBounds)) \<and>
    (element_matches (tt_ty (vt_table t)) item \<longrightarrow> table_fill p self i dst item len =
      (if unat dst + unat len \<le> length (vt_vec t)
       then Ok (pr_set_tables p ((pr_tables p)[h - 1 := t\<lparr>vt_vec := list_blit (vt_vec t) (unat dst)
         (replicate (unat len) (raw_from_element item)) 0 (unat len)\<rparr>]))
       else Err TableAccessOutOfBounds)) \<and>
    (0 < len \<longrightarrow> table_init p (elem_drop self e) i e dst src len = Err TableAccessOutOfBounds)"
proof -
  obtain h' where "get_table_handle self i = (Ok h' :: (InternalStoreHandle, TrapCode) outcome)"
    "ish_valid (pr_tables p) h'"
    using get_table_handle_valid [OF assms(1,2)] by blast
  with assms(3) have h: "ish_valid (pr_tables p) h" by simp
  then have t: "table_wf t" using assms(1) by (auto simp: t_def tables_linked_def list_all_length ish_valid_def)
  have lim: "length (passive_elements_of self e) < 2 ^ 32" "length (vt_vec t) < 2 ^ 32"
    using assms(1) t by (auto simp: tables_linked_def table_wf_def)
  note on = on_table_unit_eq [OF h, folded t_def]
  have drop: "get_table_handle (elem_drop self e) i = (Ok h :: (InternalStoreHandle, TrapCode) outcome)"
    "passive_elements_of (elem_drop self e) e = []"
    using assms(3) by (simp_all add: elem_drop_def get_table_handle_def local_table_handle_def
        imported_table_handle_def imported_table_def passive_elements_of_def cong: option.case_cong)
  have init: "table_init p self i e dst src len =
      (if unat src + unat len \<le> length (passive_elements_of self e) \<and>
          unat dst + unat len \<le> length (vt_vec t)
       then Ok (pr_set_tables p ((pr_tables p)[h - 1 := t\<lparr>vt_vec := list_blit (vt_vec t) (unat dst)
         (map raw_ref (passive_elements_of self e)) (unat src) (unat len)\<rparr>]))
       else Err TableAccessOutOfBounds)" if "tt_ty (vt_table t) = FuncRef"
    using table_init_within [OF t that lim(1), of src len dst]
    by (auto simp: table_init_def assms(3) on beyond_small [OF lim(1)] out_of_bounds_iff
        table_size_wf [OF t] Let_def)
  have fill: "table_fill p self i dst item len =
      (if unat dst + unat len \<le> length (vt_vec t)
       then Ok (pr_set_tables p ((pr_tables p)[h - 1 := t\<lparr>vt_vec := list_blit (vt_vec t) (unat dst)
         (replicate (unat len) (raw_from_element item)) 0 (unat len)\<rparr>]))
       else Err TableAccessOutOfBounds)" if "element_matches (tt_ty (vt_table t)) item"
    using table_fill_within [OF t that, of dst len]
    by (auto simp: table_fill_def assms(3) on beyond_small [OF lim(2)] table_size_wf [OF t])
  have "beyond src len 0" if "0 < len"
    using that by (auto simp: beyond_iff word_less_nat_alt)
  then have "table_init p (elem_drop self e) i e dst src len = Err TableAccessOutOfBounds"
    if "0 < len"
    using that by (simp add: table_init_def drop on)
  with init fill show ?thesis by blast
qed

text \<open>A process with one table and one memory, and an instance that owns both.\<close>

definition example_process :: process where
  "example_process = \<lparr>pr_os = example_memory_state, pr_cells = example_cells,
     pr_store = \<lparr>so_memories = [OwnedMemory example_memory], so_tables = [example_table],
       so_globals = [], so_functions = [], so_tags = []\<rparr>\<rparr>"

definition example_instance :: VMInstance where
  "example_instance = \<lparr>
     in_module = (module_new 0)\<lparr>mi_tables := [vt_table example_table], mi_memories := [example_type]\<rparr>,
     in_offsets = new_for_trampolines 8, in_memories = [1], in_tables = [1], in_globals = [],
     in_tags = [], in_functions = [], in_function_call_trampolines = [],
     in_passive_elements = [0 \<mapsto> [Some 11, None]], in_passive_data = [0 \<mapsto> [1, 2, 3]],
     in_funcrefs_ptr = 4096, in_funcrefs = [], in_imported_funcrefs = [], in_vmctx_ptr = 8192,
     in_tag_ids = [], in_signature_ids = [], in_imports = imports_none, in_global_ptrs = [],
     in_builtin_functions = []\<rparr>"

lemma example_tables_linked: "tables_linked example_process example_instance"
  using example_table_wf
  by (simp add: tables_linked_def example_process_def pr_tables_def example_instance_def ish_valid_def
      imports_none_def pm_new_def module_new_def passive_elements_of_def)

lemma example_table_handle: "get_table_handle example_instance 0 = Ok 1"
  by (simp add: get_table_handle_def local_table_index_def example_instance_def module_new_def
      usize_checked_sub_def entity_index_def entity_new_def local_table_handle_def pm_get_def
      nth_opt_def as_u32_def)

theorem table_init_fill_correct_witness:
  "table_init example_process example_instance 0 0 2 0 2 =
     Ok (pr_set_tables example_process [example_table\<lparr>vt_vec := [11, 12, 11, 0]\<rparr>]) \<and>
   table_init example_process example_instance 0 0 3 0 2 = Err TableAccessOutOfBounds \<and>
   is_ok (table_fill example_process example_instance 0 1 (ElFuncRef None) 3)"
proof -
  have t: "pr_tables example_process = [example_table]"
    by (simp add: pr_tables_def example_process_def)
  have el: "passive_elements_of example_instance 0 = [Some 11, None]"
    by (simp add: passive_elements_of_def example_instance_def)
  have i: "unat (0 :: u32) < length (mi_tables (in_module example_instance))"
    by (simp add: example_instance_def)
  note inst = table_init_fill_correct [OF example_tables_linked i example_table_handle]
  show ?thesis
    using inst [where e = 0 and dst = 2 and src = 0 and len = 2 and item = "ElFuncRef None"]
      inst [where e = 0 and dst = 3 and src = 0 and len = 2 and item = "ElFuncRef None"]
      inst [where e = 0 and dst = 1 and src = 0 and len = 3 and item = "ElFuncRef None"]
    by (simp add: t el example_table_def list_blit_def)
qed

text \<open>
  \<open>table.init\<close> and tables of external references. The references of a segment are always
  written as function references, so that initialising a non-empty range of a table of external
  references panics, although a module may declare such segments and active segments of this
  kind are handled.
\<close>

lemma table_init_externref_panics:
  assumes "tables_linked p self" and "unat i < length (mi_tables (in_module self))"
    and "get_table_handle self i = (Ok h :: (InternalStoreHandle, TrapCode) outcome)"
    and "tt_ty (vt_table (pr_tables p ! (h - 1))) = ExternRef" and "0 < len"
    and "unat src + unat len \<le> length (passive_elements_of self e)"
    and "unat dst + unat len \<le> length (vt_vec (pr_tables p ! (h - 1)))"
  shows "table_init p self i e dst src len = Panic"
proof -
  let ?el = "passive_elements_of self e"
  define t where "t = pr_tables p ! (h - 1)"
  obtain h' where "get_table_handle self i = (Ok h' :: (InternalStoreHandle, TrapCode) outcome)"
    "ish_valid (pr_tables p) h'"
    using get_table_handle_valid [OF assms(1,2)] by blast
  with assms(3) have h: "ish_valid (pr_tables p) h" by simp
  then have t: "table_wf t" using assms(1) by (auto simp: t_def tables_linked_def list_all_length ish_valid_def)
  have "length ?el < 2 ^ 32" using assms(1) by (simp add: tables_linked_def)
  note lim = beyond_small [OF this]
  obtain n where n: "unat len = Suc n" using assms(5) by (cases "unat len") (auto simp: word_less_nat_alt)
  then have "table_init_entries ?el dst src len =
      (dst, ElFuncRef (?el ! unat src)) #
      map (\<lambda>k. (dst + of_nat k, ElFuncRef (?el ! (unat src + k)))) [1..<Suc n]"
    by (simp add: table_init_entries_def upt_conv_Cons del: upt_Suc)
  then have "table_set_all t (table_init_entries ?el dst src len) = Panic"
    using table_set_all_panic [of dst t] assms(4,7) [folded t_def] n
    by (simp only:) (simp del: table_set_all.simps)
  then show ?thesis
    using assms(6,7) unfolding t_def [symmetric]
    by (simp add: table_init_def assms(3) on_table_unit_eq [OF h, folded t_def] lim out_of_bounds_iff
        table_size_wf [OF t])
qed

section \<open>Memories of an instance\<close>

definition memories_linked :: "os \<Rightarrow> process \<Rightarrow> VMInstance \<Rightarrow> bool" where
  "memories_linked os p self =
     ((\<forall>m \<in> set (pr_memories p). vm_inv os (pr_os p) (pr_cells p, m)) \<and>
      list_all (ish_valid (pr_memories p)) (in_memories self) \<and>
      list_all (\<lambda>i. ish_valid (pr_memories p) (mmi_handle i) \<and> mmi_definition i = mmi_handle i)
        (im_memories (in_imports self)) \<and>
      length (im_memories (in_imports self)) = mi_num_imported_memories (in_module self) \<and>
      length (in_memories self) + mi_num_imported_memories (in_module self) =
        length (mi_memories (in_module self)) \<and>
      length (mi_memories (in_module self)) < 2 ^ 32 \<and>
      (\<forall>d. length (passive_data_of self d) < 2 ^ 32))"

lemma get_vmmemory_valid:
  assumes "memories_linked os p self" and "unat i < length (mi_memories (in_module self))"
  shows "\<exists>h. get_vmmemory self i = Ok h \<and> ish_valid (pr_memories p) h"
proof -
  let ?n = "mi_num_imported_memories (in_module self)"
  have "i \<noteq> reserved_value" and small: "unat i - ?n < 2 ^ 32"
    using assms unat_not_reserved [of i] by (auto simp: memories_linked_def)
  note eq = local_index_eq [OF this(1), of ?n, folded local_memory_index_def]
  show ?thesis
  proof (cases "unat i < ?n")
    case True
    with assms show ?thesis
      by (auto simp: eq get_vmmemory_def imported_memory_def memories_linked_def outcome_simps
          nth_opt_def list_all_length)
  next
    case False
    with assms have "unat i - ?n < length (in_memories self)" by (auto simp: memories_linked_def)
    with False assms small show ?thesis
      by (auto simp: eq get_vmmemory_def get_local_vmmemory_def pm_get_def entity_index_def
          memories_linked_def nth_opt_def list_all_length unat_as_u32)
  qed
qed

lemma vm_vmmemory_view: "vm_valid (c, m) \<Longrightarrow> vm_vmmemory c m = Ok (om_vmmemory (vm_view (c, m)))"
  by (cases m) (simp_all add: shm_vmmemory_def shm_read_valid om_vmmemory_def)


lemma example_memories_linked: "memories_linked example_os example_process example_instance"
  using example_memory_inv
  by (simp add: memories_linked_def example_process_def pr_memories_def example_instance_def
      ish_valid_def imports_none_def pm_new_def module_new_def passive_data_of_def vm_inv_def)


text \<open>
  The slots of the context. Operations on a local memory read its base and length from the slot
  with its local index; the instance is sound when the memory's definition is there.
\<close>

definition slots_linked :: "process \<Rightarrow> VMInstance \<Rightarrow> bool" where
  "slots_linked p self =
     (\<forall>k < length (in_memories self). memory_slot p (memory_ptr self (as_u32 k)) =
        Some (om_vmmemory (vm_view (pr_cells p, pr_memories p ! (in_memories self ! k - 1)))))"

lemma local_memory_op_linked:
  assumes "slots_linked p self" and "k < length (in_memories self)"
  shows "in_memory p self (as_u32 k) =
    Ok (om_vmmemory (vm_view (pr_cells p, pr_memories p ! (in_memories self ! k - 1))))"
  using assms by (simp add: slots_linked_def in_memory_def)

text \<open>Waiting on a memory that is not shared is reported as an access out of a table.\<close>

lemma memory_wait_unshared:
  "memory_wait do_wait c (OwnedMemory m) dst expected timeout = Err TableAccessOutOfBounds"
  by (simp add: memory_wait_def vm_do_wait_def Let_def)

end
