(* ===== verification/Instance_Init.thy ===== *)
theory Instance_Init
  imports VM_Instance
begin

text \<open>
  What an instance does when it is created, the second half of \<open>lib/vm/src/instance/mod.rs\<close>:
  constant expressions, active element and data segments, passive segments, globals, function
  references and the lookup of exports.
\<close>

section \<open>Constant expressions\<close>

definition get_global :: "process \<Rightarrow> VMInstance \<Rightarrow> GlobalIndex \<Rightarrow> (RawValue, 'e) outcome" where
  "get_global p self index =
     bind_ok (local_global_index (in_module self) index) (\<lambda>l.
       case l of
         Some local_index \<Rightarrow> in_global p self local_index
       | None \<Rightarrow> bind_ok (imported_global self index) (\<lambda>import. global_val p (gbi_definition import)))"

datatype EvaluatedInitExpr = EvI32 i32 | EvI64 i64

text \<open>One operator on the stack, whose top is the head of the list.\<close>

fun init_op32 ::
  "(GlobalIndex \<Rightarrow> (RawValue, 'e) outcome) \<Rightarrow> InitExprOp \<Rightarrow> i32 list \<Rightarrow> (i32 list, 'e) outcome" where
  "init_op32 get (I32Const value) st = Ok (value # st)"
| "init_op32 get (GlobalGetI32 global) st = bind_ok (get global) (\<lambda>v. Ok (raw_i32 v # st))"
| "init_op32 get I32Add (rhs # lhs # st) = Ok ((lhs + rhs) # st)"
| "init_op32 get I32Sub (rhs # lhs # st) = Ok ((lhs - rhs) # st)"
| "init_op32 get I32Mul (rhs # lhs # st) = Ok ((lhs * rhs) # st)"
| "init_op32 get op st = Panic"

fun init_op64 ::
  "(GlobalIndex \<Rightarrow> (RawValue, 'e) outcome) \<Rightarrow> InitExprOp \<Rightarrow> i64 list \<Rightarrow> (i64 list, 'e) outcome" where
  "init_op64 get (I64Const value) st = Ok (value # st)"
| "init_op64 get (GlobalGetI64 global) st = bind_ok (get global) (\<lambda>v. Ok (raw_i64 v # st))"
| "init_op64 get I64Add (rhs # lhs # st) = Ok ((lhs + rhs) # st)"
| "init_op64 get I64Sub (rhs # lhs # st) = Ok ((lhs - rhs) # st)"
| "init_op64 get I64Mul (rhs # lhs # st) = Ok ((lhs * rhs) # st)"
| "init_op64 get op st = Panic"

fun init_ops ::
  "(InitExprOp \<Rightarrow> 'v list \<Rightarrow> ('v list, 'e) outcome) \<Rightarrow> InitExpr \<Rightarrow> 'v list \<Rightarrow> ('v list, 'e) outcome" where
  "init_ops step [] st = Ok st"
| "init_ops step (op # ops) st = bind_ok (step op st) (init_ops step ops)"

fun exactly_one :: "'v list \<Rightarrow> ('v, 'e) outcome" where
  "exactly_one [v] = Ok v"
| "exactly_one _ = Panic"

definition eval_init_expr ::
  "(GlobalIndex \<Rightarrow> (RawValue, 'e) outcome) \<Rightarrow> InitExpr \<Rightarrow> (EvaluatedInitExpr, 'e) outcome" where
  "eval_init_expr get expr =
     (case expr of
        [] \<Rightarrow> Panic
      | op # _ \<Rightarrow>
          if is_32bit_expression op
          then bind_ok (init_ops (init_op32 get) expr []) (\<lambda>st.
                 bind_ok (exactly_one st) (\<lambda>v. Ok (EvI32 v)))
          else bind_ok (init_ops (init_op64 get) expr []) (\<lambda>st.
                 bind_ok (exactly_one st) (\<lambda>v. Ok (EvI64 v))))"

section \<open>Active segments\<close>

text \<open>The offset of a segment: a 32-bit expression, read as a signed number.\<close>

definition segment_start ::
  "process \<Rightarrow> VMInstance \<Rightarrow> TrapCode \<Rightarrow> InitExpr \<Rightarrow> (usize, TrapCode) outcome" where
  "segment_start p self trap offset_expr =
     bind_ok (eval_init_expr (get_global p self) offset_expr) (\<lambda>v.
       case v of
         EvI64 _ \<Rightarrow> Panic
       | EvI32 start \<Rightarrow> if start <s 0 then Err trap else Ok (unat start))"

definition ends_beyond :: "usize \<Rightarrow> usize \<Rightarrow> usize \<Rightarrow> bool" where
  "ends_beyond start len limit =
     (case usize_checked_add start len of None \<Rightarrow> True | Some e \<Rightarrow> limit < e)"

fun table_set_from :: "VMTable \<Rightarrow> usize \<Rightarrow> TableElement list \<Rightarrow> (VMTable, TrapCode) outcome" where
  "table_set_from t i [] = Ok t"
| "table_set_from t i (v # vs) =
     bind_ok (unwrap (u32_try_from i)) (\<lambda>k.
     bind_ok (unwrap_res (table_set t k v)) (\<lambda>t'. table_set_from t' (Suc i) vs))"

definition initialize_table ::
  "process \<Rightarrow> VMInstance \<Rightarrow> TableInitializer \<Rightarrow> (process, TrapCode) outcome" where
  "initialize_table p self init =
     bind_ok (segment_start p self TableAccessOutOfBounds (ti_offset_expr init)) (\<lambda>start.
     bind_ok (get_table_handle self (ti_table_index init)) (\<lambda>h.
     bind_ok (ish_get (pr_tables p) h) (\<lambda>table.
       if ends_beyond start (length (ti_elements init)) (unat (table_size table))
       then Err TableAccessOutOfBounds
       else if tt_ty (vt_table table) = FuncRef
       then bind_ok (map_ok (func_ref self) (ti_elements init)) (\<lambda>refs.
              on_table_unit p h (\<lambda>t. table_set_from t start (map ElFuncRef refs)))
       else on_table_unit p h (\<lambda>t.
              table_set_from t start (replicate (length (ti_elements init)) (ElExternRef None))))))"

text \<open>
  The loops return the trap, if there was one, together with the state it left behind: what
  earlier segments wrote stays.
\<close>

fun initialize_each ::
  "(process \<Rightarrow> 'i \<Rightarrow> (process, TrapCode) outcome) \<Rightarrow> process \<Rightarrow> 'i list \<Rightarrow>
     (TrapCode option \<times> process, unit) outcome" where
  "initialize_each f p [] = Ok (None, p)"
| "initialize_each f p (i # is) =
     (case f p i of
        Ok p' \<Rightarrow> initialize_each f p' is
      | Err trap \<Rightarrow> Ok (Some trap, p)
      | Panic \<Rightarrow> Panic)"

definition initialize_tables ::
  "process \<Rightarrow> VMInstance \<Rightarrow> (TrapCode option \<times> process, unit) outcome" where
  "initialize_tables p self =
     initialize_each (\<lambda>p init. initialize_table p self init) p (mi_table_initializers (in_module self))"

definition initialize_memory ::
  "process \<Rightarrow> VMInstance \<Rightarrow> DataInitializer \<Rightarrow> (process, TrapCode) outcome" where
  "initialize_memory p self init =
     bind_ok (get_vmmemory self (dl_memory_index (di_location init))) (\<lambda>h.
     bind_ok (ish_get (pr_memories p) h) (\<lambda>memory.
     bind_ok (segment_start p self HeapAccessOutOfBounds (dl_offset_expr (di_location init))) (\<lambda>start.
     bind_ok (vm_vmmemory (pr_cells p) memory) (\<lambda>md.
       if ends_beyond start (length (di_data init)) (md_current_length md)
       then Err HeapAccessOutOfBounds
       else pr_with_os p
              (vm_initialize_with_data (pr_os p) (pr_cells p) memory start (di_data init))))))"

definition initialize_memories ::
  "process \<Rightarrow> VMInstance \<Rightarrow> DataInitializer list \<Rightarrow> (TrapCode option \<times> process, unit) outcome" where
  "initialize_memories p self data_initializers =
     initialize_each (\<lambda>p init. initialize_memory p self init) p data_initializers"

section \<open>Passive elements, globals and function references\<close>

definition initialize_passive_elements :: "VMInstance \<Rightarrow> (VMInstance, 'e) outcome" where
  "initialize_passive_elements self =
     (let resolved = (\<lambda>idx. case mi_passive_elements (in_module self) idx of
            None \<Rightarrow> None
          | Some segments \<Rightarrow>
              if segments = [] then None
              else Some (map_ok (func_ref self) segments :: (usize option list, unit) outcome))
      in if \<exists>idx \<in> dom (mi_passive_elements (in_module self)). resolved idx = Some Panic then Panic
         else Ok (self\<lparr>in_passive_elements := (\<lambda>idx. case resolved idx of
              Some (Ok refs) \<Rightarrow> Some refs | _ \<Rightarrow> None)\<rparr>))"

definition initialize_global ::
  "process \<Rightarrow> VMInstance \<Rightarrow> LocalGlobalIndex \<Rightarrow> GlobalInit \<Rightarrow> (process, 'e) outcome" where
  "initialize_global p self index initializer =
     bind_ok (global_ptr self index) (\<lambda>to.
       case initializer of
         GI_I32Const x \<Rightarrow> write_global p to (\<lambda>v. raw_set_i32 v x)
       | GI_I64Const x \<Rightarrow> write_global p to (\<lambda>v. raw_set_i64 v x)
       | GI_F32Const x \<Rightarrow> write_global p to (\<lambda>v. raw_set_i32 v x)
       | GI_F64Const x \<Rightarrow> write_global p to (\<lambda>v. raw_set_i64 v x)
       | GI_V128Const x \<Rightarrow> write_global p to (\<lambda>_. le_word x)
       | GI_GetGlobal x \<Rightarrow> bind_ok (get_global p self x) (\<lambda>from. write_global p to (\<lambda>_. from))
       | GI_RefNullConst \<Rightarrow> write_global p to (\<lambda>v. raw_set_funcref v 0)
       | GI_RefFunc func_idx \<Rightarrow>
           bind_ok (func_ref self func_idx) (\<lambda>r. bind_ok (unwrap r) (\<lambda>funcref.
             write_global p to (\<lambda>_. raw_set_funcref 0 funcref)))
       | GI_Expr expr \<Rightarrow>
           bind_ok (eval_init_expr (get_global p self) expr) (\<lambda>r.
             case r of
               EvI32 value \<Rightarrow> write_global p to (\<lambda>v. raw_set_i32 v value)
             | EvI64 value \<Rightarrow> write_global p to (\<lambda>v. raw_set_i64 v value)))"

fun initialize_globals_from ::
  "process \<Rightarrow> VMInstance \<Rightarrow> (LocalGlobalIndex \<times> GlobalInit) list \<Rightarrow> (process, 'e) outcome" where
  "initialize_globals_from p self [] = Ok p"
| "initialize_globals_from p self ((index, initializer) # inits) =
     bind_ok (initialize_global p self index initializer) (\<lambda>p'.
       initialize_globals_from p' self inits)"

definition initialize_globals :: "process \<Rightarrow> VMInstance \<Rightarrow> (process, 'e) outcome" where
  "initialize_globals p self =
     initialize_globals_from p self (pm_iter (mi_global_initializers (in_module self)))"

definition build_funcrefs ::
  "ModuleInfo \<Rightarrow> process \<Rightarrow> Imports \<Rightarrow> usize PrimaryMap \<Rightarrow> VMSharedSignatureIndex PrimaryMap \<Rightarrow>
     usize PrimaryMap \<Rightarrow> usize \<Rightarrow> (VMCallerCheckedAnyfunc list \<times> usize list, 'e) outcome" where
  "build_funcrefs module p imports finished_functions vmshared_signatures
       function_call_trampolines vmctx_ptr =
     bind_ok (map_ok (\<lambda>import.
         bind_ok (ish_get (so_functions (pr_store p)) (fi_handle import)) (\<lambda>f. Ok (vf_anyfunc_ptr f)))
       (im_functions imports)) (\<lambda>imported_func_refs.
     bind_ok (map_ok (\<lambda>(local_index, func_ptr).
         bind_ok (func_index module local_index) (\<lambda>index.
         bind_ok (pm_index (mi_functions module) index) (\<lambda>sig_index.
         bind_ok (pm_index vmshared_signatures sig_index) (\<lambda>type_index.
         bind_ok (pm_index function_call_trampolines sig_index) (\<lambda>call_trampoline.
           Ok \<lparr>af_func_ptr = func_ptr, af_type_index = type_index, af_vmctx = vmctx_ptr,
             af_call_trampoline = call_trampoline\<rparr>)))))
       (pm_iter finished_functions)) (\<lambda>func_refs. Ok (func_refs, imported_func_refs)))"

section \<open>Exports\<close>

datatype VMExtern =
    XFunction InternalStoreHandle
  | XTable InternalStoreHandle
  | XMemory InternalStoreHandle
  | XGlobal InternalStoreHandle
  | XTag InternalStoreHandle

definition lookup_by_declaration ::
  "process \<Rightarrow> VMInstance \<Rightarrow> ExportIndex \<Rightarrow> (VMExtern \<times> process, 'e) outcome" where
  "lookup_by_declaration p self export =
     (case export of
        ExFunction index \<Rightarrow>
          bind_ok (pm_index (mi_functions (in_module self)) index) (\<lambda>sig_index.
          bind_ok (local_func_index (in_module self) index) (\<lambda>l.
            case l of
              Some def_index \<Rightarrow>
                bind_ok (pm_index (mi_signatures (in_module self)) sig_index) (\<lambda>signature.
                bind_ok (pm_index (in_funcrefs self) def_index) (\<lambda>anyfunc.
                bind_ok (ish_new (so_functions (pr_store p))
                  \<lparr>vf_anyfunc = Instance (in_funcrefs_ptr self +
                       unat def_index * SIZE_VMCallerCheckedAnyfunc) anyfunc,
                    vf_box = 0, vf_signature = signature, vf_kind = FnStatic,
                    vf_host_data_unit = True\<rparr>) (\<lambda>(handle, fs).
                  Ok (XFunction handle, p\<lparr>pr_store := (pr_store p)\<lparr>so_functions := fs\<rparr>\<rparr>))))
            | None \<Rightarrow>
                bind_ok (imported_function self index) (\<lambda>import.
                  Ok (XFunction (fi_handle import), p))))
      | ExTable index \<Rightarrow>
          bind_ok (get_table_handle self index) (\<lambda>h. Ok (XTable h, p))
      | ExMemory index \<Rightarrow>
          bind_ok (get_vmmemory self index) (\<lambda>h. Ok (XMemory h, p))
      | ExGlobal index \<Rightarrow>
          bind_ok (local_global_index (in_module self) index) (\<lambda>l.
            case l of
              Some def_index \<Rightarrow>
                bind_ok (pm_index (in_globals self) def_index) (\<lambda>h. Ok (XGlobal h, p))
            | None \<Rightarrow>
                bind_ok (imported_global self index) (\<lambda>import. Ok (XGlobal (gbi_handle import), p)))
      | ExTag index \<Rightarrow> bind_ok (pm_index (in_tags self) index) (\<lambda>h. Ok (XTag h, p)))"

definition vm_lookup ::
  "process \<Rightarrow> VMInstance \<Rightarrow> string \<Rightarrow> ((VMExtern \<times> process) option, 'e) outcome" where
  "vm_lookup p self field =
     (case map_of (mi_exports (in_module self)) field of
        None \<Rightarrow> Ok None
      | Some export \<Rightarrow> bind_ok (lookup_by_declaration p self export) (\<lambda>r. Ok (Some r)))"

section \<open>Constant expressions are postfix forms of expressions\<close>

text \<open>An expression over constants and globals, the same at both widths.\<close>

datatype 'v init_tree =
    TConst 'v
  | TGlobal GlobalIndex
  | TAdd "'v init_tree" "'v init_tree"
  | TSub "'v init_tree" "'v init_tree"
  | TMul "'v init_tree" "'v init_tree"

fun tree_value :: "(RawValue \<Rightarrow> 'a::len word) \<Rightarrow> (GlobalIndex \<Rightarrow> RawValue) \<Rightarrow> 'a word init_tree \<Rightarrow> 'a word"
  where
  "tree_value raw g (TConst v) = v"
| "tree_value raw g (TGlobal i) = raw (g i)"
| "tree_value raw g (TAdd a b) = tree_value raw g a + tree_value raw g b"
| "tree_value raw g (TSub a b) = tree_value raw g a - tree_value raw g b"
| "tree_value raw g (TMul a b) = tree_value raw g a * tree_value raw g b"

fun postfix32 :: "i32 init_tree \<Rightarrow> InitExpr" where
  "postfix32 (TConst v) = [I32Const v]"
| "postfix32 (TGlobal i) = [GlobalGetI32 i]"
| "postfix32 (TAdd a b) = postfix32 a @ postfix32 b @ [I32Add]"
| "postfix32 (TSub a b) = postfix32 a @ postfix32 b @ [I32Sub]"
| "postfix32 (TMul a b) = postfix32 a @ postfix32 b @ [I32Mul]"

fun postfix64 :: "i64 init_tree \<Rightarrow> InitExpr" where
  "postfix64 (TConst v) = [I64Const v]"
| "postfix64 (TGlobal i) = [GlobalGetI64 i]"
| "postfix64 (TAdd a b) = postfix64 a @ postfix64 b @ [I64Add]"
| "postfix64 (TSub a b) = postfix64 a @ postfix64 b @ [I64Sub]"
| "postfix64 (TMul a b) = postfix64 a @ postfix64 b @ [I64Mul]"

lemma init_ops_append: "init_ops step (xs @ ys) st = bind_ok (init_ops step xs st) (init_ops step ys)"
  by (induction xs arbitrary: st) (simp_all add: bind_ok_assoc cong: bind_ok_cong)

text \<open>
  A stack machine with one operator per node: what it computes on postfix forms, and that it
  accepts nothing else. Both widths are instances.
\<close>

locale postfix_machine =
  fixes step :: "InitExprOp \<Rightarrow> 'a::len word list \<Rightarrow> ('a word list, 'e) outcome"
    and postfix :: "'a word init_tree \<Rightarrow> InitExpr"
    and val :: "'a word init_tree \<Rightarrow> 'a word"
  assumes step_tree: "init_ops step (postfix t) st = Ok (val t # st)"
    and step_inv: "step op (map val ts) = Ok st \<Longrightarrow>
      \<exists>ts'. st = map val ts' \<and>
        concat (map postfix (rev ts)) @ [op] = concat (map postfix (rev ts'))"
begin

lemma run_inv:
  "init_ops step ops (map val ts) = Ok st \<Longrightarrow>
   \<exists>ts'. st = map val ts' \<and> concat (map postfix (rev ts)) @ ops = concat (map postfix (rev ts'))"
proof (induction ops arbitrary: ts)
  case (Cons op ops)
  then obtain st1 where "step op (map val ts) = Ok st1" "init_ops step ops st1 = Ok st"
    by (auto simp: outcome_simps)
  with step_inv obtain ts1 where "st1 = map val ts1"
    "concat (map postfix (rev ts)) @ [op] = concat (map postfix (rev ts1))" by blast
  with Cons.IH [of ts1] \<open>init_ops step ops st1 = Ok st\<close> show ?case
    by (metis append.assoc append_Cons append_Nil)
qed auto

lemma run_iff:
  "bind_ok (init_ops step ops []) exactly_one = Ok v \<longleftrightarrow> (\<exists>t. ops = postfix t \<and> v = val t)"
proof
  assume "bind_ok (init_ops step ops []) exactly_one = Ok v"
  then obtain st where st: "init_ops step ops (map val []) = Ok st"
    "exactly_one st = (Ok v :: (_, 'e) outcome)"
    by (auto simp: outcome_simps)
  from run_inv [OF st(1)] obtain ts where ts: "st = map val ts"
    "ops = concat (map postfix (rev ts))" by auto
  from st(2) ts(1) obtain t where "ts = [t]" "v = val t"
    by (cases st rule: exactly_one.cases) auto
  with ts(2) show "\<exists>t. ops = postfix t \<and> v = val t" by auto
next
  assume "\<exists>t. ops = postfix t \<and> v = val t"
  then show "bind_ok (init_ops step ops []) exactly_one = Ok v"
    by (auto simp: step_tree)
qed

end

interpretation pm32: postfix_machine "init_op32 (\<lambda>i. Ok (g i))" postfix32 "tree_value raw_i32 g"
  for g :: "GlobalIndex \<Rightarrow> RawValue"
proof
  show "init_ops (init_op32 (\<lambda>i. Ok (g i))) (postfix32 t) st = Ok (tree_value raw_i32 g t # st)" for t st
    by (induction t arbitrary: st) (simp_all add: init_ops_append)
  fix op ts st
  assume run: "init_op32 (\<lambda>i. Ok (g i)) op (map (tree_value raw_i32 g) ts) = Ok st"
  let ?goal = "\<lambda>ts'. st = map (tree_value raw_i32 g) ts' \<and>
      concat (map postfix32 (rev ts)) @ [op] = concat (map postfix32 (rev ts'))"
  have "?goal (TConst v # ts)" if "op = I32Const v" for v using run that by auto
  moreover have "?goal (TGlobal i # ts)" if "op = GlobalGetI32 i" for i using run that by auto
  moreover have "\<exists>a b us. ts = b # a # us \<and> ?goal ((if op = I32Add then TAdd a b
      else if op = I32Sub then TSub a b else TMul a b) # us)" if "op \<in> {I32Add, I32Sub, I32Mul}"
    using run that by (cases ts; cases "tl ts") auto
  moreover have "op \<in> {I32Add, I32Sub, I32Mul} \<or> (\<exists>v. op = I32Const v) \<or> (\<exists>i. op = GlobalGetI32 i)"
    using run by (cases op) auto
  ultimately show "\<exists>ts'. ?goal ts'" by blast
qed

interpretation pm64: postfix_machine "init_op64 (\<lambda>i. Ok (g i))" postfix64 "tree_value raw_i64 g"
  for g :: "GlobalIndex \<Rightarrow> RawValue"
proof
  show "init_ops (init_op64 (\<lambda>i. Ok (g i))) (postfix64 t) st = Ok (tree_value raw_i64 g t # st)" for t st
    by (induction t arbitrary: st) (simp_all add: init_ops_append)
  fix op ts st
  assume run: "init_op64 (\<lambda>i. Ok (g i)) op (map (tree_value raw_i64 g) ts) = Ok st"
  let ?goal = "\<lambda>ts'. st = map (tree_value raw_i64 g) ts' \<and>
      concat (map postfix64 (rev ts)) @ [op] = concat (map postfix64 (rev ts'))"
  have "?goal (TConst v # ts)" if "op = I64Const v" for v using run that by auto
  moreover have "?goal (TGlobal i # ts)" if "op = GlobalGetI64 i" for i using run that by auto
  moreover have "\<exists>a b us. ts = b # a # us \<and> ?goal ((if op = I64Add then TAdd a b
      else if op = I64Sub then TSub a b else TMul a b) # us)" if "op \<in> {I64Add, I64Sub, I64Mul}"
    using run that by (cases ts; cases "tl ts") auto
  moreover have "op \<in> {I64Add, I64Sub, I64Mul} \<or> (\<exists>v. op = I64Const v) \<or> (\<exists>i. op = GlobalGetI64 i)"
    using run by (cases op) auto
  ultimately show "\<exists>ts'. ?goal ts'" by blast
qed

lemma bind_one_eq:
  "(bind_ok m (\<lambda>st. bind_ok (exactly_one st) (\<lambda>v. Ok (f v))) = Ok r) =
   (\<exists>v. bind_ok m exactly_one = Ok v \<and> r = f v)"
  by (auto simp: outcome_simps)

lemma postfix32_head: "\<exists>op ops. postfix32 t = op # ops \<and> is_32bit_expression op"
  by (induction t) auto

lemma postfix64_head: "\<exists>op ops. postfix64 t = op # ops \<and> \<not> is_32bit_expression op"
  by (induction t) auto

lemma init_ops_no_error:
  "init_ops (init_op32 (\<lambda>i. Ok (g i))) ops st \<noteq> Err e"
  "init_ops (init_op64 (\<lambda>i. Ok (g i))) ops st' \<noteq> Err e"
proof -
  have "init_op32 (\<lambda>i. Ok (g i)) op st \<noteq> Err e" "init_op64 (\<lambda>i. Ok (g i)) op st' \<noteq> Err e" for op st st'
    by (cases "((\<lambda>i. Ok (g i) :: (RawValue, 'a) outcome), op, st)" rule: init_op32.cases; simp)
      (cases "((\<lambda>i. Ok (g i) :: (RawValue, 'a) outcome), op, st')" rule: init_op64.cases; simp)
  then show "init_ops (init_op32 (\<lambda>i. Ok (g i))) ops st \<noteq> Err e"
    "init_ops (init_op64 (\<lambda>i. Ok (g i))) ops st' \<noteq> Err e"
    by (induction ops arbitrary: st st') (auto simp: outcome_simps)
qed

lemma exactly_one_no_error: "exactly_one st \<noteq> Err e"
  by (cases st rule: exactly_one.cases) auto

text \<open>
  C30: constant expressions. An operator sequence evaluates to a 32-bit value exactly when it is
  the postfix form of an expression over 32-bit constants and globals, and the value is that of
  the expression, with arithmetic modulo \<open>2 ^ 32\<close>; the same holds at 64 bits. Every other
  sequence makes the evaluation panic.
\<close>

theorem eval_init_expr_postfix:
  "(eval_init_expr (\<lambda>i. Ok (g i)) ops = (Ok (EvI32 v) :: (_, unit) outcome) \<longleftrightarrow>
     (\<exists>t. ops = postfix32 t \<and> v = tree_value raw_i32 g t)) \<and>
   (eval_init_expr (\<lambda>i. Ok (g i)) ops = (Ok (EvI64 w) :: (_, unit) outcome) \<longleftrightarrow>
     (\<exists>t. ops = postfix64 t \<and> w = tree_value raw_i64 g t)) \<and>
   eval_init_expr (\<lambda>i. Ok (g i)) ops \<noteq> (Err e :: (_, unit) outcome)"
proof (cases ops)
  case Nil
  have "[] \<noteq> postfix32 t" "[] \<noteq> postfix64 u" for t u
    using postfix32_head [of t] postfix64_head [of u] by auto
  with Nil show ?thesis by (simp add: eval_init_expr_def)
next
  case (Cons op rest)
  have heads: "is_32bit_expression op" if "ops = postfix32 t" for t
    using postfix32_head [of t] that Cons by auto
  have heads': "\<not> is_32bit_expression op" if "ops = postfix64 t" for t
    using postfix64_head [of t] that Cons by auto
  have none: "eval_init_expr (\<lambda>i. Ok (g i)) ops \<noteq> (Err e :: (_, unit) outcome)"
    by (auto simp: eval_init_expr_def Cons outcome_simps init_ops_no_error exactly_one_no_error
        simp del: init_ops.simps)
  show ?thesis
  proof (cases "is_32bit_expression op")
    case True
    then have eq: "eval_init_expr (\<lambda>i. Ok (g i)) ops = bind_ok (init_ops (init_op32 (\<lambda>i. Ok (g i))) ops [])
        (\<lambda>st. bind_ok (exactly_one st) (\<lambda>v. Ok (EvI32 v)))"
      by (simp add: eval_init_expr_def Cons)
    show ?thesis using none heads' True unfolding eq bind_one_eq pm32.run_iff by auto
  next
    case False
    then have eq: "eval_init_expr (\<lambda>i. Ok (g i)) ops = bind_ok (init_ops (init_op64 (\<lambda>i. Ok (g i))) ops [])
        (\<lambda>st. bind_ok (exactly_one st) (\<lambda>v. Ok (EvI64 v)))"
      by (simp add: eval_init_expr_def Cons)
    show ?thesis using none heads False unfolding eq bind_one_eq pm64.run_iff by auto
  qed
qed

section \<open>Active element segments\<close>

lemma list_blit_step:
  assumes "i + Suc (length vs) \<le> length xs"
  shows "list_blit (xs[i := v]) (Suc i) vs 0 (length vs) = list_blit xs i (v # vs) 0 (Suc (length vs))"
  using assms
  by (intro list_blit_eqI) (auto simp: nth_list_blit nth_Cons' nth_list_update)

lemma table_set_from_ok:
  assumes "i + length vs \<le> length (vt_vec t)" and "length (vt_vec t) < 2 ^ 32"
    and "\<forall>v \<in> set vs. element_matches (tt_ty (vt_table t)) v"
  shows "table_set_from t i vs =
    Ok (t\<lparr>vt_vec := list_blit (vt_vec t) i (map raw_from_element vs) 0 (length vs)\<rparr>)"
  using assms
proof (induction vs arbitrary: t i)
  case (Cons v vs)
  let ?t = "t\<lparr>vt_vec := (vt_vec t)[i := raw_from_element v]\<rparr>"
  have "u32_try_from i = Some (as_u32 i)" "unat (as_u32 i) = i"
    using Cons.prems by (simp_all add: u32_try_from_def as_u32_def unat_as_u32_small [unfolded as_u32_def])
  then have "table_set_from t i (v # vs) = table_set_from ?t (Suc i) vs"
    using Cons.prems by (simp add: table_set_def)
  also have "\<dots> = Ok (?t\<lparr>vt_vec := list_blit (vt_vec ?t) (Suc i) (map raw_from_element vs) 0 (length vs)\<rparr>)"
    using Cons.prems by (intro Cons.IH) simp_all
  finally show ?case
    using Cons.prems list_blit_step [of i "map raw_from_element vs" "vt_vec t" "raw_from_element v"]
    by simp
qed (simp add: list_blit_def)

text \<open>
  A segment as the specification sees it: its table, its offset and the references it holds. It
  exists for every initialiser of a valid module.
\<close>

definition segment_of ::
  "process \<Rightarrow> VMInstance \<Rightarrow> TableInitializer \<Rightarrow>
     (InternalStoreHandle \<times> i32 \<times> usize option list) option" where
  "segment_of p self init =
     (case (eval_init_expr (get_global p self) (ti_offset_expr init) :: (_, TrapCode) outcome,
        get_table_handle self (ti_table_index init) :: (_, TrapCode) outcome) of
        (Ok (EvI32 start), Ok h) \<Rightarrow>
          if ish_valid (pr_tables p) h
          then if tt_ty (vt_table (pr_tables p ! (h - 1))) = FuncRef
               then case map_ok (func_ref self) (ti_elements init) :: (_, TrapCode) outcome of
                      Ok refs \<Rightarrow> Some (h, start, refs) | _ \<Rightarrow> None
               else Some (h, start, replicate (length (ti_elements init)) None)
          else None
      | _ \<Rightarrow> None)"

fun apply_segment ::
  "RawTableElement list list \<Rightarrow> InternalStoreHandle \<times> i32 \<times> usize option list \<Rightarrow>
     RawTableElement list list option" where
  "apply_segment vecs (h, start, refs) =
     (if start <s 0 \<or> length (vecs ! (h - 1)) < unat start + length refs then None
      else Some (vecs[h - 1 :=
        list_blit (vecs ! (h - 1)) (unat start) (map raw_ref refs) 0 (length refs)]))"

fun apply_segments ::
  "RawTableElement list list \<Rightarrow> (InternalStoreHandle \<times> i32 \<times> usize option list) list \<Rightarrow>
     bool \<times> RawTableElement list list" where
  "apply_segments vecs [] = (False, vecs)"
| "apply_segments vecs (s # ss) =
     (case apply_segment vecs s of None \<Rightarrow> (True, vecs) | Some vecs' \<Rightarrow> apply_segments vecs' ss)"

text \<open>Writing elements changes nothing that later segments are resolved with.\<close>

definition only_vecs :: "process \<Rightarrow> process \<Rightarrow> bool" where
  "only_vecs p p' = (\<exists>ts. p' = pr_set_tables p ts \<and>
     list_all2 (\<lambda>t t'. t' = t\<lparr>vt_vec := vt_vec t'\<rparr> \<and> length (vt_vec t') = length (vt_vec t))
       (pr_tables p) ts)"

lemma pr_tables_set [simp]: "pr_tables (pr_set_tables p ts) = ts"
  by (simp add: pr_tables_def pr_set_tables_def)

lemma get_global_tables [simp]: "get_global (pr_set_tables p ts) self = get_global p self"
  by (rule ext) (simp add: get_global_def in_global_def global_val_def pr_globals_def
      pr_set_tables_def [abs_def] cong: option.case_cong bind_ok_cong)

lemma only_vecs_props:
  assumes "only_vecs p p'"
  shows "length (pr_tables p') = length (pr_tables p)"
    and "list_all table_wf (pr_tables p) \<Longrightarrow> list_all table_wf (pr_tables p')"
    and "segment_of p' self init = segment_of p self init"
    and "only_vecs p' p'' \<Longrightarrow> only_vecs p p''"
proof -
  obtain ts where p': "p' = pr_set_tables p ts" and ts: "length ts = length (pr_tables p)"
    and nth: "\<And>k. k < length ts \<Longrightarrow> ts ! k = (pr_tables p ! k)\<lparr>vt_vec := vt_vec (ts ! k)\<rparr>"
    and len: "\<And>k. k < length ts \<Longrightarrow> length (vt_vec (ts ! k)) = length (vt_vec (pr_tables p ! k))"
    using assms by (auto simp: only_vecs_def list_all2_conv_all_nth)
  show "length (pr_tables p') = length (pr_tables p)" by (simp add: p' ts)
  have same: "vt_table (ts ! k) = vt_table (pr_tables p ! k)" "table_size (ts ! k) = table_size (pr_tables p ! k)"
    "get_vm_table_definition (ts ! k) = get_vm_table_definition (pr_tables p ! k)"
    "vt_buffer (ts ! k) = vt_buffer (pr_tables p ! k)" "vt_maximum (ts ! k) = vt_maximum (pr_tables p ! k)"
    if "k < length ts" for k
    using nth [OF that] by (metis VMTable.select_convs VMTable.update_convs VMTable.surjective
        table_size_def get_vm_table_definition_def)+
  show "list_all table_wf (pr_tables p')" if "list_all table_wf (pr_tables p)"
    using that by (auto simp: p' list_all_length table_wf_def same len ts split: option.splits)
  have valid: "ish_valid ts h = ish_valid (pr_tables p) h" for h by (simp add: ish_valid_def ts)
  have "vt_table (ts ! (h - 1)) = vt_table (pr_tables p ! (h - 1))" if "ish_valid (pr_tables p) h" for h
    using that same(1) [of "h - 1"] by (auto simp: ish_valid_def ts)
  then show "segment_of p' self init = segment_of p self init"
    by (auto simp: segment_of_def p' valid split: outcome.splits EvaluatedInitExpr.splits)
  show "only_vecs p p''" if later: "only_vecs p' p''"
  proof -
    obtain us where us: "p'' = pr_set_tables p' us" "list_all2 (\<lambda>t t'. t' = t\<lparr>vt_vec := vt_vec t'\<rparr> \<and>
        length (vt_vec t') = length (vt_vec t)) ts us"
      using later by (auto simp: only_vecs_def p')
    then have len': "length us = length ts"
      and nth': "\<And>k. k < length ts \<Longrightarrow> us ! k = (ts ! k)\<lparr>vt_vec := vt_vec (us ! k)\<rparr>"
      and vec': "\<And>k. k < length ts \<Longrightarrow> length (vt_vec (us ! k)) = length (vt_vec (ts ! k))"
      by (simp_all add: list_all2_conv_all_nth)
    have "us ! k = (pr_tables p ! k)\<lparr>vt_vec := vt_vec (us ! k)\<rparr>" if k: "k < length ts" for k
    proof -
      have "(ts ! k)\<lparr>vt_vec := v\<rparr> = (pr_tables p ! k)\<lparr>vt_vec := v\<rparr>" for v
        by (subst nth [OF k]) simp
      then show ?thesis using nth' [OF k] by simp
    qed
    moreover have "p'' = pr_set_tables p us" using us(1) by (simp add: p' pr_set_tables_def)
    ultimately show ?thesis
      by (auto simp: only_vecs_def list_all2_conv_all_nth len' ts vec' len)
  qed
qed

lemma only_vecs_update:
  assumes "k < length (pr_tables p)" and "length v = length (vt_vec (pr_tables p ! k))"
  shows "only_vecs p (pr_set_tables p ((pr_tables p)[k := (pr_tables p ! k)\<lparr>vt_vec := v\<rparr>]))"
  using assms by (auto simp: only_vecs_def list_all2_conv_all_nth nth_list_update)

lemma ends_beyond_iff: "n < 2 ^ 32 \<Longrightarrow> ends_beyond a len n \<longleftrightarrow> n < a + len"
  by (auto simp: ends_beyond_def usize_checked_add_def)

lemma initialize_table_segment:
  assumes wf: "list_all table_wf (pr_tables p)"
    and seg: "segment_of p self init = Some seg"
  shows "case apply_segment (map vt_vec (pr_tables p)) seg of
      None \<Rightarrow> initialize_table p self init = Err TableAccessOutOfBounds
    | Some vecs \<Rightarrow> \<exists>p'. initialize_table p self init = Ok p' \<and> only_vecs p p' \<and>
        map vt_vec (pr_tables p') = vecs"
proof -
  obtain h start refs where s: "seg = (h, start, refs)" by (cases seg)
  define t where "t = pr_tables p ! (h - 1)"
  have ev: "eval_init_expr (get_global p self) (ti_offset_expr init) = (Ok (EvI32 start) :: (_, TrapCode) outcome)"
    and hd: "get_table_handle self (ti_table_index init) = (Ok h :: (_, TrapCode) outcome)"
    and h: "ish_valid (pr_tables p) h"
    and refs: "if tt_ty (vt_table t) = FuncRef
       then map_ok (func_ref self) (ti_elements init) = (Ok refs :: (_, TrapCode) outcome)
       else refs = replicate (length (ti_elements init)) None"
    using seg by (auto simp: segment_of_def s t_def split: outcome.splits EvaluatedInitExpr.splits if_splits)
  have len: "length refs = length (ti_elements init)"
    using refs by (auto simp: map_ok_eq_Ok split: if_splits dest: list_all2_lengthD)
  have k: "h - 1 < length (pr_tables p)" and get: "ish_get (pr_tables p) h = (Ok t :: (_, TrapCode) outcome)"
    using h by (auto simp: ish_valid_def ish_get_def t_def usize_sub_def nth_opt_def)
  have twf: "table_wf t" using wf k by (simp add: list_all_length t_def)
  then have small: "length (vt_vec t) < 2 ^ 32" by (simp add: table_wf_def)
  have size: "ends_beyond (unat start) (length (ti_elements init)) (unat (table_size t)) \<longleftrightarrow>
      length (vt_vec t) < unat start + length refs"
    using small by (simp add: table_size_wf [OF twf] ends_beyond_iff len)
  define vs where "vs = (if tt_ty (vt_table t) = FuncRef then map ElFuncRef refs
    else replicate (length refs) (ElExternRef None))"
  have vs: "map raw_from_element vs = map raw_ref refs" "length vs = length refs"
    "\<forall>v \<in> set vs. element_matches (tt_ty (vt_table t)) v"
    using refs twf by (auto simp: vs_def len table_wf_def is_ref_type_def map_replicate_const)
  have run: "initialize_table p self init = (if start <s 0 \<or> length (vt_vec t) < unat start + length refs
      then Err TableAccessOutOfBounds else on_table_unit p h (\<lambda>t. table_set_from t (unat start) vs))"
    using refs by (simp add: initialize_table_def segment_start_def ev hd get size vs_def len)
  show ?thesis
  proof (cases "start <s 0 \<or> length (vt_vec t) < unat start + length refs")
    case True
    then show ?thesis using k by (simp add: run s t_def)
  next
    case False
    then have "table_set_from t (unat start) vs =
        Ok (t\<lparr>vt_vec := list_blit (vt_vec t) (unat start) (map raw_ref refs) 0 (length refs)\<rparr>)"
      using table_set_from_ok [of "unat start" vs t] small vs by simp
    with False k show ?thesis
      using only_vecs_update [OF k, of "list_blit (vt_vec t) (unat start) (map raw_ref refs) 0 (length refs)"]
      by (simp add: run s on_table_unit_eq [OF h] t_def map_update)
  qed
qed

lemma initialize_each_segments:
  assumes "list_all table_wf (pr_tables p)"
    and "map (segment_of p self) inits = map Some segs"
  shows "\<exists>trap p'. initialize_each (\<lambda>p init. initialize_table p self init) p inits = Ok (trap, p') \<and>
    (trap \<noteq> None, map vt_vec (pr_tables p')) = apply_segments (map vt_vec (pr_tables p)) segs \<and>
    (trap \<in> {None, Some TableAccessOutOfBounds}) \<and> only_vecs p p'"
  using assms
proof (induction inits arbitrary: p segs)
  case Nil
  then show ?case by (auto simp: only_vecs_def list_all2_conv_all_nth intro!: exI [of _ "pr_tables p"])
     (simp add: pr_set_tables_def pr_tables_def)
next
  case (Cons init inits)
  then obtain seg segs' where segs: "segs = seg # segs'" "segment_of p self init = Some seg"
    "map (segment_of p self) inits = map Some segs'"
    by (cases segs) auto
  note one = initialize_table_segment [OF Cons.prems(1) segs(2)]
  show ?case
  proof (cases "apply_segment (map vt_vec (pr_tables p)) seg")
    case None
    then show ?thesis using one
      by (auto simp: segs(1) only_vecs_def list_all2_conv_all_nth intro!: exI [of _ "pr_tables p"])
       (simp add: pr_set_tables_def pr_tables_def)
  next
    case (Some vecs)
    with one obtain p' where p': "initialize_table p self init = Ok p'" "only_vecs p p'"
      "map vt_vec (pr_tables p') = vecs" by auto
    have "map (segment_of p' self) inits = map Some segs'"
      using segs(3) only_vecs_props(3) [OF p'(2)] by (metis map_cong)
    from Cons.IH [OF only_vecs_props(2) [OF p'(2) Cons.prems(1)] this]
    show ?thesis using p' only_vecs_props(4) [OF p'(2)] by (auto simp: segs(1) Some)
  qed
qed

text \<open>
  C29: Active element segments refine the specification. When every segment of the module names a
  table of the store, has a 32-bit offset and references that exist, \<open>initialize_tables\<close> returns,
  and it has done exactly what applying the segments one after the other does: each writes its
  references at its offset, and the first one that does not fit stops the initialisation with
  \<open>TableAccessOutOfBounds\<close>, with the writes of the earlier segments kept. Nothing else of the
  store, of the memories or of the process changes.
\<close>

theorem initialize_tables_refines:
  assumes "list_all table_wf (pr_tables p)"
    and "map (segment_of p self) (mi_table_initializers (in_module self)) = map Some segs"
  shows "\<exists>trap p'. initialize_tables p self = Ok (trap, p') \<and>
    (trap \<noteq> None, map vt_vec (pr_tables p')) = apply_segments (map vt_vec (pr_tables p)) segs \<and>
    trap \<in> {None, Some TableAccessOutOfBounds} \<and> only_vecs p p'"
  unfolding initialize_tables_def by (rule initialize_each_segments [OF assms])

text \<open>Two segments for a table of four elements; the second one does not fit.\<close>

definition example_segments :: "TableInitializer list" where
  "example_segments =
     [\<lparr>ti_table_index = 0, ti_offset_expr = [I32Const 1, I32Const 1, I32Add], ti_elements = [reserved_value]\<rparr>,
      \<lparr>ti_table_index = 0, ti_offset_expr = [I32Const 4], ti_elements = [reserved_value]\<rparr>]"

definition example_active :: VMInstance where
  "example_active = example_instance\<lparr>in_module := (in_module example_instance)
     \<lparr>mi_table_initializers := example_segments\<rparr>\<rparr>"

theorem initialize_tables_refines_witness:
  "\<exists>p'. initialize_tables example_process example_active = Ok (Some TableAccessOutOfBounds, p') \<and>
     map vt_vec (pr_tables p') = [[11, 12, 0, 14]]"
proof -
  have handle: "get_table_handle example_active 0 = Ok 1"
    by (simp add: get_table_handle_def local_table_index_def example_instance_def example_active_def module_new_def
      usize_checked_sub_def entity_index_def entity_new_def local_table_handle_def pm_get_def
      nth_opt_def as_u32_def)
  have t: "pr_tables example_process = [example_table]"
    by (simp add: pr_tables_def example_process_def)
  have segs: "map (segment_of example_process example_active) (mi_table_initializers (in_module example_active)) =
      map Some [(1, 2, [None]), (1, 4, [None])]"
    by (simp add: example_active_def example_segments_def segment_of_def eval_init_expr_def
        handle [unfolded example_active_def example_segments_def] t ish_valid_def func_ref_def example_table_def)
  have run: "apply_segments (map vt_vec (pr_tables example_process)) [(1, 2, [None]), (1, 4, [None])] =
      (True, [[11, 12, 0, 14]])"
    by (simp add: t example_table_def list_blit_def word_sless_alt)
  have "list_all table_wf (pr_tables example_process)" by (simp add: t example_table_wf)
  from initialize_tables_refines [OF this segs] show ?thesis unfolding run by fastforce
qed

end
