(* ===== verification/Instantiation.thy ===== *)
theory Instantiation
  imports Instance_Init
begin

text \<open>
  Instantiation: the allocation of an instance (\<open>lib/vm/src/instance/allocator.rs\<close>), the
  creation of its memories, tables and globals (\<open>lib/compiler/src/engine/tunables.rs\<close>), the
  resolution of imports and tags (\<open>engine/resolver.rs\<close>), and their composition in
  \<open>Artifact::instantiate\<close> (\<open>engine/artifact.rs\<close>) and \<open>VMInstance::new\<close>.
\<close>

section \<open>Allocating an instance\<close>

text \<open>\<open>base\<close> is the address of the \<open>VMContext\<close>, behind the fixed part of the allocation.\<close>

definition memory_definition_locations ::
  "VMOffsets \<Rightarrow> usize \<Rightarrow> (usize list, unit) outcome" where
  "memory_definition_locations offsets base =
     map_ok (\<lambda>i. bind_ok (entity_new i) (\<lambda>k.
       bind_ok (vmctx_vmmemory_definition offsets k) (\<lambda>mem_offset. Ok (base + mem_offset))))
       [0..<num_local_memories offsets]"

definition table_definition_locations ::
  "VMOffsets \<Rightarrow> usize \<Rightarrow> (usize list, unit) outcome" where
  "table_definition_locations offsets base =
     map_ok (\<lambda>i. bind_ok (entity_new i) (\<lambda>k.
       bind_ok (vmctx_vmtable_definition offsets k) (\<lambda>table_offset. Ok (base + table_offset))))
       [0..<num_local_tables offsets]"

definition instance_allocator_new ::
  "ModuleInfo \<Rightarrow> usize \<Rightarrow> (VMOffsets \<times> usize list \<times> usize list, unit) outcome" where
  "instance_allocator_new module base =
     bind_ok (vmoffsets_new 8 module) (\<lambda>offsets.
     bind_ok (memory_definition_locations offsets base) (\<lambda>memories.
     bind_ok (table_definition_locations offsets base) (\<lambda>tables.
       Ok (offsets, memories, tables))))"

section \<open>Tunables\<close>

datatype PointerWidth = PtrU16 | PtrU32 | PtrU64

record BaseTunables =
  bt_static_memory_bound :: Pages
  bt_static_memory_offset_guard_size :: u64
  bt_dynamic_memory_offset_guard_size :: u64

definition tunables_for_target :: "bool \<Rightarrow> PointerWidth \<Rightarrow> BaseTunables" where
  "tunables_for_target windows pointer_width =
     (let (bound, guard) = (case pointer_width of
            PtrU16 \<Rightarrow> (0x400, 0x1000)
          | PtrU32 \<Rightarrow> (0x4000, 0x10000)
          | PtrU64 \<Rightarrow> (0x10000, 0x80000000))
      in \<lparr>bt_static_memory_bound = bound, bt_static_memory_offset_guard_size = guard,
           bt_dynamic_memory_offset_guard_size = (if windows then 0x20000 else 0x10000)\<rparr>)"

definition memory_style :: "BaseTunables \<Rightarrow> MemoryType \<Rightarrow> MemoryStyle" where
  "memory_style self memory =
     (let maximum = unwrap_or (mt_maximum memory) pages_max_value
      in if maximum \<le> bt_static_memory_bound self
         then Static (bt_static_memory_bound self) (bt_static_memory_offset_guard_size self)
         else Dynamic (bt_dynamic_memory_offset_guard_size self))"

definition table_style :: "BaseTunables \<Rightarrow> TableType \<Rightarrow> TableStyle" where
  "table_style self table = CallerChecksSignature"

fun memory_error_show :: "MemoryError \<Rightarrow> string" where
  "memory_error_show (Region s) = ''Error when allocating memory: '' @ s"
| "memory_error_show (CouldNotGrow current delta) =
     ''The memory could not grow: current size '' @ decimal (unat current) @
     '' pages, requested increase: '' @ decimal (unat delta) @ '' pages''"
| "memory_error_show (InvalidMemory reason) = ''The memory is invalid because '' @ reason"
| "memory_error_show (MinimumMemoryTooLarge req allowed) =
     ''The minimum requested ('' @ decimal (unat req) @
     '' pages) memory is greater than the maximum allowed memory ('' @ decimal (unat allowed) @
     '' pages)''"
| "memory_error_show (MaximumMemoryTooLarge req allowed) =
     ''The maximum requested memory ('' @ decimal (unat req) @
     '' pages) is greater than the maximum allowed memory ('' @ decimal (unat allowed) @
     '' pages)''"
| "memory_error_show MemoryNotShared = ''The memory is not shared''"
| "memory_error_show (UnsupportedOperation m) =
     ''tried to call an unsupported memory operation: '' @ m"
| "memory_error_show AtomicsNotSupported = ''The memory does not support atomic operations''"
| "memory_error_show (Generic m) = ''A user-defined error occurred: '' @ m"

text \<open>The entries from the first local one on, each with its index among all of the kind.\<close>

definition local_locations :: "usize list \<Rightarrow> nat \<Rightarrow> nat \<Rightarrow> (nat \<times> usize) list" where
  "local_locations locations n num_imports =
     drop num_imports (take n (enumerate 0 locations))"

fun create_memories_loop ::
  "os \<Rightarrow> process \<Rightarrow> ModuleInfo \<Rightarrow> MemoryStyle PrimaryMap \<Rightarrow> (nat \<times> usize) list \<Rightarrow>
     InternalStoreHandle list \<Rightarrow> (InternalStoreHandle list \<times> process, LinkError) outcome" where
  "create_memories_loop os p module styles [] memories = Ok (memories, p)"
| "create_memories_loop os p module styles ((index, mdl) # locs) memories =
     bind_ok (entity_new index) (\<lambda>mi.
     bind_ok (pm_index (mi_memories module) mi) (\<lambda>ty.
     bind_ok (pm_index styles mi) (\<lambda>style.
     bind_ok (map_err (\<lambda>e. LinkResource (''Failed to create memory: '' @ memory_error_show e))
         (vm_from_definition os (pr_os p) (pr_cells p) ty style mdl)) (\<lambda>(m, c', st').
     bind_ok (ish_new (pr_memories p) m) (\<lambda>(h, ms).
       create_memories_loop os
         (p\<lparr>pr_os := st', pr_cells := c', pr_store := (pr_store p)\<lparr>so_memories := ms\<rparr>\<rparr>)
         module styles locs (memories @ [h]))))))"

definition create_memories ::
  "os \<Rightarrow> process \<Rightarrow> ModuleInfo \<Rightarrow> MemoryStyle PrimaryMap \<Rightarrow> usize list \<Rightarrow>
     (InternalStoreHandle list \<times> process, LinkError) outcome" where
  "create_memories os p module memory_styles locations =
     create_memories_loop os p module memory_styles
       (local_locations locations (length (mi_memories module)) (mi_num_imported_memories module)) []"

fun create_tables_loop ::
  "(nat \<Rightarrow> usize) \<Rightarrow> process \<Rightarrow> ModuleInfo \<Rightarrow> TableStyle PrimaryMap \<Rightarrow> (nat \<times> usize) list \<Rightarrow>
     InternalStoreHandle list \<Rightarrow> (InternalStoreHandle list \<times> process, LinkError) outcome" where
  "create_tables_loop alloc p module styles [] tables = Ok (tables, p)"
| "create_tables_loop alloc p module styles ((index, tdl) # locs) tables =
     bind_ok (entity_new index) (\<lambda>ti.
     bind_ok (pm_index (mi_tables module) ti) (\<lambda>ty.
     bind_ok (pm_index styles ti) (\<lambda>style.
     bind_ok (map_err LinkResource (table_from_definition alloc ty style tdl)) (\<lambda>t.
     bind_ok (ish_new (pr_tables p) t) (\<lambda>(h, ts).
       create_tables_loop alloc (pr_set_tables p ts) module styles locs (tables @ [h]))))))"

definition create_tables ::
  "(nat \<Rightarrow> usize) \<Rightarrow> process \<Rightarrow> ModuleInfo \<Rightarrow> TableStyle PrimaryMap \<Rightarrow> usize list \<Rightarrow>
     (InternalStoreHandle list \<times> process, LinkError) outcome" where
  "create_tables alloc p module table_styles locations =
     create_tables_loop alloc p module table_styles
       (local_locations locations (length (mi_tables module)) (mi_num_imported_tables module)) []"

fun create_globals_loop ::
  "process \<Rightarrow> GlobalType list \<Rightarrow> InternalStoreHandle list \<Rightarrow>
     (InternalStoreHandle list \<times> process, LinkError) outcome" where
  "create_globals_loop p [] gs = Ok (gs, p)"
| "create_globals_loop p (ty # tys) gs =
     bind_ok (ish_new (pr_globals p) (vmglobal_new ty)) (\<lambda>(h, all).
       create_globals_loop (pr_set_globals p all) tys (gs @ [h]))"

definition create_globals ::
  "process \<Rightarrow> ModuleInfo \<Rightarrow> (InternalStoreHandle list \<times> process, LinkError) outcome" where
  "create_globals p module =
     create_globals_loop p (drop (mi_num_imported_globals module) (mi_globals module)) []"

section \<open>Resolving imports\<close>

fun get_extern_from_import :: "ModuleInfo \<Rightarrow> ImportIndex \<Rightarrow> (ExternType, 'e) outcome" where
  "get_extern_from_import module (ImFunction index) =
     bind_ok (pm_index (mi_functions module) index) (\<lambda>s.
     bind_ok (pm_index (mi_signatures module) s) (\<lambda>func. Ok (EFunction func)))"
| "get_extern_from_import module (ImTable index) =
     bind_ok (pm_index (mi_tables module) index) (\<lambda>table. Ok (ETable table))"
| "get_extern_from_import module (ImMemory index) =
     bind_ok (pm_index (mi_memories module) index) (\<lambda>memory. Ok (EMemory memory))"
| "get_extern_from_import module (ImGlobal index) =
     bind_ok (pm_index (mi_globals module) index) (\<lambda>global. Ok (EGlobal global))"
| "get_extern_from_import module (ImTag index) =
     bind_ok (pm_index (mi_tags module) index) (\<lambda>s.
     bind_ok (pm_index (mi_signatures module) s) (\<lambda>func.
       Ok (ETag (tag_from_fn_type Exception func))))"

fun get_extern_type :: "process \<Rightarrow> VMExtern \<Rightarrow> (ExternType, 'e) outcome" where
  "get_extern_type p (XTag f) =
     bind_ok (ish_get (so_tags (pr_store p)) f) (\<lambda>t.
       Ok (ETag (tag_from_fn_type Exception (vtag_signature t))))"
| "get_extern_type p (XFunction f) =
     bind_ok (ish_get (so_functions (pr_store p)) f) (\<lambda>f. Ok (EFunction (vf_signature f)))"
| "get_extern_type p (XTable t) =
     bind_ok (ish_get (pr_tables p) t) (\<lambda>t. Ok (ETable (vt_table t)))"
| "get_extern_type p (XMemory m) =
     bind_ok (ish_get (pr_memories p) m) (\<lambda>m. bind_ok (vm_ty (pr_cells p) m) (\<lambda>ty. Ok (EMemory ty)))"
| "get_extern_type p (XGlobal g) =
     bind_ok (ish_get (pr_globals p) g) (\<lambda>g. Ok (EGlobal (vg_ty g)))"

fun extern_runtime_size :: "process \<Rightarrow> VMExtern \<Rightarrow> (u32 option, 'e) outcome" where
  "extern_runtime_size p (XTable t) =
     bind_ok (ish_get (pr_tables p) t) (\<lambda>t. Ok (Some (table_get_runtime_size t)))"
| "extern_runtime_size p (XMemory m) =
     bind_ok (ish_get (pr_memories p) m) (\<lambda>m.
     bind_ok (get_runtime_size (pr_cells p) m) (\<lambda>s. Ok (Some s)))"
| "extern_runtime_size p _ = Ok None"

definition resolve_import ::
  "ModuleInfo \<Rightarrow> VMExtern list \<Rightarrow> process \<Rightarrow> ImportKey \<Rightarrow> ImportIndex \<Rightarrow>
     (VMExtern \<times> ExternType \<times> ExternType, LinkError) outcome" where
  "resolve_import module imports p import import_index =
     bind_ok (get_extern_from_import module import_index) (\<lambda>import_extern.
       case nth_opt imports (unat (ik_import_idx import)) of
         None \<Rightarrow> Err (LinkImport (ik_module import) (ik_field import) (UnknownImport import_extern))
       | Some resolved \<Rightarrow>
           bind_ok (get_extern_type p resolved) (\<lambda>extern_type.
           bind_ok (extern_runtime_size p resolved) (\<lambda>runtime_size.
             if \<not> is_compatible_with extern_type import_extern runtime_size
             then Err (LinkImport (ik_module import) (ik_field import)
                    (IncompatibleType import_extern extern_type))
             else Ok (resolved, import_extern, extern_type))))"

text \<open>The guard pages of an imported memory must be at least those the module relies on.\<close>

definition memory_styles_ok :: "MemoryStyle \<Rightarrow> MemoryStyle \<Rightarrow> bool" where
  "memory_styles_ok export_style import_style =
     ((case (export_style, import_style) of
         (Static bound _, Static import_bound _) \<Rightarrow> import_bound \<le> bound
       | _ \<Rightarrow> True) \<and>
      style_offset_guard_size import_style \<le> style_offset_guard_size export_style)"

definition push_import ::
  "process \<Rightarrow> ModuleInfo \<Rightarrow> usize PrimaryMap \<Rightarrow> MemoryStyle PrimaryMap \<Rightarrow> Imports \<Rightarrow> ImportKey \<Rightarrow>
     ImportIndex \<Rightarrow> VMExtern \<times> ExternType \<times> ExternType \<Rightarrow> (Imports \<times> process, LinkError) outcome" where
  "push_import p module trampolines memory_styles ims key import_index =
     (\<lambda>(resolved, import_extern, extern_type).
      case resolved of
        XFunction handle \<Rightarrow>
          bind_ok (ish_get (so_functions (pr_store p)) handle) (\<lambda>f.
          bind_ok (case vf_kind f of
              FnDynamic \<Rightarrow>
                bind_ok (entity_new (length (im_functions ims))) (\<lambda>index.
                bind_ok (pm_index trampolines index) (\<lambda>ptr.
                  Ok (ptr, f\<lparr>vf_anyfunc := owned_update (\<lambda>a. a\<lparr>af_func_ptr := ptr\<rparr>) (vf_anyfunc f)\<rparr>)))
            | FnStatic \<Rightarrow> Ok (af_func_ptr (owned_value (vf_anyfunc f)), f)) (\<lambda>(address, f').
          bind_ok (ish_set (so_functions (pr_store p)) handle f') (\<lambda>fs.
            Ok (ims\<lparr>im_functions := im_functions ims @
                 [\<lparr>fi_body = address, fi_environment = af_vmctx (owned_value (vf_anyfunc f')),
                   fi_handle = handle, fi_include_m0_param = vf_host_data_unit f'\<rparr>]\<rparr>,
                p\<lparr>pr_store := (pr_store p)\<lparr>so_functions := fs\<rparr>\<rparr>))))
      | XTable handle \<Rightarrow>
          bind_ok (ish_get (pr_tables p) handle) (\<lambda>t.
            case import_index of
              ImTable index \<Rightarrow>
                bind_ok (pm_index (mi_tables module) index) (\<lambda>expected.
                  if tt_ty (vt_table t) \<noteq> tt_ty expected
                  then Err (LinkImport (ik_module key) (ik_field key)
                         (IncompatibleType import_extern extern_type))
                  else Ok (ims\<lparr>im_tables := im_tables ims @
                         [\<lparr>tbi_definition = handle, tbi_handle = handle\<rparr>]\<rparr>, p))
            | _ \<Rightarrow> Panic)
      | XMemory handle \<Rightarrow>
          bind_ok (ish_get (pr_memories p) handle) (\<lambda>m.
            case import_index of
              ImMemory index \<Rightarrow>
                bind_ok (pm_index memory_styles index) (\<lambda>import_style.
                bind_ok (assert_that (memory_styles_ok (vm_style m) import_style)) (\<lambda>_.
                  Ok (ims\<lparr>im_memories := im_memories ims @
                       [\<lparr>mmi_definition = handle, mmi_handle = handle\<rparr>]\<rparr>, p)))
            | _ \<Rightarrow> Panic)
      | XGlobal handle \<Rightarrow>
          bind_ok (ish_get (pr_globals p) handle) (\<lambda>g.
            Ok (ims\<lparr>im_globals := im_globals ims @
                 [\<lparr>gbi_definition = handle, gbi_handle = handle\<rparr>]\<rparr>, p))
      | XTag _ \<Rightarrow> Panic)"

definition is_tag_import :: "ImportIndex \<Rightarrow> bool" where
  "is_tag_import i = (case i of ImTag _ \<Rightarrow> True | _ \<Rightarrow> False)"

fun resolve_imports_loop ::
  "process \<Rightarrow> ModuleInfo \<Rightarrow> VMExtern list \<Rightarrow> usize PrimaryMap \<Rightarrow> MemoryStyle PrimaryMap \<Rightarrow>
     Imports \<Rightarrow> (ImportKey \<times> ImportIndex) list \<Rightarrow> (Imports \<times> process, LinkError) outcome" where
  "resolve_imports_loop p module imports trampolines memory_styles ims [] = Ok (ims, p)"
| "resolve_imports_loop p module imports trampolines memory_styles ims ((key, index) # is) =
     bind_ok (resolve_import module imports p key index) (\<lambda>r.
     bind_ok (push_import p module trampolines memory_styles ims key index r) (\<lambda>(ims', p').
       resolve_imports_loop p' module imports trampolines memory_styles ims' is))"

definition resolve_imports ::
  "process \<Rightarrow> ModuleInfo \<Rightarrow> VMExtern list \<Rightarrow> usize PrimaryMap \<Rightarrow> MemoryStyle PrimaryMap \<Rightarrow>
     (Imports \<times> process, LinkError) outcome" where
  "resolve_imports p module imports trampolines memory_styles =
     resolve_imports_loop p module imports trampolines memory_styles imports_none
       (filter (\<lambda>(_, index). \<not> is_tag_import index) (mi_imports module))"

fun resolve_imported_tags ::
  "process \<Rightarrow> ModuleInfo \<Rightarrow> VMExtern list \<Rightarrow> (ImportKey \<times> ImportIndex) list \<Rightarrow>
     InternalStoreHandle list \<Rightarrow> (InternalStoreHandle list, LinkError) outcome" where
  "resolve_imported_tags p module imports [] tags = Ok tags"
| "resolve_imported_tags p module imports ((key, import_index) # is) tags =
     bind_ok (resolve_import module imports p key import_index) (\<lambda>(resolved, import_extern, extern_type).
       case (resolved, import_index) of
         (XTag handle, ImTag index) \<Rightarrow>
           bind_ok (ish_get (so_tags (pr_store p)) handle) (\<lambda>t.
           bind_ok (pm_index (mi_tags module) index) (\<lambda>s.
             case pm_get (mi_signatures module) s of
               None \<Rightarrow> Err (LinkResource
                 (''Could not find matching signature for tag index TagIndex('' @ decimal (unat index) @ '')''))
             | Some expected \<Rightarrow>
                 if vtag_signature t \<noteq> expected
                 then Err (LinkImport (ik_module key) (ik_field key)
                        (IncompatibleType import_extern extern_type))
                 else resolve_imported_tags p module imports is (tags @ [handle])))
       | _ \<Rightarrow> Panic)"

fun create_local_tags ::
  "process \<Rightarrow> ModuleInfo \<Rightarrow> (TagIndex \<times> SignatureIndex) list \<Rightarrow> InternalStoreHandle list \<Rightarrow>
     (InternalStoreHandle list \<times> process, LinkError) outcome" where
  "create_local_tags p module [] tags = Ok (tags, p)"
| "create_local_tags p module ((tag_idx, signature_index) # is) tags =
     (if is_imported_tag module tag_idx then create_local_tags p module is tags
      else case pm_get (mi_signatures module) signature_index of
        None \<Rightarrow> Err (LinkResource
          (''Could not find matching signature for tag index TagIndex('' @ decimal (unat tag_idx) @ '')''))
      | Some sig_ty \<Rightarrow>
          bind_ok (ish_new (so_tags (pr_store p)) (vmtag_new Exception sig_ty)) (\<lambda>(handle, ts).
            create_local_tags (p\<lparr>pr_store := (pr_store p)\<lparr>so_tags := ts\<rparr>\<rparr>) module is (tags @ [handle])))"

definition resolve_tags ::
  "process \<Rightarrow> ModuleInfo \<Rightarrow> VMExtern list \<Rightarrow> (InternalStoreHandle list \<times> process, LinkError) outcome" where
  "resolve_tags p module imports =
     bind_ok (resolve_imported_tags p module imports
        (filter (\<lambda>(_, index). is_tag_import index) (mi_imports module)) []) (\<lambda>tags.
       create_local_tags p module (pm_iter (mi_tags module)) tags)"

section \<open>Creating an instance\<close>

text \<open>
  The artifact of a compiled module: the code addresses and registered signatures, and the
  styles chosen when it was compiled. \<open>builtin_addr\<close> gives the addresses of the runtime's
  functions and \<open>funcrefs_ptr\<close> that of the allocated function records.
\<close>

record artifact =
  ar_module :: ModuleInfo
  ar_finished_functions :: "usize PrimaryMap"
  ar_finished_function_call_trampolines :: "usize PrimaryMap"
  ar_finished_dynamic_function_trampolines :: "usize PrimaryMap"
  ar_signatures :: "VMSharedSignatureIndex PrimaryMap"
  ar_memory_styles :: "MemoryStyle PrimaryMap"
  ar_table_styles :: "TableStyle PrimaryMap"
  ar_data_initializers :: "DataInitializer list"

definition vminstance_fields ::
  "usize \<Rightarrow> VMOffsets \<Rightarrow> usize \<Rightarrow> artifact \<Rightarrow> InternalStoreHandle list \<Rightarrow> InternalStoreHandle list \<Rightarrow>
     InternalStoreHandle list \<Rightarrow> InternalStoreHandle list \<Rightarrow> Imports \<Rightarrow>
     VMCallerCheckedAnyfunc list \<Rightarrow> usize list \<Rightarrow> usize list \<Rightarrow> VMInstance" where
  "vminstance_fields funcrefs_ptr offsets vmctx_ptr art memories tables globals tags imports
       funcrefs imported_funcrefs builtins =
     \<lparr>in_module = ar_module art, in_offsets = offsets, in_memories = memories,
      in_tables = tables, in_globals = globals, in_tags = tags,
      in_functions = ar_finished_functions art,
      in_function_call_trampolines = ar_finished_function_call_trampolines art,
      in_passive_elements = Map.empty, in_passive_data = mi_passive_data (ar_module art),
      in_funcrefs_ptr = funcrefs_ptr, in_funcrefs = funcrefs,
      in_imported_funcrefs = imported_funcrefs, in_vmctx_ptr = vmctx_ptr,
      in_tag_ids = map as_u32 tags, in_signature_ids = ar_signatures art,
      in_imports = imports, in_global_ptrs = globals, in_builtin_functions = builtins\<rparr>"

definition vminstance_new ::
  "(builtin_fn \<Rightarrow> usize) \<Rightarrow> usize \<Rightarrow> process \<Rightarrow> VMOffsets \<Rightarrow> usize \<Rightarrow> artifact \<Rightarrow>
     InternalStoreHandle list \<Rightarrow> InternalStoreHandle list \<Rightarrow> InternalStoreHandle list \<Rightarrow>
     InternalStoreHandle list \<Rightarrow> Imports \<Rightarrow> (VMInstance \<times> process, unit) outcome" where
  "vminstance_new builtin_addr funcrefs_ptr p offsets vmctx_ptr art memories tables globals tags imports =
     bind_ok (build_funcrefs (ar_module art) p imports (ar_finished_functions art)
        (ar_signatures art) (ar_finished_function_call_trampolines art) vmctx_ptr)
        (\<lambda>(funcrefs, imported_funcrefs).
     bind_ok (builtins_initialized builtin_addr) (\<lambda>builtins.
     bind_ok (initialize_passive_elements (vminstance_fields funcrefs_ptr offsets vmctx_ptr art
          memories tables globals tags imports funcrefs imported_funcrefs builtins)) (\<lambda>instance.
     bind_ok (initialize_globals p instance) (\<lambda>p'. Ok (instance, p')))))"

datatype InstantiationError = InstLink LinkError | InstCpuFeature string | InstStart TrapCode

definition unit_panic :: "('a, unit) outcome \<Rightarrow> ('a, 'e) outcome" where
  "unit_panic r = (case r of Ok x \<Rightarrow> Ok x | _ \<Rightarrow> Panic)"

text \<open>
  \<open>cpu_missing\<close> names the processor features that the host lacks. The allocator chooses the
  addresses of the context and of the function records.
\<close>

definition instantiate ::
  "os \<Rightarrow> (nat \<Rightarrow> usize) \<Rightarrow> (builtin_fn \<Rightarrow> usize) \<Rightarrow> usize \<Rightarrow> usize \<Rightarrow> string option \<Rightarrow> process \<Rightarrow>
     artifact \<Rightarrow> VMExtern list \<Rightarrow> (VMInstance \<times> process, InstantiationError) outcome" where
  "instantiate os alloc builtin_addr funcrefs_ptr vmctx_ptr cpu_missing p art imports =
     (case cpu_missing of
        Some features \<Rightarrow> Err (InstCpuFeature features)
      | None \<Rightarrow>
          bind_ok (map_err InstLink (resolve_tags p (ar_module art) imports)) (\<lambda>(tags, p1).
          bind_ok (map_err InstLink (resolve_imports p1 (ar_module art) imports
             (ar_finished_dynamic_function_trampolines art) (ar_memory_styles art))) (\<lambda>(ims, p2).
          bind_ok (unit_panic (instance_allocator_new (ar_module art) vmctx_ptr))
             (\<lambda>(offsets, memory_locations, table_locations).
          bind_ok (map_err InstLink (create_memories os p2 (ar_module art) (ar_memory_styles art)
             memory_locations)) (\<lambda>(memories, p3).
          bind_ok (map_err InstLink (create_tables alloc p3 (ar_module art) (ar_table_styles art)
             table_locations)) (\<lambda>(tables, p4).
          bind_ok (map_err InstLink (create_globals p4 (ar_module art))) (\<lambda>(globals, p5).
            unit_panic (vminstance_new builtin_addr funcrefs_ptr p5 offsets vmctx_ptr art
              memories tables globals tags ims))))))))"

text \<open>\<open>call\<close> runs compiled code: a trampoline on the address and context of a function.\<close>

type_synonym call_fn = "usize \<Rightarrow> usize \<Rightarrow> usize \<Rightarrow> process \<Rightarrow> TrapCode option \<times> process"

definition invoke_start_function ::
  "call_fn \<Rightarrow> process \<Rightarrow> VMInstance \<Rightarrow> (TrapCode option \<times> process, unit) outcome" where
  "invoke_start_function call p self =
     (case mi_start_function (in_module self) of
        None \<Rightarrow> Ok (None, p)
      | Some start_index \<Rightarrow>
          bind_ok (local_func_index (in_module self) start_index) (\<lambda>l.
          bind_ok (case l of
              Some local_index \<Rightarrow>
                bind_ok (unwrap (pm_get (in_functions self) local_index)) (\<lambda>body.
                  Ok (body, in_vmctx_ptr self))
            | None \<Rightarrow>
                bind_ok (assert_that (entity_index start_index <
                    mi_num_imported_functions (in_module self))) (\<lambda>_.
                bind_ok (imported_function self start_index) (\<lambda>import.
                  Ok (fi_body import, fi_environment import)))) (\<lambda>(callee_address, callee_vmctx).
          bind_ok (pm_index (mi_functions (in_module self)) start_index) (\<lambda>sig.
          bind_ok (pm_index (in_function_call_trampolines self) sig) (\<lambda>trampoline.
            Ok (call callee_vmctx trampoline callee_address p))))))"

definition finish_instantiation ::
  "call_fn \<Rightarrow> process \<Rightarrow> VMInstance \<Rightarrow> DataInitializer list \<Rightarrow>
     (TrapCode option \<times> process, unit) outcome" where
  "finish_instantiation call p self data_initializers =
     bind_ok (initialize_tables p self) (\<lambda>(trap, p1).
       case trap of Some t \<Rightarrow> Ok (Some t, p1)
       | None \<Rightarrow>
           bind_ok (initialize_memories p1 self data_initializers) (\<lambda>(trap, p2).
             case trap of Some t \<Rightarrow> Ok (Some t, p2)
             | None \<Rightarrow> invoke_start_function call p2 self))"

section \<open>Where the definitions are placed\<close>

lemma entity_new_Ok [outcome_simps]: "(entity_new i = Ok k) = (i < 2 ^ 32 - 1 \<and> k = as_u32 i)"
  by (auto simp: entity_new_def outcome_simps assert_that_def)

lemma table_locations_at:
  assumes "table_definition_locations offsets base = Ok locs" and "pointer_size offsets = 8"
  shows "locs = map (\<lambda>i. base + vmctx_tables_begin offsets + i * SIZE_VMTableDefinition)
    [0..<num_local_tables offsets]"
proof (rule nth_equalityI)
  have all: "list_all2 (\<lambda>i l. bind_ok (entity_new i) (\<lambda>k. bind_ok (vmctx_vmtable_definition offsets k)
      (\<lambda>o'. Ok (base + o'))) = Ok l) [0..<num_local_tables offsets] locs"
    using assms(1) by (simp add: table_definition_locations_def map_ok_eq_Ok)
  then show len: "length locs = length (map (\<lambda>i. base + vmctx_tables_begin offsets + i * SIZE_VMTableDefinition)
    [0..<num_local_tables offsets])" by (auto dest: list_all2_lengthD)
  fix i assume i: "i < length locs"
  from list_all2_nthD2 [OF all i] show "locs ! i = map (\<lambda>i. base + vmctx_tables_begin offsets + i * SIZE_VMTableDefinition)
    [0..<num_local_tables offsets] ! i"
    using i len assms(2)
    by (auto simp: outcome_simps vmctx_vmtable_definition_def offset_by_def size_of_vmtable_definition_def
       u8_mul_def u32_mul_def u32_add_def SIZE_VMTableDefinition_def assert_that_def unat_as_u32_small split: if_splits)
qed

lemma local_locations_eq:
  "length locs = n \<Longrightarrow> local_locations locs n m = map (\<lambda>i. (i, locs ! i)) [m..<n]"
  by (rule nth_equalityI) (auto simp: local_locations_def nth_enumerate_eq)

lemma create_tables_loop_eq:
  assumes "create_tables_loop alloc p module styles locs hs = Ok (hs', p')"
  shows "\<exists>ts. pr_tables p' = pr_tables p @ ts \<and> p' = pr_set_tables p (pr_tables p @ ts) \<and>
    hs' = hs @ map (\<lambda>k. Suc (length (pr_tables p) + k)) [0..<length locs] \<and>
    list_all2 (\<lambda>(i, loc) t. \<exists>td. i < length (mi_tables module) \<and> vt_table t = mi_tables module ! i \<and>
      table_wf t \<and> vt_definition t = Instance loc td) locs ts"
  using assms
proof (induction locs arbitrary: p hs)
  case Nil
  then show ?case by (simp add: pr_set_tables_def pr_tables_def)
next
  case (Cons l locs)
  obtain i loc where l: "l = (i, loc)" by (cases l)
  from Cons.prems obtain ty style t where i: "i < 2 ^ 32 - 1" "pm_index (mi_tables module) (as_u32 i) = (Ok ty :: (_, LinkError) outcome)"
    and t: "table_from_definition alloc ty style loc = Ok t"
    and rest: "create_tables_loop alloc (pr_set_tables p (pr_tables p @ [t])) module styles locs
        (hs @ [Suc (length (pr_tables p))]) = Ok (hs', p')"
    by (auto simp: l outcome_simps ish_new_def)
  have ty: "i < length (mi_tables module)" "ty = mi_tables module ! i"
    using i by (auto simp: pm_index_def pm_get_def outcome_simps nth_opt_def entity_index_def unat_as_u32_small split: if_splits)
  have "\<exists>td. vt_definition t = Instance loc td"
    using t by (auto simp: table_from_definition_def table_new_inner_def Let_def split: if_splits)
  then have new: "vt_table t = ty \<and> table_wf t \<and> (\<exists>td. vt_definition t = Instance loc td)"
    using t table_new_wf [of alloc ty style "Some loc" t] by (simp add: table_from_definition_def)
  from Cons.IH [OF rest] obtain ts where ts: "pr_tables p' = (pr_tables p @ [t]) @ ts"
    "p' = pr_set_tables (pr_set_tables p (pr_tables p @ [t])) ((pr_tables p @ [t]) @ ts)"
    "hs' = (hs @ [Suc (length (pr_tables p))]) @ map (\<lambda>k. Suc (Suc (length (pr_tables p)) + k)) [0..<length locs]"
    "list_all2 (\<lambda>(i, loc) t. \<exists>td. i < length (mi_tables module) \<and> vt_table t = mi_tables module ! i \<and>
      table_wf t \<and> vt_definition t = Instance loc td) locs ts"
    by auto
  have "map (\<lambda>k. Suc (length (pr_tables p) + k)) [0..<length (l # locs)] =
      Suc (length (pr_tables p)) # map (\<lambda>k. Suc (Suc (length (pr_tables p)) + k)) [0..<length locs]"
    by (simp add: map_upt_Suc del: upt_Suc)
  with ts new ty show ?case
    by (intro exI [of _ "t # ts"]) (auto simp: l pr_set_tables_def)
qed

text \<open>
  The steps of \<open>instantiate\<close> that resolve imports and tags and that create and initialise globals
  leave the memories and tables of the process alone.
\<close>

definition same_storage :: "process \<Rightarrow> process \<Rightarrow> bool" where
  "same_storage p p' = (pr_tables p' = pr_tables p \<and> pr_memories p' = pr_memories p \<and>
     pr_cells p' = pr_cells p \<and> pr_os p' = pr_os p)"

lemma same_storage_refl [simp, intro]: "same_storage p p"
  by (simp add: same_storage_def)

lemma same_storage_trans: "same_storage p p' \<Longrightarrow> same_storage p' p'' \<Longrightarrow> same_storage p p''"
  by (simp add: same_storage_def)

lemma same_storage_updates [simp]:
  "same_storage p (p\<lparr>pr_store := (pr_store p)\<lparr>so_tags := ts\<rparr>\<rparr>)"
  "same_storage p (p\<lparr>pr_store := (pr_store p)\<lparr>so_functions := fs\<rparr>\<rparr>)"
  "same_storage p (pr_set_globals p gs)"
  by (simp_all add: same_storage_def pr_tables_def pr_memories_def pr_set_globals_def)

lemma create_local_tags_storage:
  "create_local_tags p module tys tags = Ok (tags', p') \<Longrightarrow> same_storage p p'"
proof (induction tys arbitrary: p tags)
  case (Cons i tys)
  obtain tag_idx sig where i: "i = (tag_idx, sig)" by (cases i)
  then consider "create_local_tags p module tys tags = Ok (tags', p')"
    | ts handle where "create_local_tags (p\<lparr>pr_store := (pr_store p)\<lparr>so_tags := ts\<rparr>\<rparr>) module tys (tags @ [handle]) =
        Ok (tags', p')"
    using Cons.prems by (auto simp: outcome_simps split: if_splits option.splits)
  then show ?case
    by cases (auto dest: Cons.IH intro: same_storage_trans [OF same_storage_updates(1)])
qed simp

lemma push_import_storage:
  "push_import p module tr ms ims key index r = Ok (ims', p') \<Longrightarrow> same_storage p p'"
  by (cases r; cases "fst r")
    (auto simp: push_import_def outcome_simps split: ImportIndex.splits if_splits VMFunctionKind.splits)

lemma resolve_imports_loop_storage:
  "resolve_imports_loop p module imports tr ms ims keys = Ok (ims', p') \<Longrightarrow> same_storage p p'"
  by (induction keys arbitrary: p ims)
    (fastforce simp: outcome_simps dest: push_import_storage intro: same_storage_trans)+

lemma create_globals_loop_storage:
  "create_globals_loop p tys gs = Ok (gs', p') \<Longrightarrow> same_storage p p'"
proof (induction tys arbitrary: p gs)
  case (Cons ty tys)
  then obtain all h where "create_globals_loop (pr_set_globals p all) tys (gs @ [h]) = Ok (gs', p')"
    by (auto simp: outcome_simps)
  then show ?case by (rule same_storage_trans [OF same_storage_updates(3) Cons.IH])
qed simp

lemma write_global_storage: "write_global p to f = Ok p' \<Longrightarrow> same_storage p p'"
  by (auto simp: write_global_def outcome_simps)

lemma initialize_global_storage:
  "initialize_global p self i g = (Ok p' :: (_, 'e) outcome) \<Longrightarrow> same_storage p p'"
proof (cases g)
  case (GI_Expr expr)
  assume "initialize_global p self i g = (Ok p' :: (_, 'e) outcome)"
  with GI_Expr obtain to v where "(case v of EvI32 x \<Rightarrow> write_global p to (\<lambda>r. raw_set_i32 r x)
      | EvI64 x \<Rightarrow> write_global p to (\<lambda>r. raw_set_i64 r x)) = (Ok p' :: (_, 'e) outcome)"
    by (auto simp: initialize_global_def outcome_simps)
  then show ?thesis by (cases v) (auto dest: write_global_storage)
qed (auto simp: initialize_global_def outcome_simps dest: write_global_storage)

lemma initialize_globals_from_storage:
  "initialize_globals_from p self gs = Ok p' \<Longrightarrow> same_storage p p'"
  by (induction gs arbitrary: p)
    (fastforce simp: outcome_simps dest: initialize_global_storage intro: same_storage_trans)+

lemma create_memories_loop_tables:
  "create_memories_loop os p module styles locs hs = Ok (hs', p') \<Longrightarrow> pr_tables p' = pr_tables p"
  by (induction locs arbitrary: p hs) (fastforce simp: outcome_simps pr_tables_def)+

lemma initialize_passive_elements_Ok:
  "initialize_passive_elements self = Ok self' \<Longrightarrow> \<exists>e. self' = self\<lparr>in_passive_elements := e\<rparr>"
  unfolding initialize_passive_elements_def Let_def
  by (split if_split_asm) (simp_all only: outcome.distinct outcome.inject, blast)

lemma vminstance_new_Ok:
  assumes "vminstance_new builtin_addr funcrefs_ptr p offsets vmctx_ptr art memories tables globals tags imports =
    Ok (inst, p')"
  shows "in_memories inst = memories \<and> in_tables inst = tables \<and> in_offsets inst = offsets \<and>
    in_vmctx_ptr inst = vmctx_ptr \<and> in_module inst = ar_module art \<and> in_imports inst = imports \<and> same_storage p p'"
proof -
  from assms obtain fr ifr bs where self:
    "initialize_passive_elements (vminstance_fields funcrefs_ptr offsets vmctx_ptr art
          memories tables globals tags imports fr ifr bs) = (Ok inst :: (_, unit) outcome)"
    "initialize_globals p inst = (Ok p' :: (_, unit) outcome)"
    by (auto simp: vminstance_new_def outcome_simps)
  then show ?thesis
    by (auto simp: vminstance_fields_def initialize_globals_def
        dest!: initialize_passive_elements_Ok initialize_globals_from_storage)
qed

text \<open>Searching a list of entities whose new part was placed at distinct locations.\<close>

lemma find_placed:
  assumes old: "\<forall>x \<in> set xs. \<not> P a x"
    and new: "list_all2 (\<lambda>l y. \<forall>b. P b y \<longleftrightarrow> b = l) locs ys" and dist: "distinct locs"
  shows "k < length ys \<Longrightarrow> a = locs ! k \<Longrightarrow> List.find (P a) (xs @ ys) = Some (ys ! k)"
    and "a \<notin> set locs \<Longrightarrow> List.find (P a) (xs @ ys) = None"
proof -
  have at: "P b (ys ! j) \<longleftrightarrow> b = locs ! j" if "j < length ys" for b j
    using list_all2_nthD2 [OF new that] by simp
  have len: "length locs = length ys" using new by (rule list_all2_lengthD)
  show "List.find (P a) (xs @ ys) = Some (ys ! k)" if k: "k < length ys" "a = locs ! k"
  proof -
    have "\<not> P a ((xs @ ys) ! j)" if j: "j < length xs + k" for j
    proof (cases "j < length xs")
      case False
      then have "j - length xs < length ys" "j - length xs \<noteq> k" using j k by auto
      then show ?thesis using False at k dist len by (auto simp: nth_append nth_eq_iff_index_eq)
    qed (use old in \<open>simp add: nth_append\<close>)
    then show ?thesis
      unfolding find_Some_iff using k at by (intro exI [of _ "length xs + k"]) (auto simp: nth_append)
  qed
  show "List.find (P a) (xs @ ys) = None" if "a \<notin> set locs"
  proof -
    have "\<not> P a y" if "y \<in> set ys" for y
      using that \<open>a \<notin> set locs\<close> at len by (auto simp: in_set_conv_nth)
    with old show ?thesis by (auto simp: find_None_iff)
  qed
qed

lemma table_slot_placed:
  assumes old: "\<forall>t \<in> set (pr_tables p). \<not> owned_at a (vt_definition t)"
    and p': "pr_tables p' = pr_tables p @ ts"
    and ts: "list_all2 (\<lambda>l t. \<exists>td. vt_definition t = Instance l td) locs ts" and dist: "distinct locs"
  shows "k < length ts \<Longrightarrow> a = locs ! k \<Longrightarrow> table_slot p' a = Some (get_vm_table_definition (ts ! k))"
    and "a \<notin> set locs \<Longrightarrow> table_slot p' a = None"
proof -
  have "list_all2 (\<lambda>l t. \<forall>b. owned_at b (vt_definition t) \<longleftrightarrow> b = l) locs ts"
    using ts by (rule list_all2_mono) auto
  note find = find_placed [where P = "\<lambda>a t. owned_at a (vt_definition t)", OF old this dist]
  show "k < length ts \<Longrightarrow> a = locs ! k \<Longrightarrow> table_slot p' a = Some (get_vm_table_definition (ts ! k))"
    "a \<notin> set locs \<Longrightarrow> table_slot p' a = None"
    using find by (simp_all add: table_slot_def p')
qed

lemma unit_panic_Ok [outcome_simps]: "(unit_panic r = Ok x) = (r = Ok x)"
  by (auto simp: unit_panic_def split: outcome.splits)

lemma vmoffsets_new_counts:
  assumes "vmoffsets_new 8 module = Ok t"
  shows "pointer_size t = 8" "num_local_tables t = length (mi_tables module)"
    "num_local_memories t = length (mi_memories module)" "length (mi_tables module) < 2 ^ 32"
    "length (mi_memories module) < 2 ^ 32"
  using assms unfolding vmoffsets_new_def
  by (auto simp: outcome_simps cast_to_u32_def precompute_def Let_def pm_len_def new_for_trampolines_def split: if_splits)

lemma instantiate_tables:
  assumes "instantiate os alloc builtin_addr funcrefs_ptr vmctx_ptr cpu_missing p art imports = Ok (inst, p')"
  defines "n \<equiv> mi_num_imported_tables (ar_module art)" and "tys \<equiv> mi_tables (ar_module art)"
  shows "\<exists>ts. pr_tables p' = pr_tables p @ ts \<and> length tys < 2 ^ 32 \<and> in_module inst = ar_module art \<and>
    in_tables inst = map (\<lambda>k. Suc (length (pr_tables p) + k)) [0..<length tys - n] \<and>
    list_all2 (\<lambda>i t. table_wf t \<and> vt_table t = tys ! i \<and>
      (\<exists>td. vt_definition t = Instance (table_ptr inst (as_u32 i)) td)) [n..<length tys] ts"
proof -
  from assms(1) obtain tags p1 ims p2 offs mlocs tlocs mems p3 tabs p4 globs p5 where steps:
    "resolve_tags p (ar_module art) imports = Ok (tags, p1)"
    "resolve_imports p1 (ar_module art) imports (ar_finished_dynamic_function_trampolines art)
       (ar_memory_styles art) = Ok (ims, p2)"
    "instance_allocator_new (ar_module art) vmctx_ptr = Ok (offs, mlocs, tlocs)"
    "create_memories os p2 (ar_module art) (ar_memory_styles art) mlocs = Ok (mems, p3)"
    "create_tables alloc p3 (ar_module art) (ar_table_styles art) tlocs = Ok (tabs, p4)"
    "create_globals p4 (ar_module art) = Ok (globs, p5)"
    "vminstance_new builtin_addr funcrefs_ptr p5 offs vmctx_ptr art mems tabs globs tags ims = Ok (inst, p')"
    by (auto simp: instantiate_def outcome_simps split: option.splits)
  have offs: "vmoffsets_new 8 (ar_module art) = Ok offs"
    and tl: "table_definition_locations offs vmctx_ptr = Ok tlocs"
    using steps(3) by (auto simp: instance_allocator_new_def outcome_simps)
  note counts = vmoffsets_new_counts [OF offs]
  note inst = vminstance_new_Ok [OF steps(7)]
  have "tlocs = map (\<lambda>i. vmctx_ptr + vmctx_tables_begin offs + i * SIZE_VMTableDefinition) [0..<length tys]"
    using table_locations_at [OF tl counts(1)] by (simp add: counts(2) tys_def)
  then have len: "length tlocs = length tys"
    and loc: "i < length tys \<Longrightarrow> tlocs ! i = table_ptr inst (as_u32 i)" for i
    using inst counts(4) by (simp_all add: table_ptr_def tables_ptr_def unat_as_u32_small tys_def)
  have p3: "pr_tables p3 = pr_tables p"
    using steps(1,2,4) create_memories_loop_tables
    by (auto simp: resolve_tags_def outcome_simps resolve_imports_def create_memories_def same_storage_def
        dest!: create_local_tags_storage resolve_imports_loop_storage)
  have p': "pr_tables p' = pr_tables p4"
    using steps(6) inst by (auto simp: create_globals_def same_storage_def dest!: create_globals_loop_storage)
  from steps(5) have "create_tables_loop alloc p3 (ar_module art) (ar_table_styles art)
      (map (\<lambda>i. (i, tlocs ! i)) [n..<length tys]) [] = Ok (tabs, p4)"
    unfolding create_tables_def using local_locations_eq [OF len] by (simp add: n_def tys_def)
  from create_tables_loop_eq [OF this] obtain ts where ts: "pr_tables p4 = pr_tables p @ ts"
    "tabs = map (\<lambda>k. Suc (length (pr_tables p) + k)) [0..<length tys - n]"
    "list_all2 (\<lambda>i t. \<exists>td. vt_table t = tys ! i \<and> table_wf t \<and>
        vt_definition t = Instance (tlocs ! i) td) [n..<length tys] ts"
    by (auto simp: p3 list_all2_conv_all_nth tys_def)
  have "list_all2 (\<lambda>i t. table_wf t \<and> vt_table t = tys ! i \<and>
      (\<exists>td. vt_definition t = Instance (table_ptr inst (as_u32 i)) td)) [n..<length tys] ts"
    using ts(3) by (auto simp: list_all2_conv_all_nth loc)
  then show ?thesis using ts(1,2) p' inst counts(4) by (auto simp: tys_def)
qed

lemma table_slots_of_instance:
  assumes ok: "instantiate os alloc builtin_addr funcrefs_ptr vmctx_ptr cpu_missing p art imports = Ok (inst, p')"
    and fresh: "\<forall>t \<in> set (pr_tables p). \<forall>k. \<not> owned_at (table_ptr inst k) (vt_definition t)"
    and n: "n = mi_num_imported_tables (ar_module art)" "n \<le> length (mi_tables (ar_module art))"
  shows "length (in_tables inst) = length (mi_tables (ar_module art)) - n"
    and "\<forall>k < length (in_tables inst). \<exists>t. ish_get (pr_tables p') (in_tables inst ! k) = (Ok t :: (_, unit) outcome) \<and>
      table_wf t \<and> vt_table t = mi_tables (ar_module art) ! (n + k) \<and>
      table_slot p' (table_ptr inst (as_u32 (n + k))) = Some (get_vm_table_definition t)"
    and "(\<forall>k < length (in_tables inst). \<exists>t. ish_get (pr_tables p') (in_tables inst ! k) = (Ok t :: (_, unit) outcome) \<and>
        in_table p' inst (as_u32 k) = (Ok (get_vm_table_definition t) :: (_, unit) outcome)) \<longleftrightarrow>
      n = 0 \<or> in_tables inst = []"
    and "0 < n \<Longrightarrow> in_table p' inst 0 = (Panic :: (_, unit) outcome)"
proof -
  let ?tys = "mi_tables (ar_module art)"
  obtain ts where ts: "pr_tables p' = pr_tables p @ ts" "length ?tys < 2 ^ 32"
    "in_tables inst = map (\<lambda>k. Suc (length (pr_tables p) + k)) [0..<length ?tys - n]"
    "list_all2 (\<lambda>i t. table_wf t \<and> vt_table t = ?tys ! i \<and>
      (\<exists>td. vt_definition t = Instance (table_ptr inst (as_u32 i)) td)) [n..<length ?tys] ts"
    using instantiate_tables [OF ok] by (auto simp: n(1))
  show len: "length (in_tables inst) = length ?tys - n" by (simp add: ts(3))
  have tslen: "length ts = length ?tys - n" using ts(4) by (auto dest: list_all2_lengthD)
  define locs where "locs = map (\<lambda>i. table_ptr inst (as_u32 i)) [n..<length ?tys]"
  have placed: "list_all2 (\<lambda>l t. \<exists>td. vt_definition t = Instance l td) locs ts"
    using ts(4) by (auto simp: locs_def list_all2_conv_all_nth)
  have inj: "table_ptr inst (as_u32 i) = table_ptr inst (as_u32 j) \<longleftrightarrow> i = j"
    if "i < length ?tys" "j < length ?tys" for i j
    using that ts(2) by (simp add: table_ptr_def SIZE_VMTableDefinition_def unat_as_u32_small)
  have dist: "distinct locs" using inj by (auto simp: locs_def distinct_map inj_on_def)
  have free: "\<forall>t \<in> set (pr_tables p). \<not> owned_at (table_ptr inst k) (vt_definition t)" for k using fresh by blast
  have get: "ish_get (pr_tables p') (in_tables inst ! k) = (Ok (ts ! k) :: (_, unit) outcome)"
    if "k < length (in_tables inst)" for k
    using that tslen by (simp add: ish_get_Ok ish_valid_def ts(1,3) nth_append)
  have slot: "table_slot p' (table_ptr inst (as_u32 (n + k))) = Some (get_vm_table_definition (ts ! k))"
    if "k < length (in_tables inst)" for k
    using that table_slot_placed(1) [OF free ts(1) placed dist, of k] tslen len by (simp add: locs_def)
  show "\<forall>k < length (in_tables inst). \<exists>t. ish_get (pr_tables p') (in_tables inst ! k) = (Ok t :: (_, unit) outcome) \<and>
      table_wf t \<and> vt_table t = ?tys ! (n + k) \<and>
      table_slot p' (table_ptr inst (as_u32 (n + k))) = Some (get_vm_table_definition t)"
    using get slot ts(4) len by (auto simp: list_all2_conv_all_nth)
  show none: "in_table p' inst 0 = (Panic :: (_, unit) outcome)" if "0 < n"
  proof -
    have "table_ptr inst 0 \<notin> set locs"
    proof
      assume "table_ptr inst 0 \<in> set locs"
      then obtain i where i: "n \<le> i" "i < length ?tys" "table_ptr inst (as_u32 0) = table_ptr inst (as_u32 i)"
        by (auto simp: locs_def as_u32_def)
      then have "0 < length ?tys" by linarith
      with inj [OF this i(2)] i that show False by simp
    qed
    then show ?thesis
      using table_slot_placed(2) [OF free ts(1) placed dist] by (simp add: in_table_def)
  qed
  show "(\<forall>k < length (in_tables inst). \<exists>t. ish_get (pr_tables p') (in_tables inst ! k) = (Ok t :: (_, unit) outcome) \<and>
      in_table p' inst (as_u32 k) = (Ok (get_vm_table_definition t) :: (_, unit) outcome)) \<longleftrightarrow>
      n = 0 \<or> in_tables inst = []"
  proof (cases "n = 0")
    case True
    then show ?thesis using get slot by (simp add: in_table_def)
  next
    case False
    then show ?thesis using none by (cases "in_tables inst") (auto simp: as_u32_def)
  qed
qed

text \<open>
  C20: Where instantiation puts the tables of a module. The instance gets one new table in the
  store per table that the module defines itself, well formed and of the declared type, and the
  definition of table number \<open>i\<close> (counting the imported ones) is placed in slot \<open>i\<close> of the
  context. Compiled code and \<open>Instance::table\<close> read the slot with the local index: they find the
  definition of every local table exactly if the module imports no table, or defines none.
  Otherwise the first slot holds no definition at all.
\<close>

theorem instantiate_table_slots:
  assumes ok: "instantiate os alloc builtin_addr funcrefs_ptr vmctx_ptr cpu_missing p art imports = Ok (inst, p')"
    and fresh: "\<forall>t \<in> set (pr_tables p). \<forall>k. \<not> owned_at (table_ptr inst k) (vt_definition t)"
    and n: "n = mi_num_imported_tables (ar_module art)" "n \<le> length (mi_tables (ar_module art))"
  shows "length (in_tables inst) = length (mi_tables (ar_module art)) - n \<and>
    (\<forall>k < length (in_tables inst). \<exists>t. ish_get (pr_tables p') (in_tables inst ! k) = (Ok t :: (_, unit) outcome) \<and>
      table_wf t \<and> vt_table t = mi_tables (ar_module art) ! (n + k) \<and>
      table_slot p' (table_ptr inst (as_u32 (n + k))) = Some (get_vm_table_definition t)) \<and>
    ((\<forall>k < length (in_tables inst). \<exists>t. ish_get (pr_tables p') (in_tables inst ! k) = (Ok t :: (_, unit) outcome) \<and>
        in_table p' inst (as_u32 k) = (Ok (get_vm_table_definition t) :: (_, unit) outcome)) \<longleftrightarrow>
      n = 0 \<or> in_tables inst = []) \<and>
    (0 < n \<longrightarrow> in_table p' inst 0 = (Panic :: (_, unit) outcome))"
  using table_slots_of_instance [OF assms] by blast

text \<open>A module that imports a table of four elements and defines another one.\<close>

definition two_tables :: ModuleInfo where
  "two_tables = (module_new 0)\<lparr>mi_num_imported_tables := 1,
     mi_imports := [(\<lparr>ik_module = ''m'', ik_field = ''t'', ik_import_idx = 0\<rparr>, ImTable 0)],
     mi_tables := [vt_table example_table, \<lparr>tt_ty = FuncRef, tt_minimum = 2, tt_maximum = Some 8\<rparr>]\<rparr>"

definition two_tables_artifact :: artifact where
  "two_tables_artifact = \<lparr>ar_module = two_tables, ar_finished_functions = [],
     ar_finished_function_call_trampolines = [], ar_finished_dynamic_function_trampolines = [],
     ar_signatures = [], ar_memory_styles = [],
     ar_table_styles = [CallerChecksSignature, CallerChecksSignature], ar_data_initializers = []\<rparr>"

lemma two_tables_offsets:
  "\<exists>t. vmoffsets_new 8 two_tables = Ok t \<and> num_local_tables t = 2 \<and> num_local_memories t = 0 \<and> pointer_size t = 8 \<and>
     vmctx_tables_begin t = 16"
  by (simp add: vmoffsets_new_def two_tables_def module_new_def pm_new_def pm_len_def
      cast_to_u32_def precompute_def Let_def size_defs offset_by_aligned_def offset_by_def
      u8_mul_def u32_mul_def u32_add_def align_def new_for_trampolines_def
      builtin_functions_total_number_def)

lemma two_tables_locations:
  assumes "num_local_tables t = 2" "num_local_memories t = 0" "pointer_size t = 8" "vmctx_tables_begin t = 16"
  shows "memory_definition_locations t 8192 = Ok []" "table_definition_locations t 8192 = Ok [8208, 8224]"
  using assms
  by (simp_all add: memory_definition_locations_def table_definition_locations_def upt_rec [of 0 2] upt_rec [of "Suc 0" 2]
     entity_new_def vmctx_vmtable_definition_def offset_by_def size_of_vmtable_definition_def u8_mul_def
     u32_mul_def u32_add_def as_u32_def assert_that_def)

lemma two_tables_resolved:
  "resolve_tags example_process two_tables [XTable 1] = Ok ([], example_process)"
  "resolve_imports example_process two_tables [XTable 1] [] [] =
     Ok (imports_none\<lparr>im_tables := [\<lparr>tbi_definition = 1, tbi_handle = 1\<rparr>]\<rparr>, example_process)"
proof -
  have get: "ish_get (pr_tables example_process) (Suc 0) = Ok example_table"
    by (simp add: example_process_def pr_tables_def ish_get_def usize_sub_def nth_opt_def)
  have index: "pm_index (mi_tables two_tables) 0 = Ok (vt_table example_table)"
    by (simp add: two_tables_def pm_index_def pm_get_def nth_opt_def entity_index_def)
  have ims: "mi_imports two_tables = [(\<lparr>ik_module = ''m'', ik_field = ''t'', ik_import_idx = 0\<rparr>, ImTable 0)]"
    by (simp add: two_tables_def)
  have compat: "is_compatible_with (ETable (vt_table example_table)) (ETable (vt_table example_table))
      (Some (table_get_runtime_size example_table))"
    by (simp add: example_table_def table_get_runtime_size_def as_u32_def is_table_compatible_def unwrap_or_def)
  have import: "resolve_import two_tables [XTable 1] example_process
      \<lparr>ik_module = ''m'', ik_field = ''t'', ik_import_idx = 0\<rparr> (ImTable 0) =
      Ok (XTable 1, ETable (vt_table example_table), ETable (vt_table example_table))"
    using compat by (simp add: resolve_import_def index get nth_opt_def)
  show "resolve_imports example_process two_tables [XTable 1] [] [] =
     Ok (imports_none\<lparr>im_tables := [\<lparr>tbi_definition = 1, tbi_handle = 1\<rparr>]\<rparr>, example_process)"
    using import
    by (simp add: resolve_imports_def push_import_def is_tag_import_def imports_none_def pm_new_def get index ims)
  show "resolve_tags example_process two_tables [XTable 1] = Ok ([], example_process)"
    by (simp add: resolve_tags_def two_tables_def is_tag_import_def module_new_def pm_new_def pm_iter_def)
qed

lemma two_tables_instantiated:
  "\<exists>inst p'. instantiate example_os (\<lambda>n. 65536) (\<lambda>_. 4096) 4096 8192 None example_process two_tables_artifact
      [XTable 1] = Ok (inst, p') \<and> in_vmctx_ptr inst = 8192 \<and> vmctx_tables_begin (in_offsets inst) = 16"
proof -
  obtain t where t: "vmoffsets_new 8 two_tables = Ok t" "num_local_tables t = 2" "num_local_memories t = 0"
    "pointer_size t = 8" "vmctx_tables_begin t = 16"
    using two_tables_offsets by blast
  have alloc: "instance_allocator_new two_tables 8192 = Ok (t, [], [8208, 8224])"
    using two_tables_locations [OF t(2-5)] by (simp add: instance_allocator_new_def t(1))
  have mems: "create_memories example_os example_process two_tables [] [] = Ok ([], example_process)"
    by (simp add: create_memories_def local_locations_def)
  have tabs: "\<exists>ts. create_tables (\<lambda>n. 65536) example_process two_tables
      [CallerChecksSignature, CallerChecksSignature] [8208, 8224] = Ok ([2], pr_set_tables example_process ts)"
    by (simp add: create_tables_def two_tables_def local_locations_def pm_index_def pm_get_def nth_opt_def
        entity_new_def entity_index_def as_u32_def table_from_definition_def table_new_inner_def is_ref_type_def
        TABLE_MAX_SIZE_def ish_new_def usize_add_def usize_checked_add_def pr_tables_def example_process_def assert_that_def) blast
  then obtain ts where ts: "create_tables (\<lambda>n. 65536) example_process two_tables
      [CallerChecksSignature, CallerChecksSignature] [8208, 8224] = Ok ([2], pr_set_tables example_process ts)" ..
  obtain bs where bs: "builtins_initialized (\<lambda>_. 4096) = Ok bs"
    using builtins_table_correct [of "\<lambda>_. 4096"] by auto
  have globs: "create_globals (pr_set_tables example_process ts) two_tables = Ok ([], pr_set_tables example_process ts)"
    by (simp add: create_globals_def two_tables_def module_new_def pm_new_def)
  let ?ims = "imports_none\<lparr>im_tables := [\<lparr>tbi_definition = 1, tbi_handle = 1\<rparr>]\<rparr>"
  have refs: "build_funcrefs two_tables (pr_set_tables example_process ts) ?ims [] [] [] 8192 = (Ok ([], []) :: (_, unit) outcome)"
    by (simp add: build_funcrefs_def imports_none_def pm_iter_def pm_new_def)
  define self where "self = vminstance_fields 4096 t 8192 two_tables_artifact [] [2] [] [] ?ims [] [] bs"
  have art: "ar_module two_tables_artifact = two_tables" "ar_finished_functions two_tables_artifact = []"
    "ar_finished_function_call_trampolines two_tables_artifact = []"
    "ar_finished_dynamic_function_trampolines two_tables_artifact = []" "ar_signatures two_tables_artifact = []"
    "ar_memory_styles two_tables_artifact = []"
    "ar_table_styles two_tables_artifact = [CallerChecksSignature, CallerChecksSignature]"
    by (simp_all add: two_tables_artifact_def)
  have self: "in_module self = two_tables" "in_vmctx_ptr self = 8192" "in_offsets self = t" "in_passive_elements self = Map.empty"
    by (simp_all add: self_def vminstance_fields_def art)
  have pass: "initialize_passive_elements self = (Ok self :: (_, unit) outcome)"
    using self(4) by (simp add: initialize_passive_elements_def self(1) two_tables_def module_new_def)
  have inits: "initialize_globals q self = (Ok q :: (_, unit) outcome)" for q
    by (simp add: initialize_globals_def self(1) two_tables_def module_new_def pm_new_def pm_iter_def)
  have "vminstance_new (\<lambda>_. 4096) 4096 (pr_set_tables example_process ts) t 8192 two_tables_artifact [] [2] [] [] ?ims =
      Ok (self, pr_set_tables example_process ts)"
    by (simp add: vminstance_new_def art refs [simplified] bs self_def [simplified, symmetric] pass inits)
  then show ?thesis
    by (simp add: instantiate_def art two_tables_resolved [simplified] alloc mems ts globs unit_panic_def self t)
qed

theorem instantiate_table_slots_witness:
  "\<exists>inst p'. instantiate example_os (\<lambda>n. 65536) (\<lambda>_. 4096) 4096 8192 None example_process two_tables_artifact
      [XTable 1] = Ok (inst, p') \<and> length (in_tables inst) = 1 \<and>
      in_table p' inst 0 = (Panic :: (_, unit) outcome) \<and> table_slot p' 8224 \<noteq> None"
proof -
  obtain inst p' where i: "instantiate example_os (\<lambda>n. 65536) (\<lambda>_. 4096) 4096 8192 None example_process
      two_tables_artifact [XTable 1] = Ok (inst, p')" "in_vmctx_ptr inst = 8192" "vmctx_tables_begin (in_offsets inst) = 16"
    using two_tables_instantiated by blast
  have m: "mi_num_imported_tables (ar_module two_tables_artifact) = 1"
    "length (mi_tables (ar_module two_tables_artifact)) = 2"
    by (simp_all add: two_tables_artifact_def two_tables_def)
  have fresh: "\<forall>t \<in> set (pr_tables example_process). \<forall>k. \<not> owned_at (table_ptr inst k) (vt_definition t)"
    by (simp add: pr_tables_def example_process_def example_table_def)
  have ptr: "table_ptr inst 1 = 8224"
    by (simp add: table_ptr_def tables_ptr_def i SIZE_VMTableDefinition_def)
  from instantiate_table_slots [OF i(1) fresh m(1) [symmetric]] m(2) ptr i(1) show ?thesis
    by (auto simp: as_u32_def)
qed

section \<open>Import resolution\<close>

text \<open>
  The check that linking asks for, for one import: the provided extern exists, its type and size
  satisfy the declared type, and a table has the very element type.
\<close>

fun same_element :: "ExternType \<Rightarrow> ExternType \<Rightarrow> bool" where
  "same_element (ETable a) (ETable b) = (tt_ty a = tt_ty b)"
| "same_element _ _ = True"

definition import_problem ::
  "process \<Rightarrow> ModuleInfo \<Rightarrow> VMExtern list \<Rightarrow> ImportKey \<Rightarrow> ImportIndex \<Rightarrow> ImportError option" where
  "import_problem p module imports key index =
     (case get_extern_from_import module index :: (_, LinkError) outcome of
        Ok want \<Rightarrow>
          (case nth_opt imports (unat (ik_import_idx key)) of
             None \<Rightarrow> Some (UnknownImport want)
           | Some x \<Rightarrow>
               (case (get_extern_type p x, extern_runtime_size p x) :: (_, LinkError) outcome \<times> (_, LinkError) outcome of
                  (Ok ty, Ok rs) \<Rightarrow>
                    if is_compatible_with ty want rs \<and> same_element ty want then None
                    else Some (IncompatibleType want ty)
                | _ \<Rightarrow> None))
      | _ \<Rightarrow> None)"

definition same_types :: "process \<Rightarrow> process \<Rightarrow> bool" where
  "same_types p p' = (get_extern_type p' = (get_extern_type p :: _ \<Rightarrow> (_, LinkError) outcome) \<and>
     extern_runtime_size p' = (extern_runtime_size p :: _ \<Rightarrow> (_, LinkError) outcome))"

lemma import_problem_cong: "same_types p p' \<Longrightarrow> import_problem p' = import_problem p"
  by (intro ext) (simp only: import_problem_def same_types_def)

lemma same_types_trans: "same_types p p' \<Longrightarrow> same_types p' p'' \<Longrightarrow> same_types p p''"
  by (simp add: same_types_def)

lemma same_types_functions:
  assumes "ish_set (so_functions (pr_store p)) h f' = Ok fs"
    and "ish_get (so_functions (pr_store p)) h = (Ok f :: (_, 'e) outcome)" and "vf_signature f' = vf_signature f"
  shows "same_types p (p\<lparr>pr_store := (pr_store p)\<lparr>so_functions := fs\<rparr>\<rparr>)"
proof -
  let ?p = "p\<lparr>pr_store := (pr_store p)\<lparr>so_functions := fs\<rparr>\<rparr>"
  have st: "so_functions (pr_store ?p) = fs" "pr_tables ?p = pr_tables p" "pr_memories ?p = pr_memories p" "pr_globals ?p = pr_globals p"
    "so_tags (pr_store ?p) = so_tags (pr_store p)" "pr_cells ?p = pr_cells p"
    by (simp_all add: pr_tables_def pr_memories_def pr_globals_def)
  have fs: "fs = (so_functions (pr_store p))[h - 1 := f']" "f = so_functions (pr_store p) ! (h - 1)"
    "h - 1 < length (so_functions (pr_store p))"
    using assms(1,2) by (auto simp: ish_set_def ish_get_mut_def outcome_simps ish_valid_def)
  have "get_extern_type ?p x = (get_extern_type p x :: (_, LinkError) outcome)" for x
  proof (cases x)
    case (XFunction g)
    then show ?thesis
      using assms(3) fs by (auto simp: st ish_get_def nth_opt_def nth_list_update usize_sub_def)
  qed (simp_all only: get_extern_type.simps st)
  moreover have "extern_runtime_size ?p x = (extern_runtime_size p x :: (_, LinkError) outcome)" for x
    by (cases x) (simp_all only: extern_runtime_size.simps st)
  ultimately show ?thesis unfolding same_types_def fun_eq_iff by simp
qed

lemma push_import_types:
  assumes "push_import p module tr ms ims key index r = Ok (ims', p')"
  shows "same_types p p'"
proof -
  obtain x want ty where r: "r = (x, want, ty)" by (cases r)
  have refl: "same_types p p" by (simp add: same_types_def)
  show ?thesis
  proof (cases x)
    case (XFunction h)
    with assms obtain f where f: "ish_get (so_functions (pr_store p)) h = (Ok f :: (_, LinkError) outcome)"
      by (auto simp: push_import_def r bind_ok_eq_Ok)
    with assms XFunction show ?thesis
      by (cases "vf_kind f")
        (auto simp: push_import_def r bind_ok_eq_Ok intro!: same_types_functions [OF _ f])
  qed (use assms refl in \<open>auto simp: push_import_def r outcome_simps split: ImportIndex.splits if_splits\<close>)
qed

definition provided :: "VMExtern list \<Rightarrow> (ImportKey \<times> ImportIndex) list \<Rightarrow> VMExtern list" where
  "provided imports keys = map (\<lambda>(key, _). imports ! unat (ik_import_idx key)) keys"

definition import_handles :: "Imports \<Rightarrow> InternalStoreHandle list \<times> InternalStoreHandle list \<times>
    InternalStoreHandle list \<times> InternalStoreHandle list" where
  "import_handles ims = (map fi_handle (im_functions ims), map tbi_handle (im_tables ims),
     map mmi_handle (im_memories ims), map gbi_handle (im_globals ims))"

fun add_handle :: "InternalStoreHandle list \<times> InternalStoreHandle list \<times>
    InternalStoreHandle list \<times> InternalStoreHandle list \<Rightarrow> VMExtern \<Rightarrow> InternalStoreHandle list \<times> InternalStoreHandle list \<times>
    InternalStoreHandle list \<times> InternalStoreHandle list" where
  "add_handle (fs, ts, ms, gs) (XFunction h) = (fs @ [h], ts, ms, gs)"
| "add_handle (fs, ts, ms, gs) (XTable h) = (fs, ts @ [h], ms, gs)"
| "add_handle (fs, ts, ms, gs) (XMemory h) = (fs, ts, ms @ [h], gs)"
| "add_handle (fs, ts, ms, gs) (XGlobal h) = (fs, ts, ms, gs @ [h])"
| "add_handle (fs, ts, ms, gs) (XTag h) = (fs, ts, ms, gs)"

lemma push_import_handles:
  "push_import p module tr ms ims key index (x, want, ty) = Ok (ims', p') \<Longrightarrow>
     import_handles ims' = add_handle (import_handles ims) x"
  by (cases x)
    (auto simp: push_import_def outcome_simps import_handles_def split: ImportIndex.splits if_splits VMFunctionKind.splits)

lemma push_import_no_problem:
  assumes "resolve_import module imports p key index = Ok r" and "push_import p module tr ms ims key index r = Ok (ims', p')"
  shows "import_problem p module imports key index = None" and "fst r = imports ! unat (ik_import_idx key)"
proof -
  obtain x want ty where r: "r = (x, want, ty)" by (cases r)
  from assms(1) obtain rs where x: "nth_opt imports (unat (ik_import_idx key)) = Some x"
    "get_extern_from_import module index = (Ok want :: (_, LinkError) outcome)"
    "get_extern_type p x = (Ok ty :: (_, LinkError) outcome)" "extern_runtime_size p x = (Ok rs :: (_, LinkError) outcome)"
    "is_compatible_with ty want rs"
    by (auto simp: resolve_import_def r outcome_simps split: option.splits if_splits)
  then show "fst r = imports ! unat (ik_import_idx key)" by (auto simp: r nth_opt_def split: if_splits)
  have "same_element ty want"
  proof (cases x)
    case (XTable h)
    then show ?thesis using assms(2) x
      by (auto simp: push_import_def r outcome_simps split: ImportIndex.splits if_splits)
  next
    case (XMemory h)
    then show ?thesis using x by (auto simp: outcome_simps)
  qed (use x in \<open>auto simp: outcome_simps\<close>)
  with x show "import_problem p module imports key index = None" by (simp add: import_problem_def)
qed

lemma memory_reads_no_error:
  "vm_ty c m \<noteq> (Err e :: (_, 'e) outcome)" "vm_size c m \<noteq> (Err e :: (_, 'e) outcome)"
  by (cases m; auto simp: om_ty_def om_size_def shm_ty_def shm_size_def shm_read_def wm_get_size_def outcome_simps
      elim!: unwrap_res.elims)+

lemma extern_types_no_error:
  "get_extern_from_import module index \<noteq> (Err e :: (_, 'e) outcome)"
  "get_extern_type p x \<noteq> (Err e :: (_, 'e) outcome)"
  "extern_runtime_size p x \<noteq> (Err e :: (_, 'e) outcome)"
proof -
  show "get_extern_from_import module index \<noteq> Err e"
    by (cases index) (auto simp: outcome_simps pm_index_def)
  show "get_extern_type p x \<noteq> Err e" "extern_runtime_size p x \<noteq> Err e"
    by (cases x; auto simp: outcome_simps ish_get_def usize_sub_def memory_reads_no_error get_runtime_size_def)+
qed

lemma resolve_import_error:
  assumes "resolve_import module imports p key index = Err e"
  shows "\<exists>ie. import_problem p module imports key index = Some ie \<and> e = LinkImport (ik_module key) (ik_field key) ie"
  using assms
  by (auto simp: resolve_import_def import_problem_def outcome_simps extern_types_no_error
      split: option.splits if_splits)

lemma push_import_error:
  assumes "resolve_import module imports p key index = Ok r" and "push_import p module tr ms ims key index r = Err e"
  shows "\<exists>ie. import_problem p module imports key index = Some ie \<and> e = LinkImport (ik_module key) (ik_field key) ie"
proof -
  obtain x want ty where r: "r = (x, want, ty)" by (cases r)
  from assms(1) obtain rs where x: "nth_opt imports (unat (ik_import_idx key)) = Some x"
    "get_extern_from_import module index = (Ok want :: (_, LinkError) outcome)"
    "get_extern_type p x = (Ok ty :: (_, LinkError) outcome)" "extern_runtime_size p x = (Ok rs :: (_, LinkError) outcome)"
    by (auto simp: resolve_import_def r outcome_simps split: option.splits if_splits)
  show ?thesis
  proof (cases x)
    case (XTable h)
    then have "\<not> same_element ty want \<and> e = LinkImport (ik_module key) (ik_field key) (IncompatibleType want ty)"
      using assms(2) x
      by (cases index) (auto simp: push_import_def r outcome_simps ish_get_def usize_sub_def pm_index_def split: if_splits)
    with x show ?thesis by (simp add: import_problem_def)
  next
    case (XFunction h)
    have set: "ish_set fs h f \<noteq> Err e" for fs :: "VMFunction list" and f
      by (auto simp: ish_set_def ish_get_mut_def usize_sub_def outcome_simps)
    have get: "ish_get fs h \<noteq> Err e" for fs :: "VMFunction list"
      by (auto simp: ish_get_def usize_sub_def outcome_simps split: if_splits)
    show ?thesis
    proof (cases "ish_get (so_functions (pr_store p)) h :: (_, LinkError) outcome")
      case (Ok f)
      then show ?thesis using assms(2) XFunction set
        by (cases "vf_kind f")
          (auto simp: push_import_def r outcome_simps pm_index_def entity_new_def assert_that_def split: if_splits)
    qed (use assms(2) XFunction get in \<open>auto simp: push_import_def r outcome_simps\<close>)
  qed (use assms(2) in \<open>cases index; auto simp: push_import_def r outcome_simps ish_get_def usize_sub_def
         pm_index_def assert_that_def split: if_splits\<close>)+
qed

lemma resolve_imports_loop_cases:
  "case resolve_imports_loop p info externs tr ms ims keys of
     Ok (ims', p') \<Rightarrow>
       list_all (\<lambda>(key, index). import_problem p info externs key index = None) keys \<and>
       import_handles ims' = foldl add_handle (import_handles ims) (provided externs keys)
   | Err e \<Rightarrow>
       \<exists>before key index later ie. keys = before @ (key, index) # later \<and>
         list_all (\<lambda>(key, index). import_problem p info externs key index = None) before \<and>
         import_problem p info externs key index = Some ie \<and> e = LinkImport (ik_module key) (ik_field key) ie
   | Panic \<Rightarrow> True"
proof (induction keys arbitrary: p ims)
  case Nil
  then show ?case by (simp add: provided_def)
next
  case (Cons k keys)
  obtain key index where k: "k = (key, index)" by (cases k)
  show ?case
  proof (cases "resolve_import info externs p key index")
    case (Err e)
    from resolve_import_error [OF this] obtain ie where
      "import_problem p info externs key index = Some ie" "e = LinkImport (ik_module key) (ik_field key) ie" by auto
    with Err show ?thesis by (auto simp: k intro!: exI [of _ "[]"])
  next
    case (Ok r)
    show ?thesis
    proof (cases "push_import p info tr ms ims key index r")
      case (Err e)
      from push_import_error [OF Ok this] obtain ie where
        "import_problem p info externs key index = Some ie" "e = LinkImport (ik_module key) (ik_field key) ie" by auto
      with Err Ok show ?thesis by (auto simp: k intro!: exI [of _ "[]"])
    next
      case push: (Ok r')
      obtain ims' p' where r': "r' = (ims', p')" by (cases r')
      obtain x want ty where r: "r = (x, want, ty)" by (cases r)
      note none = push_import_no_problem [OF Ok push [unfolded r']]
      note cong = import_problem_cong [OF push_import_types [OF push [unfolded r']]]
      have h: "import_handles ims' = add_handle (import_handles ims) (externs ! unat (ik_import_idx key))"
        using push_import_handles push none(2) by (simp add: r r')
      show ?thesis
      proof (cases "resolve_imports_loop p' info externs tr ms ims' keys")
        case (Err e)
        with Cons.IH [of p' ims'] obtain before key' index' later ie where
          "keys = before @ (key', index') # later"
          "list_all (\<lambda>(key, index). import_problem p info externs key index = None) before"
          "import_problem p info externs key' index' = Some ie" "e = LinkImport (ik_module key') (ik_field key') ie"
          by (auto simp: cong)
        then show ?thesis using Err Ok push none(1)
          by (auto simp: k r' intro!: exI [of _ "(key, index) # before"])
      qed (use Cons.IH [of p' ims'] Ok push none(1) h in \<open>auto simp: k r' provided_def cong\<close>)
    qed (use Ok in \<open>simp add: k\<close>)
  qed (simp add: k)
qed

lemma import_handles_none: "import_handles imports_none = ([], [], [], [])"
  by (simp add: import_handles_def imports_none_def pm_new_def)

text \<open>
  C21: Import resolution. When it succeeds, every import except the tags has been given an extern
  whose type satisfies the declared one at its current size, and the four import tables hold the
  handles of the given externs of their kind, in the order of the module's imports. When it
  fails, the error names the first import that has a problem, and the problem: the extern is
  missing, or its type does not match.
\<close>

theorem resolve_imports_correct:
  "case resolve_imports p module imports trampolines memory_styles of
     Ok (ims, p') \<Rightarrow>
       list_all (\<lambda>(key, index). import_problem p module imports key index = None)
         (filter (\<lambda>(_, index). \<not> is_tag_import index) (mi_imports module)) \<and>
       import_handles ims = foldl add_handle ([], [], [], [])
         (provided imports (filter (\<lambda>(_, index). \<not> is_tag_import index) (mi_imports module)))
   | Err e \<Rightarrow>
       \<exists>before key index later ie.
         filter (\<lambda>(_, index). \<not> is_tag_import index) (mi_imports module) = before @ (key, index) # later \<and>
         list_all (\<lambda>(key, index). import_problem p module imports key index = None) before \<and>
         import_problem p module imports key index = Some ie \<and>
         e = LinkImport (ik_module key) (ik_field key) ie
   | Panic \<Rightarrow> True"
  using resolve_imports_loop_cases [where info = "module" and externs = "imports" and ims = imports_none and p = p and tr = trampolines and ms = memory_styles and
      keys = "filter (\<lambda>(_, index). \<not> is_tag_import index) (mi_imports module)"]
  unfolding resolve_imports_def import_handles_none .

text \<open>
  A memory that an instance defines satisfies what importing modules compiled with the same
  tunables assert of it, on every target but one: on 32-bit Windows the guard of a dynamic memory
  is larger than that of a static one, so that importing a static memory where the module
  declares an unbounded one stops at the assertion.
\<close>

lemma memory_styles_agree:
  assumes "maximum_compatible (mt_maximum a) (mt_maximum b)"
    and "\<forall>m. mt_maximum a = Some m \<longrightarrow> m \<le> WASM_MAX_PAGES"
    and "t = tunables_for_target windows width" and "\<not> (windows \<and> width = PtrU32)" and "width \<noteq> PtrU16"
  shows "memory_styles_ok (memory_style t a) (memory_style t b)"
  using assms by (cases width) (auto simp: memory_styles_ok_def memory_style_def tunables_for_target_def Let_def unwrap_or_def maximum_compatible_def pages_max_value_def WASM_MAX_PAGES_def split: option.splits if_splits)

lemma memory_styles_disagree:
  "\<not> memory_styles_ok (memory_style (tunables_for_target True PtrU32) \<lparr>mt_minimum = 1, mt_maximum = Some 2, mt_shared = False\<rparr>)
      (memory_style (tunables_for_target True PtrU32) \<lparr>mt_minimum = 1, mt_maximum = None, mt_shared = False\<rparr>)"
  by (simp add: memory_styles_ok_def memory_style_def tunables_for_target_def unwrap_or_def pages_max_value_def WASM_MAX_PAGES_def word_le_def)

end
