(* ===== verification/Libcalls.thy ===== *)
theory Libcalls
  imports Instantiation
begin

text \<open>
  The functions that compiled code calls, \<open>lib/vm/src/libcalls.rs\<close>. A trap that is raised out of
  a function is its error result; raw indices pass through the checked constructor of the index
  types. Each function is named after the source, with \<open>lib_\<close> for \<open>wasmer_vm_\<close>.
\<close>

section \<open>Memories\<close>

text \<open>Growing answers the largest number instead of an error.\<close>

definition or_max :: "process \<Rightarrow> (u32 \<times> process, 'e) outcome \<Rightarrow> (u32 \<times> process, unit) outcome" where
  "or_max p r = (case r of Ok x \<Rightarrow> Ok x | Err _ \<Rightarrow> Ok (u32_max, p) | Panic \<Rightarrow> Panic)"

definition lib_memory32_grow ::
  "os \<Rightarrow> process \<Rightarrow> VMInstance \<Rightarrow> u32 \<Rightarrow> u32 \<Rightarrow> (u32 \<times> process, unit) outcome" where
  "lib_memory32_grow os p self delta index =
     bind_ok (entity_from_u32 index) (\<lambda>mem_index. or_max p (in_memory_grow os p self mem_index delta))"

definition lib_imported_memory32_grow ::
  "os \<Rightarrow> process \<Rightarrow> VMInstance \<Rightarrow> u32 \<Rightarrow> u32 \<Rightarrow> (u32 \<times> process, unit) outcome" where
  "lib_imported_memory32_grow os p self delta index =
     bind_ok (entity_from_u32 index) (\<lambda>mem_index. or_max p (imported_memory_grow os p self mem_index delta))"

definition lib_memory32_size :: "process \<Rightarrow> VMInstance \<Rightarrow> u32 \<Rightarrow> (u32, unit) outcome" where
  "lib_memory32_size p self index = bind_ok (entity_from_u32 index) (in_memory_size p self)"

definition lib_imported_memory32_size :: "process \<Rightarrow> VMInstance \<Rightarrow> u32 \<Rightarrow> (u32, unit) outcome" where
  "lib_imported_memory32_size p self index =
     bind_ok (entity_from_u32 index) (imported_memory_size p self)"

definition lib_memory32_copy ::
  "process \<Rightarrow> VMInstance \<Rightarrow> u32 \<Rightarrow> u32 \<Rightarrow> u32 \<Rightarrow> u32 \<Rightarrow> (process, TrapCode) outcome" where
  "lib_memory32_copy p self index dst src len =
     bind_ok (entity_from_u32 index) (\<lambda>mem_index. local_memory_copy p self mem_index dst src len)"

definition lib_imported_memory32_copy ::
  "process \<Rightarrow> VMInstance \<Rightarrow> u32 \<Rightarrow> u32 \<Rightarrow> u32 \<Rightarrow> u32 \<Rightarrow> (process, TrapCode) outcome" where
  "lib_imported_memory32_copy p self index dst src len =
     bind_ok (entity_from_u32 index) (\<lambda>mem_index. imported_memory_copy p self mem_index dst src len)"

definition lib_memory32_fill ::
  "process \<Rightarrow> VMInstance \<Rightarrow> u32 \<Rightarrow> u32 \<Rightarrow> u32 \<Rightarrow> u32 \<Rightarrow> (process, TrapCode) outcome" where
  "lib_memory32_fill p self index dst val len =
     bind_ok (entity_from_u32 index) (\<lambda>mem_index. local_memory_fill p self mem_index dst val len)"

definition lib_imported_memory32_fill ::
  "process \<Rightarrow> VMInstance \<Rightarrow> u32 \<Rightarrow> u32 \<Rightarrow> u32 \<Rightarrow> u32 \<Rightarrow> (process, TrapCode) outcome" where
  "lib_imported_memory32_fill p self index dst val len =
     bind_ok (entity_from_u32 index) (\<lambda>mem_index. imported_memory_fill p self mem_index dst val len)"

definition lib_memory32_init ::
  "process \<Rightarrow> VMInstance \<Rightarrow> u32 \<Rightarrow> u32 \<Rightarrow> u32 \<Rightarrow> u32 \<Rightarrow> u32 \<Rightarrow> (process, TrapCode) outcome" where
  "lib_memory32_init p self index data dst src len =
     bind_ok (entity_from_u32 index) (\<lambda>mem_index.
     bind_ok (entity_from_u32 data) (\<lambda>data_index.
       memory_init p self mem_index data_index dst src len))"

definition lib_data_drop :: "VMInstance \<Rightarrow> u32 \<Rightarrow> (VMInstance, unit) outcome" where
  "lib_data_drop self data = bind_ok (entity_from_u32 data) (\<lambda>data_index. Ok (data_drop self data_index))"

definition lib_memory32_atomic_wait32 ::
  "wait_fn \<Rightarrow> process \<Rightarrow> VMInstance \<Rightarrow> u32 \<Rightarrow> u32 \<Rightarrow> u32 \<Rightarrow> i64 \<Rightarrow> (u32, TrapCode) outcome" where
  "lib_memory32_atomic_wait32 do_wait p self index dst val timeout =
     bind_ok (entity_from_u32 index) (\<lambda>mem_index.
       local_memory_wait32 do_wait p self mem_index dst val timeout)"

definition lib_imported_memory32_atomic_wait32 ::
  "wait_fn \<Rightarrow> process \<Rightarrow> VMInstance \<Rightarrow> u32 \<Rightarrow> u32 \<Rightarrow> u32 \<Rightarrow> i64 \<Rightarrow> (u32, TrapCode) outcome" where
  "lib_imported_memory32_atomic_wait32 do_wait p self index dst val timeout =
     bind_ok (entity_from_u32 index) (\<lambda>mem_index.
       imported_memory_wait32 do_wait p self mem_index dst val timeout)"

definition lib_memory32_atomic_wait64 ::
  "wait_fn \<Rightarrow> process \<Rightarrow> VMInstance \<Rightarrow> u32 \<Rightarrow> u32 \<Rightarrow> u64 \<Rightarrow> i64 \<Rightarrow> (u32, TrapCode) outcome" where
  "lib_memory32_atomic_wait64 do_wait p self index dst val timeout =
     bind_ok (entity_from_u32 index) (\<lambda>mem_index.
       local_memory_wait64 do_wait p self mem_index dst val timeout)"

definition lib_imported_memory32_atomic_wait64 ::
  "wait_fn \<Rightarrow> process \<Rightarrow> VMInstance \<Rightarrow> u32 \<Rightarrow> u32 \<Rightarrow> u64 \<Rightarrow> i64 \<Rightarrow> (u32, TrapCode) outcome" where
  "lib_imported_memory32_atomic_wait64 do_wait p self index dst val timeout =
     bind_ok (entity_from_u32 index) (\<lambda>mem_index.
       imported_memory_wait64 do_wait p self mem_index dst val timeout)"

definition lib_memory32_atomic_notify ::
  "(nat \<Rightarrow> u32 \<Rightarrow> u32 \<Rightarrow> u32) \<Rightarrow> process \<Rightarrow> VMInstance \<Rightarrow> u32 \<Rightarrow> u32 \<Rightarrow> u32 \<Rightarrow> (u32, TrapCode) outcome" where
  "lib_memory32_atomic_notify do_notify p self index dst cnt =
     bind_ok (entity_from_u32 index) (\<lambda>mem_index.
       local_memory_notify do_notify p self mem_index dst cnt)"

definition lib_imported_memory32_atomic_notify ::
  "(nat \<Rightarrow> u32 \<Rightarrow> u32 \<Rightarrow> u32) \<Rightarrow> process \<Rightarrow> VMInstance \<Rightarrow> u32 \<Rightarrow> u32 \<Rightarrow> u32 \<Rightarrow> (u32, TrapCode) outcome" where
  "lib_imported_memory32_atomic_notify do_notify p self index dst cnt =
     bind_ok (entity_from_u32 index) (\<lambda>mem_index.
       imported_memory_notify do_notify p self mem_index dst cnt)"

section \<open>Tables\<close>

text \<open>The element that a raw value stands for is given by the type of the table.\<close>

definition element_of_raw :: "wtype \<Rightarrow> RawTableElement \<Rightarrow> (TableElement, 'e) outcome" where
  "element_of_raw ty raw =
     (case ty of
        ExternRef \<Rightarrow> Ok (ElExternRef (ref_of_raw raw))
      | FuncRef \<Rightarrow> Ok (ElFuncRef (ref_of_raw raw))
      | _ \<Rightarrow> Panic)"

definition element_for ::
  "process \<Rightarrow> InternalStoreHandle \<Rightarrow> RawTableElement \<Rightarrow> (TableElement, 'e) outcome" where
  "element_for p h raw = bind_ok (ish_get (pr_tables p) h) (\<lambda>t. element_of_raw (tt_ty (vt_table t)) raw)"

text \<open>
  \<open>table.copy\<close>. Two indices can name the same table, when it is imported twice; the loop of
  \<open>copy\<close> then reads and writes one vector.
\<close>

definition lib_table_copy ::
  "process \<Rightarrow> VMInstance \<Rightarrow> u32 \<Rightarrow> u32 \<Rightarrow> u32 \<Rightarrow> u32 \<Rightarrow> u32 \<Rightarrow> (process, TrapCode) outcome" where
  "lib_table_copy p self dst_table src_table dst src len =
     bind_ok (entity_from_u32 dst_table) (\<lambda>dst_index.
     bind_ok (entity_from_u32 src_table) (\<lambda>src_index.
       if dst_index = src_index
       then bind_ok (get_table_handle self dst_index) (\<lambda>h.
              on_table_unit p h (\<lambda>t. table_copy_within t dst src len))
       else bind_ok (get_table_handle self dst_index) (\<lambda>h.
            bind_ok (get_table_handle self src_index) (\<lambda>g.
              if g = h then on_table_unit p h (\<lambda>t. table_copy_within t dst src len)
              else bind_ok (ish_get (pr_tables p) g) (\<lambda>s.
                     on_table_unit p h (\<lambda>t. table_copy t s dst src len))))))"

definition lib_table_init ::
  "process \<Rightarrow> VMInstance \<Rightarrow> u32 \<Rightarrow> u32 \<Rightarrow> u32 \<Rightarrow> u32 \<Rightarrow> u32 \<Rightarrow> (process, TrapCode) outcome" where
  "lib_table_init p self index elem dst src len =
     bind_ok (entity_from_u32 index) (\<lambda>tab_index.
     bind_ok (entity_from_u32 elem) (\<lambda>elem_index.
       table_init p self tab_index elem_index dst src len))"

definition lib_table_fill ::
  "process \<Rightarrow> VMInstance \<Rightarrow> u32 \<Rightarrow> u32 \<Rightarrow> RawTableElement \<Rightarrow> u32 \<Rightarrow> (process, TrapCode) outcome" where
  "lib_table_fill p self index start_idx item len =
     bind_ok (entity_from_u32 index) (\<lambda>tab_index.
     bind_ok (get_table_handle self tab_index) (\<lambda>h.
     bind_ok (element_for p h item) (\<lambda>elem.
       table_fill p self tab_index start_idx elem len)))"

definition lib_table_size :: "process \<Rightarrow> VMInstance \<Rightarrow> u32 \<Rightarrow> (u32, unit) outcome" where
  "lib_table_size p self index = bind_ok (entity_from_u32 index) (in_table_size p self)"

definition lib_imported_table_size :: "process \<Rightarrow> VMInstance \<Rightarrow> u32 \<Rightarrow> (u32, unit) outcome" where
  "lib_imported_table_size p self index = bind_ok (entity_from_u32 index) (imported_table_size p self)"

definition raw_or_trap :: "TableElement option \<Rightarrow> (RawTableElement, TrapCode) outcome" where
  "raw_or_trap r = (case r of Some e \<Rightarrow> Ok (raw_from_element e) | None \<Rightarrow> Err TableAccessOutOfBounds)"

definition lib_table_get ::
  "process \<Rightarrow> VMInstance \<Rightarrow> u32 \<Rightarrow> u32 \<Rightarrow> (RawTableElement, TrapCode) outcome" where
  "lib_table_get p self index elem_index =
     bind_ok (entity_from_u32 index) (\<lambda>tab_index.
     bind_ok (in_table_get p self tab_index elem_index) raw_or_trap)"

definition lib_imported_table_get ::
  "process \<Rightarrow> VMInstance \<Rightarrow> u32 \<Rightarrow> u32 \<Rightarrow> (RawTableElement, TrapCode) outcome" where
  "lib_imported_table_get p self index elem_index =
     bind_ok (entity_from_u32 index) (\<lambda>tab_index.
     bind_ok (imported_table_get p self tab_index elem_index) raw_or_trap)"

definition lib_table_set ::
  "process \<Rightarrow> VMInstance \<Rightarrow> u32 \<Rightarrow> u32 \<Rightarrow> RawTableElement \<Rightarrow> (process, TrapCode) outcome" where
  "lib_table_set p self index elem_index value =
     bind_ok (entity_from_u32 index) (\<lambda>tab_index.
     bind_ok (local_table_index (in_module self) tab_index) (\<lambda>l.
     bind_ok (unwrap l) (\<lambda>local_index.
     bind_ok (local_table_handle self local_index) (\<lambda>h.
     bind_ok (element_for p h value) (\<lambda>elem.
       in_table_set p self local_index elem_index elem)))))"

definition lib_imported_table_set ::
  "process \<Rightarrow> VMInstance \<Rightarrow> u32 \<Rightarrow> u32 \<Rightarrow> RawTableElement \<Rightarrow> (process, TrapCode) outcome" where
  "lib_imported_table_set p self index elem_index value =
     bind_ok (entity_from_u32 index) (\<lambda>tab_index.
     bind_ok (get_table_handle self tab_index) (\<lambda>h.
     bind_ok (element_for p h value) (\<lambda>elem.
       imported_table_set p self tab_index elem_index elem)))"

definition none_is_max :: "u32 option \<times> process \<Rightarrow> u32 \<times> process" where
  "none_is_max = (\<lambda>(r, p). (case r of None \<Rightarrow> u32_max | Some n \<Rightarrow> n, p))"

definition lib_table_grow ::
  "(nat \<Rightarrow> usize) \<Rightarrow> process \<Rightarrow> VMInstance \<Rightarrow> RawTableElement \<Rightarrow> u32 \<Rightarrow> u32 \<Rightarrow>
     (u32 \<times> process, unit) outcome" where
  "lib_table_grow alloc p self init_value delta index =
     bind_ok (entity_from_u32 index) (\<lambda>tab_index.
     bind_ok (local_table_handle self tab_index) (\<lambda>h.
     bind_ok (element_for p h init_value) (\<lambda>elem.
     bind_ok (in_table_grow alloc p self tab_index delta elem) (\<lambda>r. Ok (none_is_max r)))))"

definition lib_imported_table_grow ::
  "(nat \<Rightarrow> usize) \<Rightarrow> process \<Rightarrow> VMInstance \<Rightarrow> RawTableElement \<Rightarrow> u32 \<Rightarrow> u32 \<Rightarrow>
     (u32 \<times> process, unit) outcome" where
  "lib_imported_table_grow alloc p self init_value delta index =
     bind_ok (entity_from_u32 index) (\<lambda>tab_index.
     bind_ok (get_table_handle self tab_index) (\<lambda>h.
     bind_ok (element_for p h init_value) (\<lambda>elem.
     bind_ok (imported_table_grow alloc p self tab_index delta elem) (\<lambda>r. Ok (none_is_max r)))))"

definition lib_func_ref :: "VMInstance \<Rightarrow> u32 \<Rightarrow> (usize, unit) outcome" where
  "lib_func_ref self function_index =
     bind_ok (entity_from_u32 function_index) (\<lambda>f. bind_ok (func_ref self f) unwrap)"

definition lib_elem_drop :: "VMInstance \<Rightarrow> u32 \<Rightarrow> (VMInstance, unit) outcome" where
  "lib_elem_drop self elem = bind_ok (entity_from_u32 elem) (\<lambda>elem_index. Ok (elem_drop self elem_index))"

end
