(* ===== verification/Middleware.thy ===== *)
theory Middleware
  imports Libcalls
begin

text \<open>
  The chain of middlewares between the parser and a compiler
  (\<open>lib/compiler/src/translator/middleware.rs\<close>): a reader with a queue of pending operators, stages
  that consume an operator and produce any number of them, and the application of module middlewares
  to a module description. The parser is given by the operators it delivers. The main result is that
  reading operator by operator delivers what the stages produce when each is run over the whole
  output of the one before.
\<close>

section \<open>The reader\<close>

datatype read_error = ReadError string | StageError string

text \<open>
  A function middleware is a state, with \<open>feed\<close> for the method of its trait: it consumes an operator
  and appends operators to the output. The bytes behind the reader are given by the operators
  that the parser delivers; reading past the last one is an error of the parser.
\<close>

type_synonym ('s, 'o) feed_fn = "'s \<Rightarrow> 'o \<Rightarrow> ('o list \<times> 's, read_error) outcome"

record ('s, 'o) MiddlewareBinaryReader =
  rd_operators :: "'o list"
  rd_pending :: "'o list"
  rd_chain :: "'s list"

definition reader_new :: "'o list \<Rightarrow> ('s, 'o) MiddlewareBinaryReader" where
  "reader_new operators = \<lparr>rd_operators = operators, rd_pending = [], rd_chain = []\<rparr>"

definition set_middleware_chain ::
  "('s, 'o) MiddlewareBinaryReader \<Rightarrow> 's list \<Rightarrow> ('s, 'o) MiddlewareBinaryReader" where
  "set_middleware_chain self stages = self\<lparr>rd_chain := stages\<rparr>"

definition eof_error :: read_error where
  "eof_error = ReadError ''unexpected end''"

definition default_feed :: "'s \<Rightarrow> 'o \<Rightarrow> ('o list \<times> 's, read_error) outcome" where
  "default_feed self operator = Ok ([operator], self)"

fun feed_all :: "('s, 'o) feed_fn \<Rightarrow> 's \<Rightarrow> 'o list \<Rightarrow> ('o list \<times> 's, read_error) outcome" where
  "feed_all feed stage [] = Ok ([], stage)"
| "feed_all feed stage (pending_op # pending) =
     bind_ok (feed stage pending_op) (\<lambda>(out, stage').
     bind_ok (feed_all feed stage' pending) (\<lambda>(outs, stage''). Ok (out @ outs, stage'')))"

fun run_chain :: "('s, 'o) feed_fn \<Rightarrow> 's list \<Rightarrow> 'o list \<Rightarrow> ('o list \<times> 's list, read_error) outcome" where
  "run_chain feed [] pending = Ok (pending, [])"
| "run_chain feed (stage # chain) pending =
     bind_ok (feed_all feed stage pending) (\<lambda>(out, stage').
     bind_ok (run_chain feed chain out) (\<lambda>(out', chain'). Ok (out', stage' # chain')))"

text \<open>The loop that reads until the pending queue is not empty.\<close>

fun fill_pending ::
  "('s, 'o) feed_fn \<Rightarrow> 's list \<Rightarrow> 'o list \<Rightarrow> ('o list \<times> 's list \<times> 'o list, read_error) outcome" where
  "fill_pending feed chain [] = Err eof_error"
| "fill_pending feed chain (raw_op # raw) =
     bind_ok (run_chain feed chain [raw_op]) (\<lambda>(pending, chain').
       if pending = [] then fill_pending feed chain' raw else Ok (pending, chain', raw))"

definition read_operator ::
  "('s, 'o) feed_fn \<Rightarrow> ('s, 'o) MiddlewareBinaryReader \<Rightarrow>
     ('o \<times> ('s, 'o) MiddlewareBinaryReader, read_error) outcome" where
  "read_operator feed self =
     (if rd_chain self = [] then
        (case rd_operators self of
           [] \<Rightarrow> Err eof_error
         | op # ops \<Rightarrow> Ok (op, self\<lparr>rd_operators := ops\<rparr>))
      else
        bind_ok (if rd_pending self = [] then fill_pending feed (rd_chain self) (rd_operators self)
                 else Ok (rd_pending self, rd_chain self, rd_operators self)) (\<lambda>(pending, chain, raw).
          case pending of
            [] \<Rightarrow> Panic
          | op # rest \<Rightarrow> Ok (op, \<lparr>rd_operators = raw, rd_pending = rest, rd_chain = chain\<rparr>)))"

section \<open>The module chain\<close>

definition generate_function_middleware_chain ::
  "('m \<Rightarrow> LocalFunctionIndex \<Rightarrow> 's) \<Rightarrow> 'm list \<Rightarrow> LocalFunctionIndex \<Rightarrow> 's list" where
  "generate_function_middleware_chain generate self local_function_index =
     map (\<lambda>x. generate x local_function_index) self"

fun apply_on_module_info ::
  "('m \<Rightarrow> 'i \<Rightarrow> ('m \<times> 'i, 'e) outcome) \<Rightarrow> 'm list \<Rightarrow> 'i \<Rightarrow> ('m list \<times> 'i, 'e) outcome" where
  "apply_on_module_info transform [] module_info = Ok ([], module_info)"
| "apply_on_module_info transform (item # items) module_info =
     bind_ok (transform item module_info) (\<lambda>(item', module_info').
     bind_ok (apply_on_module_info transform items module_info') (\<lambda>(items', result).
       Ok (item' # items', result)))"

section \<open>Facts\<close>

lemma feed_all_append:
  "feed_all feed stage (xs @ ys) =
     bind_ok (feed_all feed stage xs) (\<lambda>(out, stage').
     bind_ok (feed_all feed stage' ys) (\<lambda>(out', stage''). Ok (out @ out', stage'')))"
proof (induction xs arbitrary: stage)
  case Nil
  show ?case by (cases "feed_all feed stage ys") (auto split: prod.splits)
next
  case (Cons x xs)
  show ?case
  proof (cases "feed stage x")
    case (Ok r)
    obtain out s1 where r: "r = (out, s1)" by (cases r)
    show ?thesis
    proof (cases "feed_all feed s1 xs")
      case ok: (Ok r1)
      obtain out1 s2 where "r1 = (out1, s2)" by (cases r1)
      then show ?thesis using Ok ok r Cons.IH [of s1]
        by (cases "feed_all feed s2 ys") (auto split: prod.splits)
    qed (use Ok r Cons.IH [of s1] in \<open>simp_all\<close>)
  qed simp_all
qed

lemma run_chain_append:
  assumes "run_chain feed chain (xs @ ys) = Ok (out, chain')"
  shows "\<exists>out1 chain1 out2. run_chain feed chain xs = Ok (out1, chain1) \<and>
    run_chain feed chain1 ys = Ok (out2, chain') \<and> out = out1 @ out2"
  using assms
proof (induction chain arbitrary: xs ys out chain')
  case (Cons stage chain)
  then show ?case
    by (fastforce simp: outcome_simps feed_all_append)
qed simp

lemma run_chain_nonempty: "run_chain feed chain xs = Ok (out, chain') \<Longrightarrow> length chain' = length chain"
  by (induction chain arbitrary: xs out chain') (auto simp: outcome_simps)

lemma run_chain_Nil: "run_chain feed chain [] = Ok ([], chain)"
  by (induction chain) simp_all

lemma fill_pending_run:
  assumes "run_chain feed chain raw = Ok (out, chain')"
  shows "if out = [] then fill_pending feed chain raw = Err eof_error
    else \<exists>pending chain1 raw1 out1. fill_pending feed chain raw = Ok (pending, chain1, raw1) \<and> pending \<noteq> [] \<and>
      run_chain feed chain1 raw1 = Ok (out1, chain') \<and> out = pending @ out1 \<and> length chain1 = length chain"
  using assms
proof (induction raw arbitrary: chain out)
  case Nil
  then show ?case by (simp add: run_chain_Nil)
next
  case (Cons op raw)
  from run_chain_append [of feed chain "[op]" raw out chain'] Cons.prems obtain p chain1 out1 where
    one: "run_chain feed chain [op] = Ok (p, chain1)" "run_chain feed chain1 raw = Ok (out1, chain')" "out = p @ out1"
    by auto
  have len: "length chain1 = length chain" by (rule run_chain_nonempty [OF one(1)])
  show ?case
  proof (cases "p = []")
    case True
    with Cons.IH [OF one(2)] one len show ?thesis by (auto split: if_splits)
  next
    case False
    with one len show ?thesis by auto
  qed
qed

fun read_many ::
  "('s, 'o) feed_fn \<Rightarrow> nat \<Rightarrow> ('s, 'o) MiddlewareBinaryReader \<Rightarrow>
     ('o list \<times> ('s, 'o) MiddlewareBinaryReader, read_error) outcome" where
  "read_many feed 0 rd = Ok ([], rd)"
| "read_many feed (Suc n) rd =
     bind_ok (read_operator feed rd) (\<lambda>(op, rd').
     bind_ok (read_many feed n rd') (\<lambda>(ops, rd''). Ok (op # ops, rd'')))"

lemma read_many_stream:
  assumes "run_chain feed (rd_chain rd) (rd_operators rd) = Ok (out, chain')" and "rd_chain rd \<noteq> []"
  shows "\<exists>rd'. read_many feed (length (rd_pending rd @ out)) rd = Ok (rd_pending rd @ out, rd') \<and>
    read_operator feed rd' = Err eof_error"
  using assms
proof (induction "length (rd_pending rd @ out)" arbitrary: rd out)
  case 0
  then show ?case
    using fill_pending_run [OF 0(2)] by (simp add: read_operator_def)
next
  case (Suc n)
  show ?case
  proof (cases "rd_pending rd")
    case Nil
    then have "out \<noteq> []" using Suc.hyps(2) by auto
    with fill_pending_run [OF Suc.prems(1)] obtain pending chain1 raw1 out1 where
      fill: "fill_pending feed (rd_chain rd) (rd_operators rd) = Ok (pending, chain1, raw1)" "pending \<noteq> []"
      "run_chain feed chain1 raw1 = Ok (out1, chain')" "out = pending @ out1" "length chain1 = length (rd_chain rd)"
      by auto
    then obtain op rest where p: "pending = op # rest" by (cases pending) auto
    let ?rd = "\<lparr>rd_operators = raw1, rd_pending = rest, rd_chain = chain1\<rparr>"
    have "chain1 \<noteq> []" using fill(5) Suc.prems(2) by auto
    then obtain rd' where "read_many feed n ?rd = Ok (rest @ out1, rd')" "read_operator feed rd' = Err eof_error"
      using Suc.hyps(1) [of ?rd out1] fill Suc.hyps(2) Nil p by auto
    then show ?thesis
      using Suc.hyps(2) Suc.prems(2) Nil fill(1,4) p by (auto simp: read_operator_def)
  next
    case (Cons op rest)
    let ?rd = "\<lparr>rd_operators = rd_operators rd, rd_pending = rest, rd_chain = rd_chain rd\<rparr>"
    obtain rd' where "read_many feed n ?rd = Ok (rest @ out, rd')" "read_operator feed rd' = Err eof_error"
      using Suc.hyps(1) [of ?rd out] Suc.prems Suc.hyps(2) Cons by auto
    then show ?thesis using Suc.hyps(2) Suc.prems(2) Cons by (auto simp: read_operator_def)
  qed
qed

section \<open>Property\<close>

text \<open>
  C27: What a compiler reads through a chain of middlewares. If feeding all operators of a function
  through the stages, one stage after the other, succeeds with some output, then reading operator
  by operator delivers exactly this output and then the error of the parser at the end: no
  operator is lost, doubled or reordered by the queue, also when a stage swallows operators.
\<close>

theorem middleware_stream:
  assumes "run_chain feed stages operators = Ok (out, stages')" and "stages \<noteq> []"
  shows "\<exists>rd. read_many feed (length out) (set_middleware_chain (reader_new operators) stages) = Ok (out, rd) \<and>
    read_operator feed rd = Err eof_error"
  using read_many_stream [of feed "set_middleware_chain (reader_new operators) stages" out stages'] assms
  by (simp add: set_middleware_chain_def reader_new_def)

text \<open>A stage that doubles every operator, followed by one that swallows the first it sees.\<close>

fun example_feed :: "nat \<Rightarrow> nat \<Rightarrow> (nat list \<times> nat, read_error) outcome" where
  "example_feed s op = (if s = 0 then Ok ([], 1) else Ok (replicate s op, s))"

theorem middleware_stream_witness:
  "\<exists>rd. read_many example_feed 3 (set_middleware_chain (reader_new [5, 6]) [2, 0]) = Ok ([5, 6, 6], rd) \<and>
    read_operator example_feed rd = Err eof_error"
  using middleware_stream [of example_feed "[2, 0]" "[5, 6]" "[5, 6, 6]" "[2, 1]"]
  by (simp add: numeral_2_eq_2 numeral_3_eq_3)

end
