(* ===== verification/Metering.thy ===== *)
theory Metering
  imports Middleware
begin

text \<open>
  The metering middleware (\<open>lib/middlewares/src/metering.rs\<close>): the globals it adds to a module, the
  checks it emits in front of accounting operators, and the functions by which a host reads and sets
  the points of an instance, with \<open>Global::set\<close> of \<open>lib/api/src/backend/sys/entities/global.rs\<close>.

  The results rest on a semantics of structured control (blocks, loops, branches, calls and
  exceptions of the current proposal; the legacy \<open>try\<close> is outside of it) and of the emitted operators. The locale \<open>accounted_control\<close> states
  what the middleware needs of control: jumps start at accounting operators and arrive behind them.
\<close>

section \<open>Operators\<close>

text \<open>
  The operators that the middleware names or emits, and the brackets and branches of structured
  control. The type of operators belongs to the parser; \<open>OpOther\<close> stands for all operators
  without influence on control.
\<close>

datatype 'o Operator =
    OpBlock | OpLoop | OpIf | OpElse | OpEnd | OpTryTable | OpDelegate | OpCatch
  | OpBr nat | OpBrIf nat | OpBrTable "nat list" nat
  | OpBrOnCast nat | OpBrOnCastFail nat | OpBrOnNull nat | OpBrOnNonNull nat
  | OpReturn | OpCall u32 | OpCallIndirect | OpCallRef
  | OpReturnCall u32 | OpReturnCallIndirect | OpReturnCallRef
  | OpThrow u32 | OpThrowRef | OpRethrow nat
  | OpUnreachable
  | OpGlobalGet u32 | OpGlobalSet u32 | OpI32Const i32 | OpI64Const i64 | OpI64LtU | OpI64Sub
  | OpOther 'o

section \<open>The middleware\<close>

record MeteringGlobalIndexes =
  mg_remaining_points :: GlobalIndex
  mg_points_exhausted :: GlobalIndex

record 'o Metering =
  me_initial_limit :: u64
  me_cost_function :: "'o Operator \<Rightarrow> u64"
  me_global_indexes :: "MeteringGlobalIndexes option"

record 'o FunctionMetering =
  fm_cost_function :: "'o Operator \<Rightarrow> u64"
  fm_global_indexes :: MeteringGlobalIndexes
  fm_accumulated_cost :: u64

datatype MeteringPoints = Remaining u64 | Exhausted

definition metering_new :: "u64 \<Rightarrow> ('o Operator \<Rightarrow> u64) \<Rightarrow> 'o Metering" where
  "metering_new initial_limit cost_function =
     \<lparr>me_initial_limit = initial_limit, me_cost_function = cost_function, me_global_indexes = None\<rparr>"

definition generate_function_middleware ::
  "'o Metering \<Rightarrow> LocalFunctionIndex \<Rightarrow> ('o FunctionMetering, 'e) outcome" where
  "generate_function_middleware self index =
     bind_ok (unwrap (me_global_indexes self)) (\<lambda>indexes.
       Ok \<lparr>fm_cost_function = me_cost_function self, fm_global_indexes = indexes, fm_accumulated_cost = 0\<rparr>)"

definition add_metering_global ::
  "ModuleInfo \<Rightarrow> wtype \<Rightarrow> GlobalInit \<Rightarrow> string \<Rightarrow> (GlobalIndex \<times> ModuleInfo, 'e) outcome" where
  "add_metering_global module_info ty init name =
     bind_ok (pm_push (mi_globals module_info) \<lparr>gt_ty = ty, gt_mutability = Var\<rparr>) (\<lambda>(index, globals).
     bind_ok (pm_push (mi_global_initializers module_info) init) (\<lambda>(_, inits).
       Ok (index, module_info\<lparr>mi_globals := globals, mi_global_initializers := inits,
         mi_exports := indexmap_insert (mi_exports module_info) name (ExGlobal index)\<rparr>)))"

definition transform_module_info ::
  "'o Metering \<Rightarrow> ModuleInfo \<Rightarrow> ('o Metering \<times> ModuleInfo, 'e) outcome" where
  "transform_module_info self module_info =
     bind_ok (assert_that (me_global_indexes self = None)) (\<lambda>_.
     bind_ok (add_metering_global module_info I64 (GI_I64Const (me_initial_limit self))
        ''wasmer_metering_remaining_points'') (\<lambda>(remaining, info1).
     bind_ok (add_metering_global info1 I32 (GI_I32Const 0)
        ''wasmer_metering_points_exhausted'') (\<lambda>(exhausted, info2).
       Ok (self\<lparr>me_global_indexes := Some \<lparr>mg_remaining_points = remaining,
             mg_points_exhausted = exhausted\<rparr>\<rparr>, info2))))"

fun is_accounting :: "'o Operator \<Rightarrow> bool" where
  "is_accounting OpLoop = True"
| "is_accounting OpEnd = True"
| "is_accounting OpIf = True"
| "is_accounting OpElse = True"
| "is_accounting (OpBr _) = True"
| "is_accounting (OpBrTable _ _) = True"
| "is_accounting (OpBrIf _) = True"
| "is_accounting (OpCall _) = True"
| "is_accounting OpCallIndirect = True"
| "is_accounting OpReturn = True"
| "is_accounting (OpThrow _) = True"
| "is_accounting OpThrowRef = True"
| "is_accounting (OpRethrow _) = True"
| "is_accounting OpDelegate = True"
| "is_accounting OpCatch = True"
| "is_accounting (OpReturnCall _) = True"
| "is_accounting OpReturnCallIndirect = True"
| "is_accounting (OpBrOnCast _) = True"
| "is_accounting (OpBrOnCastFail _) = True"
| "is_accounting OpCallRef = True"
| "is_accounting OpReturnCallRef = True"
| "is_accounting (OpBrOnNull _) = True"
| "is_accounting (OpBrOnNonNull _) = True"
| "is_accounting _ = False"

definition metering_check :: "MeteringGlobalIndexes \<Rightarrow> u64 \<Rightarrow> 'o Operator list" where
  "metering_check indexes cost =
     [OpGlobalGet (mg_remaining_points indexes), OpI64Const cost, OpI64LtU, OpIf,
        OpI32Const 1, OpGlobalSet (mg_points_exhausted indexes), OpUnreachable, OpEnd,
      OpGlobalGet (mg_remaining_points indexes), OpI64Const cost, OpI64Sub,
        OpGlobalSet (mg_remaining_points indexes)]"

text \<open>The sum of costs is checked, as in a build with overflow checks.\<close>

definition metering_feed ::
  "'o FunctionMetering \<Rightarrow> 'o Operator \<Rightarrow> ('o Operator list \<times> 'o FunctionMetering, read_error) outcome" where
  "metering_feed self operator =
     bind_ok (unwrap (checked_add (fm_accumulated_cost self) (fm_cost_function self operator))) (\<lambda>accumulated.
       if is_accounting operator \<and> 0 < accumulated
       then Ok (metering_check (fm_global_indexes self) accumulated @ [operator],
              self\<lparr>fm_accumulated_cost := 0\<rparr>)
       else Ok ([operator], self\<lparr>fm_accumulated_cost := accumulated\<rparr>))"

section \<open>Reading and setting the points of an instance\<close>

definition exported_global ::
  "process \<Rightarrow> VMInstance \<Rightarrow> string \<Rightarrow> (InternalStoreHandle \<times> VMGlobal, 'e) outcome" where
  "exported_global p self name =
     bind_ok (vm_lookup p self name) (\<lambda>r. bind_ok (unwrap r) (\<lambda>(x, _).
       case x of
         XGlobal h \<Rightarrow> bind_ok (ish_get (pr_globals p) h) (\<lambda>g. Ok (h, g))
       | _ \<Rightarrow> Panic))"

definition get_remaining_points :: "process \<Rightarrow> VMInstance \<Rightarrow> (MeteringPoints, 'e) outcome" where
  "get_remaining_points p self =
     bind_ok (exported_global p self ''wasmer_metering_points_exhausted'') (\<lambda>(_, g).
     bind_ok (assert_that (gt_ty (vg_ty g) = I32)) (\<lambda>_.
       if 0 <s raw_i32 (owned_value (vg_definition g)) then Ok Exhausted
       else
         bind_ok (exported_global p self ''wasmer_metering_remaining_points'') (\<lambda>(_, g).
         bind_ok (assert_that (gt_ty (vg_ty g) = I64)) (\<lambda>_.
           Ok (Remaining (raw_i64 (owned_value (vg_definition g))))))))"

text \<open>
  \<open>Global::set\<close> of an integer, with the error of a constant global or of another type as \<open>Err\<close>. The
  bytes of the value behind the integer are unspecified; here they keep their contents.
\<close>

definition global_set ::
  "process \<Rightarrow> InternalStoreHandle \<Rightarrow> wtype \<Rightarrow> (RawValue \<Rightarrow> RawValue) \<Rightarrow> (process, string) outcome" where
  "global_set p h ty f =
     bind_ok (ish_get (pr_globals p) h) (\<lambda>g.
       if gt_mutability (vg_ty g) \<noteq> Var then Err ''Attempted to set an immutable global''
       else if gt_ty (vg_ty g) \<noteq> ty
       then Err (''Attempted to operate on a global of type '' @ type_debug (gt_ty (vg_ty g)) @
         '' as a global of type '' @ type_debug ty)
       else write_global p h f)"

definition set_remaining_points :: "process \<Rightarrow> VMInstance \<Rightarrow> u64 \<Rightarrow> (process, unit) outcome" where
  "set_remaining_points p self points =
     bind_ok (exported_global p self ''wasmer_metering_remaining_points'') (\<lambda>(h, _).
     bind_ok (unwrap_res (global_set p h I64 (\<lambda>v. raw_set_i64 v points))) (\<lambda>p'.
     bind_ok (exported_global p' self ''wasmer_metering_points_exhausted'') (\<lambda>(h', _).
       unwrap_res (global_set p' h' I32 (\<lambda>v. raw_set_i32 v 0)))))"

section \<open>Structured control\<close>

fun opens_block :: "'o Operator \<Rightarrow> bool" where
  "opens_block OpBlock = True"
| "opens_block OpLoop = True"
| "opens_block OpIf = True"
| "opens_block OpTryTable = True"
| "opens_block _ = False"

text \<open>The position of the \<open>end\<close> of the current block, and of its \<open>else\<close> or \<open>end\<close>.\<close>

fun end_from :: "nat \<Rightarrow> nat \<Rightarrow> 'o Operator list \<Rightarrow> nat option" where
  "end_from i depth [] = None"
| "end_from i depth (op # ops) =
     (if op = OpEnd then if depth = 0 then Some i else end_from (Suc i) (depth - 1) ops
      else end_from (Suc i) (if opens_block op then Suc depth else depth) ops)"

fun else_from :: "nat \<Rightarrow> nat \<Rightarrow> 'o Operator list \<Rightarrow> nat option" where
  "else_from i depth [] = None"
| "else_from i depth (op # ops) =
     (if op = OpEnd then if depth = 0 then Some i else else_from (Suc i) (depth - 1) ops
      else if op = OpElse \<and> depth = 0 then Some i
      else else_from (Suc i) (if opens_block op then Suc depth else depth) ops)"

text \<open>The positions of the open blocks around a position, innermost first.\<close>

fun blocks_at :: "nat list \<Rightarrow> nat \<Rightarrow> 'o Operator list \<Rightarrow> nat list" where
  "blocks_at st i [] = st"
| "blocks_at st i (op # ops) =
     (if op = OpEnd then blocks_at (drop 1 st) (Suc i) ops
      else blocks_at (if opens_block op then i # st else st) (Suc i) ops)"

definition after :: "'o Operator list \<Rightarrow> nat option \<Rightarrow> nat" where
  "after ops e = (case e of Some i \<Rightarrow> Suc i | None \<Rightarrow> length ops)"

text \<open>
  A branch to the label of a loop continues behind the loop operator, to any other label behind
  the \<open>end\<close> of the block; the outermost label leaves the function.
\<close>

definition label_target :: "'o Operator list \<Rightarrow> nat \<Rightarrow> nat \<Rightarrow> nat" where
  "label_target ops pc n =
     (let st = blocks_at [] 0 (take pc ops)
      in if n < length st
         then let b = st ! n
              in if b < length ops \<and> ops ! b = OpLoop then Suc b
                 else after ops (end_from (Suc b) 0 (drop (Suc b) ops))
         else length ops)"

text \<open>An exception continues at a label of an enclosing \<open>try_table\<close> or leaves the function.\<close>

definition throw_targets :: "'o Operator list \<Rightarrow> nat \<Rightarrow> nat list" where
  "throw_targets ops pc =
     map (label_target ops pc) [0..<Suc (length (blocks_at [] 0 (take pc ops)))]"

definition control_successors :: "'o Operator list \<Rightarrow> nat \<Rightarrow> nat list" where
  "control_successors ops pc =
     (case ops ! pc of
        OpIf \<Rightarrow> [Suc pc, after ops (else_from (Suc pc) 0 (drop (Suc pc) ops))]
      | OpElse \<Rightarrow> [after ops (end_from (Suc pc) 0 (drop (Suc pc) ops))]
      | OpBr n \<Rightarrow> [label_target ops pc n]
      | OpBrIf n \<Rightarrow> [Suc pc, label_target ops pc n]
      | OpBrTable ns n \<Rightarrow> map (label_target ops pc) (ns @ [n])
      | OpBrOnCast n \<Rightarrow> [Suc pc, label_target ops pc n]
      | OpBrOnCastFail n \<Rightarrow> [Suc pc, label_target ops pc n]
      | OpBrOnNull n \<Rightarrow> [Suc pc, label_target ops pc n]
      | OpBrOnNonNull n \<Rightarrow> [Suc pc, label_target ops pc n]
      | OpReturn \<Rightarrow> [length ops]
      | OpReturnCall _ \<Rightarrow> [length ops]
      | OpReturnCallIndirect \<Rightarrow> [length ops]
      | OpReturnCallRef \<Rightarrow> [length ops]
      | OpCall _ \<Rightarrow> Suc pc # throw_targets ops pc
      | OpCallIndirect \<Rightarrow> Suc pc # throw_targets ops pc
      | OpCallRef \<Rightarrow> Suc pc # throw_targets ops pc
      | OpThrow _ \<Rightarrow> throw_targets ops pc
      | OpThrowRef \<Rightarrow> throw_targets ops pc
      | OpRethrow _ \<Rightarrow> throw_targets ops pc
      | OpUnreachable \<Rightarrow> []
      | _ \<Rightarrow> [Suc pc])"

lemma end_from_Some: "end_from i d ops = Some e \<Longrightarrow> i \<le> e \<and> e < i + length ops \<and> ops ! (e - i) = OpEnd"
proof (induction ops arbitrary: i d)
  case (Cons op ops)
  show ?case
  proof (cases "op = OpEnd \<and> d = 0")
    case False
    then obtain d' where "end_from (Suc i) d' ops = Some e" using Cons.prems by (auto split: if_splits)
    from Cons.IH [OF this] show ?thesis by (auto simp: nth_Cons' Suc_diff_le)
  qed (use Cons.prems in auto)
qed simp

lemma else_from_Some:
  "else_from i d ops = Some e \<Longrightarrow> i \<le> e \<and> e < i + length ops \<and> is_accounting (ops ! (e - i))"
proof (induction ops arbitrary: i d)
  case (Cons op ops)
  show ?case
  proof (cases "(op = OpEnd \<or> op = OpElse) \<and> d = 0")
    case False
    then obtain d' where "else_from (Suc i) d' ops = Some e" using Cons.prems by (auto split: if_splits)
    from Cons.IH [OF this] show ?thesis by (auto simp: nth_Cons' Suc_diff_le)
  qed (use Cons.prems in auto)
qed simp

text \<open>A position that may be entered from elsewhere: behind an accounting operator, or the end.\<close>

definition is_target :: "'o Operator list \<Rightarrow> nat \<Rightarrow> bool" where
  "is_target ops j = (j = length ops \<or> 0 < j \<and> j \<le> length ops \<and> is_accounting (ops ! (j - 1)))"

lemma after_target:
  assumes "\<And>e. r = Some e \<Longrightarrow> e < length ops \<and> is_accounting (ops ! e)"
  shows "is_target ops (after ops r)"
  using assms by (cases r) (auto simp: after_def is_target_def)

lemma after_end_target: "is_target ops (after ops (end_from (Suc b) 0 (drop (Suc b) ops)))"
proof (rule after_target)
  fix e assume "end_from (Suc b) 0 (drop (Suc b) ops) = Some e"
  from end_from_Some [OF this] show "e < length ops \<and> is_accounting (ops ! e)" by auto
qed

lemma after_else_target: "is_target ops (after ops (else_from (Suc b) 0 (drop (Suc b) ops)))"
proof (rule after_target)
  fix e assume "else_from (Suc b) 0 (drop (Suc b) ops) = Some e"
  from else_from_Some [OF this] show "e < length ops \<and> is_accounting (ops ! e)" by auto
qed

lemma label_target_target: "is_target ops (label_target ops pc n)"
proof -
  have "is_target ops (length ops)" by (simp add: is_target_def)
  moreover have "is_target ops (Suc b)" if "b < length ops" "ops ! b = OpLoop" for b
    using that by (simp add: is_target_def)
  ultimately show ?thesis by (auto simp: label_target_def Let_def after_end_target)
qed

lemma control_jumps:
  assumes "pc < length ops" "j \<in> set (control_successors ops pc)"
  shows "j = Suc pc \<or> is_accounting (ops ! pc) \<and> is_target ops j"
proof -
  have exit: "is_target ops (length ops)" by (simp add: is_target_def)
  show ?thesis
    using assms after_end_target [of ops] after_else_target [of ops] label_target_target [of ops] exit
    by (cases "ops ! pc") (auto simp: control_successors_def throw_targets_def)
qed

lemma unat_of_nat_small: "n < 2 ^ LENGTH('a) \<Longrightarrow> unat (of_nat n :: 'a::len word) = n"
  by (simp add: unsigned_of_nat take_bit_nat_eq_self)

section \<open>What a run is charged\<close>

text \<open>
  The cost that has accumulated in front of a position since the last accounting operator, and
  the charge that the check in front of an operator takes.
\<close>

fun block_cost :: "('o Operator \<Rightarrow> u64) \<Rightarrow> 'o Operator list \<Rightarrow> nat \<Rightarrow> nat" where
  "block_cost cost ops 0 = 0"
| "block_cost cost ops (Suc i) =
     (if is_accounting (ops ! i) then 0 else block_cost cost ops i + unat (cost (ops ! i)))"

definition charge :: "('o Operator \<Rightarrow> u64) \<Rightarrow> 'o Operator list \<Rightarrow> nat \<Rightarrow> nat" where
  "charge cost ops i = (if is_accounting (ops ! i) then block_cost cost ops i + unat (cost (ops ! i)) else 0)"

definition path_cost :: "('o Operator \<Rightarrow> u64) \<Rightarrow> 'o Operator list \<Rightarrow> nat list \<Rightarrow> nat" where
  "path_cost cost ops path = sum_list (map (\<lambda>i. unat (cost (ops ! i))) path)"

text \<open>The positions that a run of a function body passes.\<close>

fun path_from ::
  "('o Operator list \<Rightarrow> nat \<Rightarrow> nat list) \<Rightarrow> 'o Operator list \<Rightarrow> nat \<Rightarrow> nat list \<Rightarrow> bool" where
  "path_from successors ops i [] = True"
| "path_from successors ops i (j # js) =
     (j = i \<and> i < length ops \<and>
      (js = [] \<or> hd js \<in> set (successors ops i) \<and> path_from successors ops (hd js) js))"

text \<open>
  A semantics of control in which jumps start at accounting operators and arrive behind them.
  In any such semantics the charges along a run add up to its costs.
\<close>

locale accounted_control =
  fixes successors :: "'o Operator list \<Rightarrow> nat \<Rightarrow> nat list"
  assumes jumps: "pc < length ops \<Longrightarrow> j \<in> set (successors ops pc) \<Longrightarrow>
    j = Suc pc \<or> is_accounting (ops ! pc) \<and> is_target ops j"
begin

lemma charges_add_up:
  assumes "path_from successors ops i path" "path \<noteq> []"
  shows "block_cost cost ops i + path_cost cost ops path =
    sum_list (map (charge cost ops) path) +
    (if is_accounting (ops ! last path) then 0 else block_cost cost ops (last path) + unat (cost (ops ! last path)))"
  using assms
proof (induction path arbitrary: i)
  case (Cons j js)
  then have j: "j = i" "i < length ops" by auto
  show ?case
  proof (cases js)
    case Nil
    then show ?thesis using j by (simp add: path_cost_def charge_def)
  next
    case (Cons k ks)
    with Cons.prems j have k: "k \<in> set (successors ops i)" "path_from successors ops k js" "k < length ops" by auto
    have "block_cost cost ops k = (if is_accounting (ops ! i) then 0 else block_cost cost ops i + unat (cost (ops ! i)))"
    proof (cases "k = Suc i")
      case False
      with jumps [OF j(2) k(1)] k(3) have "is_accounting (ops ! i)" "0 < k" "is_accounting (ops ! (k - 1))"
        by (auto simp: is_target_def)
      then show ?thesis by (cases k) auto
    qed simp
    with Cons.IH [OF k(2)] Cons j show ?thesis by (auto simp: path_cost_def charge_def)
  qed
qed simp

end

interpretation wasm: accounted_control control_successors
  by unfold_locales (rule control_jumps)

section \<open>The emitted checks\<close>

datatype global_value = V32 i32 | V64 i64

text \<open>
  Running the emitted operators on the globals and an operand stack. A trap keeps the globals;
  operands of the wrong type cannot occur in validated code and are a panic.
\<close>

function run_ops ::
  "(u32 \<Rightarrow> global_value) \<Rightarrow> global_value list \<Rightarrow> 'o Operator list \<Rightarrow>
     (u32 \<Rightarrow> global_value, u32 \<Rightarrow> global_value) outcome" where
  "run_ops g st [] = Ok g"
| "run_ops g st (op # ops) =
     (case op of
        OpGlobalGet i \<Rightarrow> run_ops g (g i # st) ops
      | OpGlobalSet i \<Rightarrow> (case st of v # st' \<Rightarrow> run_ops (g(i := v)) st' ops | _ \<Rightarrow> Panic)
      | OpI32Const c \<Rightarrow> run_ops g (V32 c # st) ops
      | OpI64Const c \<Rightarrow> run_ops g (V64 c # st) ops
      | OpI64LtU \<Rightarrow> (case st of V64 b # V64 a # st' \<Rightarrow> run_ops g (V32 (if a < b then 1 else 0) # st') ops | _ \<Rightarrow> Panic)
      | OpI64Sub \<Rightarrow> (case st of V64 b # V64 a # st' \<Rightarrow> run_ops g (V64 (a - b) # st') ops | _ \<Rightarrow> Panic)
      | OpIf \<Rightarrow> (case st of
            V32 c # st' \<Rightarrow>
              if c \<noteq> 0 then run_ops g st' ops
              else (case end_from 0 0 ops of Some e \<Rightarrow> run_ops g st' (drop (Suc e) ops) | None \<Rightarrow> Panic)
          | _ \<Rightarrow> Panic)
      | OpEnd \<Rightarrow> run_ops g st ops
      | OpUnreachable \<Rightarrow> Err g
      | _ \<Rightarrow> Panic)"
  by pat_completeness auto
termination by (relation "measure (\<lambda>(g, st, ops). length ops)") auto

lemma run_check:
  assumes "g (mg_remaining_points ix) = V64 r" and "mg_remaining_points ix \<noteq> mg_points_exhausted ix"
  shows "run_ops g [] (metering_check ix c) =
    (if r < c then Err (g(mg_points_exhausted ix := V32 1)) else Ok (g(mg_remaining_points ix := V64 (r - c))))"
  using assms by (simp add: metering_check_def)

fun feed_each ::
  "'o FunctionMetering \<Rightarrow> 'o Operator list \<Rightarrow> ('o Operator list list \<times> 'o FunctionMetering, read_error) outcome" where
  "feed_each self [] = Ok ([], self)"
| "feed_each self (op # ops) =
     bind_ok (metering_feed self op) (\<lambda>(out, self').
     bind_ok (feed_each self' ops) (\<lambda>(outs, self''). Ok (out # outs, self'')))"

lemma feed_each_concat:
  "feed_all metering_feed self ops = bind_ok (feed_each self ops) (\<lambda>(outs, self'). Ok (concat outs, self'))"
proof (induction ops arbitrary: self)
  case (Cons op ops)
  show ?case
  proof (cases "metering_feed self op")
    case (Ok r)
    obtain out s1 where "r = (out, s1)" by (cases r)
    then show ?thesis using Ok Cons.IH [of s1] by (cases "feed_each s1 ops") (auto split: prod.splits)
  qed simp_all
qed simp

definition metered :: "('o Operator \<Rightarrow> u64) \<Rightarrow> MeteringGlobalIndexes \<Rightarrow> 'o Operator list \<Rightarrow> nat \<Rightarrow> 'o Operator list" where
  "metered cost ix ops i =
     (if 0 < charge cost ops i then metering_check ix (of_nat (charge cost ops i)) else []) @ [ops ! i]"

lemma block_cost_le: "block_cost cost ops n \<le> path_cost cost ops [0..<n]"
  by (induction n) (auto simp: path_cost_def)

lemma path_cost_prefix: "n \<le> length ops \<Longrightarrow> path_cost cost ops [0..<n] \<le> path_cost cost ops [0..<length ops]"
  using upt_add_eq_append [of 0 n "length ops - n"] by (simp add: path_cost_def)

lemma feed_each_from:
  assumes "path_cost cost ops [0..<length ops] < 2 ^ 64" and "n \<le> length ops"
  shows "\<exists>self'. feed_each \<lparr>fm_cost_function = cost, fm_global_indexes = ix,
      fm_accumulated_cost = of_nat (block_cost cost ops n)\<rparr> (drop n ops) =
    Ok (map (metered cost ix ops) [n..<length ops], self')"
  using assms(2)
proof (induction "length ops - n" arbitrary: n)
  case 0
  then show ?case by simp
next
  case (Suc m)
  then have n: "n < length ops" and m: "m = length ops - Suc n" by simp_all
  let ?acc = "block_cost cost ops n" and ?c = "cost (ops ! n)"
  let ?self = "\<lparr>fm_cost_function = cost, fm_global_indexes = ix, fm_accumulated_cost = of_nat ?acc\<rparr>"
  have total: "?acc + unat ?c < 2 ^ 64"
    using block_cost_le [of cost ops "Suc n"] block_cost_le [of cost ops n] path_cost_prefix [of "Suc n" ops cost] assms(1) n
    by (simp add: path_cost_def)
  have acc: "unat (of_nat ?acc :: u64) = ?acc"
    using total by (simp add: unat_of_nat_small)
  have sum: "checked_add (of_nat ?acc) ?c = Some (of_nat (?acc + unat ?c))"
    using total acc by (simp add: checked_add_def)
  have pos: "0 < (of_nat (?acc + unat ?c) :: u64) \<longleftrightarrow> 0 < ?acc + unat ?c"
    using total by (simp add: word_less_nat_alt unat_of_nat_small del: of_nat_add)
  have feed: "metering_feed ?self (ops ! n) =
      Ok (metered cost ix ops n, ?self\<lparr>fm_accumulated_cost := of_nat (block_cost cost ops (Suc n))\<rparr>)"
    using pos by (auto simp: metering_feed_def sum metered_def charge_def simp del: of_nat_add)
  obtain self' where "feed_each \<lparr>fm_cost_function = cost, fm_global_indexes = ix,
      fm_accumulated_cost = of_nat (block_cost cost ops (Suc n))\<rparr> (drop (Suc n) ops) =
      Ok (map (metered cost ix ops) [Suc n..<length ops], self')"
    using Suc.hyps(1) [OF m] n by (auto simp del: block_cost.simps)
  with feed n show ?case
    by (simp add: Cons_nth_drop_Suc [symmetric] upt_conv_Cons del: block_cost.simps)
qed

text \<open>
  Running the checks in front of the operators that a run passes, up to the first one that traps;
  the result of a trap also counts the operators in front of it.
\<close>

fun run_checks ::
  "'o Operator list list \<Rightarrow> (u32 \<Rightarrow> global_value) \<Rightarrow> nat list \<Rightarrow>
     (u32 \<Rightarrow> global_value, nat \<times> (u32 \<Rightarrow> global_value)) outcome" where
  "run_checks code g [] = Ok g"
| "run_checks code g (i # path) =
     (case run_ops g [] (butlast (code ! i)) of
        Ok g' \<Rightarrow> (case run_checks code g' path of Err (k, g'') \<Rightarrow> Err (Suc k, g'') | r \<Rightarrow> r)
      | Err g' \<Rightarrow> Err (0, g')
      | Panic \<Rightarrow> Panic)"

lemma run_checks_charges:
  assumes code: "code = map (metered cost ix ops) [0..<length ops]"
    and ix: "mg_remaining_points ix \<noteq> mg_points_exhausted ix"
    and path: "\<forall>i \<in> set path. i < length ops" and small: "\<forall>i < length ops. charge cost ops i < 2 ^ 64"
    and g: "g (mg_remaining_points ix) = V64 r"
  shows "case run_checks code g path of
      Ok g' \<Rightarrow> sum_list (map (charge cost ops) path) \<le> unat r \<and>
        g' = g(mg_remaining_points ix := V64 (r - of_nat (sum_list (map (charge cost ops) path))))
    | Err (k, g') \<Rightarrow> k < length path \<and> unat r < sum_list (map (charge cost ops) (take (Suc k) path)) \<and>
        sum_list (map (charge cost ops) (take k path)) \<le> unat r \<and> 0 < charge cost ops (path ! k) \<and>
        g' = g(mg_remaining_points ix := V64 (r - of_nat (sum_list (map (charge cost ops) (take k path)))),
               mg_points_exhausted ix := V32 1)
    | Panic \<Rightarrow> False"
  using path g
proof (induction path arbitrary: g r)
  case Nil
  then show ?case by (simp add: fun_upd_idem)
next
  case (Cons i path)
  let ?c = "charge cost ops i"
  have i: "i < length ops" using Cons.prems by simp
  have c: "unat (of_nat ?c :: u64) = ?c" using small i by (simp add: unat_of_nat_small)
  have chunk: "butlast (code ! i) = (if 0 < ?c then metering_check ix (of_nat ?c) else [])"
    using i by (simp add: code metered_def butlast_append)
  have run: "run_ops g [] (butlast (code ! i)) =
      (if unat r < ?c then Err (g(mg_points_exhausted ix := V32 1))
       else Ok (g(mg_remaining_points ix := V64 (r - of_nat ?c))))"
  proof (cases "0 < ?c")
    case True
    then show ?thesis using run_check [where g = g and ix = ix and r = r and c = "of_nat ?c"] Cons.prems(2) ix c
      by (simp add: chunk word_less_nat_alt)
  next
    case False
    then show ?thesis using Cons.prems(2) by (simp add: chunk fun_upd_idem)
  qed
  show ?case
  proof (cases "unat r < ?c")
    case True
    then show ?thesis using run Cons.prems(2) by (simp add: fun_upd_idem)
  next
    case False
    define h0 where "h0 = g(mg_remaining_points ix := V64 (r - of_nat ?c))"
    have r: "unat (r - of_nat ?c) = unat r - ?c"
      using False c by (simp add: unat_sub word_le_nat_alt)
    have le: "\<forall>i \<in> set path. i < length ops" using Cons.prems(1) by simp
    have h0: "h0 (mg_remaining_points ix) = V64 (r - of_nat ?c)" by (simp add: h0_def)
    note run' = run [folded h0_def]
    show ?thesis
    proof (cases "run_checks code h0 path")
      case (Ok h)
      then show ?thesis using Cons.IH [OF le, of h0 "r - of_nat ?c", OF h0] False r
        by (simp add: run' diff_diff_eq) (simp add: h0_def, linarith)
    next
      case (Err e)
      then show ?thesis using Cons.IH [OF le, of h0 "r - of_nat ?c", OF h0] False r
        by (cases e) (simp add: run' diff_diff_eq, simp add: h0_def, linarith)
    next
      case Panic
      then show ?thesis using Cons.IH [OF le, of h0 "r - of_nat ?c", OF h0] by simp
    qed
  qed
qed

lemma path_from_take: "path_from successors ops i path \<Longrightarrow> path_from successors ops i (take n path)"
proof (induction path arbitrary: i n)
  case (Cons j js)
  show ?case
  proof (cases n)
    case (Suc m)
    have "path_from successors ops (hd js) (take m js)" if "js \<noteq> []"
      using Cons.IH [of "hd js" m] Cons.prems that by simp
    then show ?thesis using Cons.prems Suc by (cases js; cases m) auto
  qed simp
qed simp

lemma path_from_bound: "path_from successors ops i path \<Longrightarrow> j \<in> set path \<Longrightarrow> j < length ops"
proof (induction path arbitrary: i)
  case (Cons k js)
  then show ?case by (cases js) auto
qed simp

lemma charge_accounting: "0 < charge cost ops i \<Longrightarrow> is_accounting (ops ! i)"
  by (auto simp: charge_def split: if_splits)

lemma charge_small:
  assumes "path_cost cost ops [0..<length ops] < 2 ^ 64" and "i < length ops"
  shows "charge cost ops i < 2 ^ 64"
proof -
  have "charge cost ops i \<le> path_cost cost ops [0..<Suc i]"
    using block_cost_le [of cost ops i] by (simp add: charge_def path_cost_def)
  also have "\<dots> \<le> path_cost cost ops [0..<length ops]" using assms(2) by (intro path_cost_prefix) simp
  finally show ?thesis using assms(1) by simp
qed

lemmas path_charges = wasm.charges_add_up [where i = 0, simplified]

text \<open>The charges up to a check that traps, and those in front of it.\<close>

lemma trap_charges:
  assumes path: "path_from control_successors ops 0 path" and k: "k < length path" "0 < charge cost ops (path ! k)"
  shows "sum_list (map (charge cost ops) (take (Suc k) path)) = path_cost cost ops (take (Suc k) path)"
    and "path_cost cost ops (take k path) =
      sum_list (map (charge cost ops) (take k path)) + block_cost cost ops (path ! k)"
proof -
  let ?c = "unat (cost (ops ! (path ! k)))"
  have acc: "is_accounting (ops ! (path ! k))" using k(2) by (rule charge_accounting)
  have last: "last (take (Suc k) path) = path ! k" using k(1) by (simp add: take_Suc_conv_app_nth)
  show *: "sum_list (map (charge cost ops) (take (Suc k) path)) = path_cost cost ops (take (Suc k) path)"
    using path_charges [OF path_from_take [OF path], of "Suc k" cost] k(1) acc last by (cases path) auto
  show "path_cost cost ops (take k path) =
      sum_list (map (charge cost ops) (take k path)) + block_cost cost ops (path ! k)"
    using * k(1) acc by (simp add: take_Suc_conv_app_nth path_cost_def charge_def)
qed

text \<open>
  C24: Metering charges a run exactly what it costs. Take any run through the structured control of
  a function body that stops at an accounting operator (a branch, a call, an \<open>end\<close>, so in particular any run
  that leaves the function), and any cost function whose total over the body fits in 64 bits. Every
  operator is kept, behind an optional check. If no check traps, the points went down by exactly the cost of the
  operators of the run, which they covered, and no other global changed. A check traps only if
  the cost of the run up to and including the guarded operator exceeds the points; then the flag of exhaustion is set, the
  guarded operator is not executed, and what was executed exceeds the points by at most the cost
  of the last basic block.
\<close>

theorem metering_exact:
  assumes path: "path_from control_successors ops 0 path" "path \<noteq> []" "is_accounting (ops ! last path)"
    and total: "path_cost cost ops [0..<length ops] < 2 ^ 64"
    and ix: "mg_remaining_points ix \<noteq> mg_points_exhausted ix"
    and g: "g (mg_remaining_points ix) = V64 r"
  shows "\<exists>code self'.
    feed_each \<lparr>fm_cost_function = cost, fm_global_indexes = ix, fm_accumulated_cost = 0\<rparr> ops = Ok (code, self') \<and>
    map last code = ops \<and>
    (case run_checks code g path of
       Ok g' \<Rightarrow> path_cost cost ops path \<le> unat r \<and>
         g' = g(mg_remaining_points ix := V64 (r - of_nat (path_cost cost ops path)))
     | Err (k, g') \<Rightarrow> k < length path \<and> unat r < path_cost cost ops (take (Suc k) path) \<and>
         path_cost cost ops (take k path) \<le> unat r + block_cost cost ops (path ! k) \<and>
         g' (mg_points_exhausted ix) = V32 1
     | Panic \<Rightarrow> False)"
proof -
  define code where "code = map (metered cost ix ops) [0..<length ops]"
  obtain self' where feed:
    "feed_each \<lparr>fm_cost_function = cost, fm_global_indexes = ix, fm_accumulated_cost = 0\<rparr> ops = Ok (code, self')"
    using feed_each_from [OF total, of 0 ix] by (auto simp: code_def)
  have last: "map last code = ops"
    by (rule nth_equalityI) (simp_all add: code_def metered_def)
  have small: "\<forall>i < length ops. charge cost ops i < 2 ^ 64" using charge_small [OF total] by blast
  have bound: "\<forall>i \<in> set path. i < length ops" using path_from_bound [OF path(1)] by blast
  have sum: "sum_list (map (charge cost ops) path) = path_cost cost ops path"
    using path_charges [OF path(1, 2), of cost] path(3) by simp
  note run = run_checks_charges [where g = g, OF code_def ix bound small g]
  have "case run_checks code g path of
       Ok g' \<Rightarrow> path_cost cost ops path \<le> unat r \<and>
         g' = g(mg_remaining_points ix := V64 (r - of_nat (path_cost cost ops path)))
     | Err (k, g') \<Rightarrow> k < length path \<and> unat r < path_cost cost ops (take (Suc k) path) \<and>
         path_cost cost ops (take k path) \<le> unat r + block_cost cost ops (path ! k) \<and>
         g' (mg_points_exhausted ix) = V32 1
     | Panic \<Rightarrow> False"
  proof (cases "run_checks code g path")
    case (Ok g')
    then show ?thesis using run by (simp add: sum)
  next
    case (Err e)
    obtain k g' where e: "e = (k, g')" by (cases e)
    from run Err e have k: "k < length path" "0 < charge cost ops (path ! k)" by simp_all
    from run Err e trap_charges [OF path(1) k] show ?thesis by simp
  next
    case Panic
    then show ?thesis using run by simp
  qed
  with feed last show ?thesis by blast
qed

text \<open>
  A loop that runs twice and leaves by falling through its conditional branch: every operator
  costs one point, the run passes nine operators.
\<close>

definition example_body :: "nat Operator list" where
  "example_body = [OpOther 0, OpLoop, OpOther 1, OpBrIf 0, OpEnd, OpOther 2, OpEnd]"

theorem metering_exact_witness:
  "\<exists>code self'.
    feed_each \<lparr>fm_cost_function = (\<lambda>_. 1), fm_global_indexes = \<lparr>mg_remaining_points = 0, mg_points_exhausted = 1\<rparr>,
      fm_accumulated_cost = 0\<rparr> example_body = Ok (code, self') \<and>
    (case run_checks code ((\<lambda>_. V32 0)(0 := V64 10)) [0, 1, 2, 3, 2, 3, 4, 5, 6] of
       Ok g' \<Rightarrow> g' 0 = V64 1
     | _ \<Rightarrow> False)"
proof -
  let ?path = "[0, 1, 2, 3, 2, 3, 4, 5, 6] :: nat list"
  have path: "path_from control_successors example_body 0 ?path"
    by code_simp
  have acc: "is_accounting (example_body ! last ?path)" by code_simp
  have total: "path_cost (\<lambda>_. 1) example_body [0..<length example_body] < 2 ^ 64"
    by (simp add: path_cost_def example_body_def)
  have cost: "path_cost (\<lambda>_. 1) example_body (take n ?path) \<le> 9" for n
  proof -
    have "path_cost (\<lambda>_. 1) example_body (take n ?path) = length (take n ?path)"
      by (simp add: path_cost_def sum_list_triv)
    then show ?thesis by simp
  qed
  have cost9: "path_cost (\<lambda>_. 1) example_body ?path = 9" by (simp add: path_cost_def)
  define ix where "ix = \<lparr>mg_remaining_points = 0, mg_points_exhausted = 1\<rparr>"
  define g :: "u32 \<Rightarrow> global_value" where "g = (\<lambda>_. V32 0)(0 := V64 10)"
  have ix: "mg_remaining_points ix = 0" "mg_points_exhausted ix = 1" by (simp_all add: ix_def)
  have g: "g 0 = V64 10" by (simp add: g_def)
  have unat_10: "unat (10 :: u64) = 10" by simp
  have ne: "?path \<noteq> []" by simp
  have dist: "mg_remaining_points ix \<noteq> mg_points_exhausted ix" by (simp add: ix)
  have points: "g (mg_remaining_points ix) = V64 10" by (simp add: ix g)
  obtain code self' where
    feed: "feed_each \<lparr>fm_cost_function = (\<lambda>_. 1), fm_global_indexes = ix, fm_accumulated_cost = 0\<rparr> example_body = Ok (code, self')" and
    run: "case run_checks code g ?path of
       Ok g' \<Rightarrow> path_cost (\<lambda>_. 1) example_body ?path \<le> unat (10 :: u64) \<and>
         g' = g(0 := V64 (10 - of_nat (path_cost (\<lambda>_. 1) example_body ?path)))
     | Err (k, g') \<Rightarrow> k < length ?path \<and> unat (10 :: u64) < path_cost (\<lambda>_. 1) example_body (take (Suc k) ?path) \<and>
         path_cost (\<lambda>_. 1) example_body (take k ?path) \<le> unat (10 :: u64) + block_cost (\<lambda>_. 1) example_body (?path ! k) \<and>
         g' 1 = V32 1
     | Panic \<Rightarrow> False"
    using metering_exact [where g = g, OF path ne acc total dist points] unfolding ix by blast
  have "case run_checks code g ?path of Ok g' \<Rightarrow> g' 0 = V64 1 | _ \<Rightarrow> False"
  proof (cases "run_checks code g ?path")
    case (Err e)
    obtain k g' where "e = (k, g')" by (cases e)
    with run Err cost [of "Suc k"] show ?thesis by (simp only: outcome.case prod.case unat_10, linarith)
  next
    case (Ok h)
    then show ?thesis using run unfolding cost9 by (simp only: outcome.case) simp
  next
    case Panic
    then show ?thesis using run by (simp only: outcome.case)
  qed
  with feed show ?thesis unfolding ix_def g_def by blast
qed

section \<open>The globals of the middleware\<close>

lemma map_of_indexmap_insert: "map_of (indexmap_insert m k v) = (map_of m)(k \<mapsto> v)"
  by (induction m k v rule: indexmap_insert.induct) auto

text \<open>
  Transforming a module appends one global for the points and one for the flag at the end of the
  index space, so that no index in the code changes its meaning.
\<close>

lemma transform_module_info_eq:
  "transform_module_info self info = Ok (self', info') \<longleftrightarrow>
    me_global_indexes self = None \<and>
    length (mi_globals info) + 1 < 4294967295 \<and> length (mi_global_initializers info) + 1 < 4294967295 \<and>
    self' = self\<lparr>me_global_indexes := Some \<lparr>mg_remaining_points = as_u32 (length (mi_globals info)),
      mg_points_exhausted = as_u32 (length (mi_globals info) + 1)\<rparr>\<rparr> \<and>
    info' = info\<lparr>
      mi_globals := mi_globals info @ [\<lparr>gt_ty = I64, gt_mutability = Var\<rparr>, \<lparr>gt_ty = I32, gt_mutability = Var\<rparr>],
      mi_global_initializers := mi_global_initializers info @ [GI_I64Const (me_initial_limit self), GI_I32Const 0],
      mi_exports := indexmap_insert (indexmap_insert (mi_exports info)
        ''wasmer_metering_remaining_points'' (ExGlobal (as_u32 (length (mi_globals info)))))
        ''wasmer_metering_points_exhausted'' (ExGlobal (as_u32 (length (mi_globals info) + 1)))\<rparr>"
  by (auto simp: transform_module_info_def add_metering_global_def pm_push_def pm_next_key_def outcome_simps)

lemma transform_module_info_once:
  assumes "transform_module_info self info = (Ok (self', info') :: (_, 'e) outcome)"
  shows "transform_module_info self' other = (Panic :: (_, 'e) outcome)"
  using assms by (auto simp: transform_module_info_eq) (simp add: transform_module_info_def assert_that_def)

lemma exported_global_local:
  assumes "map_of (mi_exports (in_module self)) name = Some (ExGlobal (as_u32 (mi_num_imported_globals (in_module self) + i)))"
    and "mi_num_imported_globals (in_module self) + i < 4294967295"
    and "i < length (in_globals self)" and "ish_valid (pr_globals p) (in_globals self ! i)"
  shows "exported_global p self name =
    (Ok (in_globals self ! i, pr_globals p ! (in_globals self ! i - 1)) :: (_, 'e) outcome)"
proof -
  have "local_global_index (in_module self) (as_u32 (mi_num_imported_globals (in_module self) + i)) =
      (Ok (Some (as_u32 i)) :: (_, 'e) outcome)"
    using assms(2) by (simp add: local_global_index_def entity_index_def unat_as_u32_small usize_checked_sub_def
        entity_new_def assert_that_def)
  moreover have "pm_index (in_globals self) (as_u32 i) = (Ok (in_globals self ! i) :: (_, 'e) outcome)"
    using assms(2,3) by (simp add: pm_index_def pm_get_def nth_opt_def entity_index_def unat_as_u32_small)
  moreover have "ish_get (pr_globals p) (in_globals self ! i) =
      (Ok (pr_globals p ! (in_globals self ! i - 1)) :: (_, 'e) outcome)"
    using assms(4) by (simp add: outcome_simps)
  ultimately show ?thesis
    using assms(1) by (simp add: exported_global_def vm_lookup_def lookup_by_declaration_def)
qed

lemma raw_i64_set [simp]: "raw_i64 (raw_set_i64 v x) = x"
  by (rule bit_word_eqI) (auto simp: raw_i64_def raw_set_i64_def raw_low_def bit_simps)

lemma raw_i32_set [simp]: "raw_i32 (raw_set_i32 v x) = x"
  by (rule bit_word_eqI) (auto simp: raw_i32_def raw_set_i32_def raw_low_def bit_simps)

lemma write_global_eq:
  "ish_valid (pr_globals p) h \<Longrightarrow> write_global p h f = Ok (pr_set_globals p ((pr_globals p)
     [h - 1 := (pr_globals p ! (h - 1))\<lparr>vg_definition := owned_update f (vg_definition (pr_globals p ! (h - 1)))\<rparr>]))"
  by (simp add: write_global_def outcome_simps)

lemma ish_get_valid: "ish_valid xs h \<Longrightarrow> ish_get xs h = Ok (xs ! (h - 1))"
  by (simp add: outcome_simps)

lemma global_set_eq:
  "ish_valid (pr_globals p) h \<Longrightarrow> vg_ty (pr_globals p ! (h - 1)) = \<lparr>gt_ty = ty, gt_mutability = Var\<rparr> \<Longrightarrow>
    global_set p h ty f = write_global p h f"
  by (simp add: global_set_def ish_get_valid)

lemma pr_globals_set [simp]: "pr_globals (pr_set_globals p gs) = gs"
  by (simp add: pr_globals_def pr_set_globals_def)

lemma nth_in_drop: "i \<le> j \<Longrightarrow> j < length xs \<Longrightarrow> xs ! j \<in> set (drop i xs)"
  by (auto simp: set_conv_nth intro!: exI [of _ "j - i"])

text \<open>An instance has, for every local global, an object of the type that its module declares.\<close>

definition globals_typed :: "process \<Rightarrow> VMInstance \<Rightarrow> bool" where
  "globals_typed p self =
     (mi_num_imported_globals (in_module self) + length (in_globals self) = length (mi_globals (in_module self)) \<and>
      (\<forall>i < length (in_globals self). ish_valid (pr_globals p) (in_globals self ! i) \<and>
         vg_ty (pr_globals p ! (in_globals self ! i - 1)) =
           mi_globals (in_module self) ! (mi_num_imported_globals (in_module self) + i)))"

lemma metering_globals:
  assumes "transform_module_info me info = (Ok (me', in_module self) :: (_, 'e) outcome)"
    and "mi_num_imported_globals info \<le> length (mi_globals info)" and "globals_typed p self"
  defines "i \<equiv> length (mi_globals info) - mi_num_imported_globals info"
  shows "exported_global p self ''wasmer_metering_remaining_points'' =
      Ok (in_globals self ! i, pr_globals p ! (in_globals self ! i - 1))"
    and "exported_global p self ''wasmer_metering_points_exhausted'' =
      Ok (in_globals self ! Suc i, pr_globals p ! (in_globals self ! Suc i - 1))"
    and "ish_valid (pr_globals p) (in_globals self ! i)" "ish_valid (pr_globals p) (in_globals self ! Suc i)"
    and "vg_ty (pr_globals p ! (in_globals self ! i - 1)) = \<lparr>gt_ty = I64, gt_mutability = Var\<rparr>"
    and "vg_ty (pr_globals p ! (in_globals self ! Suc i - 1)) = \<lparr>gt_ty = I32, gt_mutability = Var\<rparr>"
proof -
  note module = assms(1) [unfolded transform_module_info_eq]
  have n: "mi_num_imported_globals (in_module self) + i = length (mi_globals info)"
    using module assms(2) by (auto simp: i_def)
  have len: "Suc i < length (in_globals self)" "i < length (in_globals self)"
    using module assms(2,3) n by (auto simp: globals_typed_def)
  show valid: "ish_valid (pr_globals p) (in_globals self ! i)" "ish_valid (pr_globals p) (in_globals self ! Suc i)"
    using assms(3) len by (simp_all add: globals_typed_def)
  have ty: "vg_ty (pr_globals p ! (in_globals self ! j - 1)) = mi_globals (in_module self) ! (mi_num_imported_globals (in_module self) + j)"
    if "j < length (in_globals self)" for j using assms(3) that by (simp add: globals_typed_def)
  have globals: "mi_globals (in_module self) =
      mi_globals info @ [\<lparr>gt_ty = I64, gt_mutability = Var\<rparr>, \<lparr>gt_ty = I32, gt_mutability = Var\<rparr>]"
    using module by simp
  show "vg_ty (pr_globals p ! (in_globals self ! i - 1)) = \<lparr>gt_ty = I64, gt_mutability = Var\<rparr>"
    "vg_ty (pr_globals p ! (in_globals self ! Suc i - 1)) = \<lparr>gt_ty = I32, gt_mutability = Var\<rparr>"
    using ty [OF len(2)] ty [OF len(1)] n by (simp_all add: globals nth_append)
  have exports: "map_of (mi_exports (in_module self)) ''wasmer_metering_remaining_points'' =
        Some (ExGlobal (as_u32 (mi_num_imported_globals (in_module self) + i)))"
      "map_of (mi_exports (in_module self)) ''wasmer_metering_points_exhausted'' =
        Some (ExGlobal (as_u32 (mi_num_imported_globals (in_module self) + Suc i)))"
    using module n by (simp_all add: map_of_indexmap_insert)
  have small: "mi_num_imported_globals (in_module self) + i < 4294967295" "mi_num_imported_globals (in_module self) + Suc i < 4294967295"
    using module n by auto
  show "exported_global p self ''wasmer_metering_remaining_points'' =
      Ok (in_globals self ! i, pr_globals p ! (in_globals self ! i - 1))"
    by (rule exported_global_local [OF exports(1) small(1) len(2) valid(1)])
  show "exported_global p self ''wasmer_metering_points_exhausted'' =
      Ok (in_globals self ! Suc i, pr_globals p ! (in_globals self ! Suc i - 1))"
    by (rule exported_global_local [OF exports(2) small(2) len(1) valid(2)])
qed

lemma globals_typed_write:
  assumes "write_global p h f = Ok p'"
  shows "globals_typed p' self = globals_typed p self"
proof -
  have h: "ish_valid (pr_globals p) h" using assms by (auto simp: write_global_def outcome_simps)
  with assms have "pr_globals p' = (pr_globals p)[h - 1 := (pr_globals p ! (h - 1))
      \<lparr>vg_definition := owned_update f (vg_definition (pr_globals p ! (h - 1)))\<rparr>]"
    by (simp add: write_global_eq) auto
  with h have "ish_valid (pr_globals p') k = ish_valid (pr_globals p) k"
    "ish_valid (pr_globals p) k \<Longrightarrow> vg_ty (pr_globals p' ! (k - 1)) = vg_ty (pr_globals p ! (k - 1))" for k
    by (auto simp: nth_list_update ish_valid_def)
  then show ?thesis by (auto simp: globals_typed_def)
qed

text \<open>
  C28: The host reads back the points that it set. In an instance of a module that the middleware
  has transformed, setting the points succeeds, reading them afterwards gives the number set, also
  when the points were exhausted before, and no other global has changed. Exports that the module
  already had under the names of the middleware do not get in the way.
\<close>

theorem metering_points_roundtrip:
  assumes transform: "transform_module_info me info = (Ok (me', in_module self) :: (_, 'e) outcome)"
    and num: "mi_num_imported_globals info \<le> length (mi_globals info)" and typed: "globals_typed p self"
  shows "\<exists>p'. set_remaining_points p self n = Ok p' \<and> get_remaining_points p' self = Ok (Remaining n) \<and>
    (\<forall>h. h \<notin> set (drop (length (mi_globals info) - mi_num_imported_globals info) (in_globals self)) \<longrightarrow>
       ish_find (pr_globals p') h = ish_find (pr_globals p) h)"
proof -
  let ?i = "length (mi_globals info) - mi_num_imported_globals info"
  let ?h = "in_globals self ! ?i" and ?h' = "in_globals self ! Suc ?i"
  note here = metering_globals [OF transform num]
  define p1 where "p1 = pr_set_globals p ((pr_globals p)[?h - 1 := (pr_globals p ! (?h - 1))
      \<lparr>vg_definition := owned_update (\<lambda>v. raw_set_i64 v n) (vg_definition (pr_globals p ! (?h - 1)))\<rparr>])"
  have w1: "write_global p ?h (\<lambda>v. raw_set_i64 v n) = Ok p1"
    using write_global_eq [OF here(3) [OF typed]] by (simp add: p1_def)
  have typed1: "globals_typed p1 self" using globals_typed_write [OF w1] typed by blast
  define p2 where "p2 = pr_set_globals p1 ((pr_globals p1)[?h' - 1 := (pr_globals p1 ! (?h' - 1))
      \<lparr>vg_definition := owned_update (\<lambda>v. raw_set_i32 v 0) (vg_definition (pr_globals p1 ! (?h' - 1)))\<rparr>])"
  have w2: "write_global p1 ?h' (\<lambda>v. raw_set_i32 v 0) = Ok p2"
    using write_global_eq [OF here(4) [OF typed1]] by (simp add: p2_def)
  have typed2: "globals_typed p2 self" using globals_typed_write [OF w2] typed1 by blast
  note set1 = global_set_eq [OF here(3,5) [OF typed], unfolded write_global_eq [OF here(3) [OF typed]], folded p1_def]
  note set2 = global_set_eq [OF here(4,6) [OF typed1], unfolded write_global_eq [OF here(4) [OF typed1]], folded p2_def]
  have set: "set_remaining_points p self n = Ok p2"
    using set1 [where f = "\<lambda>v. raw_set_i64 v n", folded p1_def] set2 [where f = "\<lambda>v. raw_set_i32 v 0", folded p2_def]
    by (simp add: set_remaining_points_def here(1) [OF typed] here(2) [OF typed1])
  have apart: "?h - 1 \<noteq> ?h' - 1" using here(5,6) [OF typed] by auto
  have bound: "?h - 1 < length (pr_globals p)" "?h' - 1 < length (pr_globals p)"
    using here(3,4) [OF typed] by (auto simp: ish_valid_def)
  have "raw_i64 (owned_value (vg_definition (pr_globals p2 ! (?h - 1)))) = n"
    "raw_i32 (owned_value (vg_definition (pr_globals p2 ! (?h' - 1)))) = 0"
    using apart bound by (simp_all add: p2_def p1_def)
  then have get: "get_remaining_points p2 self = Ok (Remaining n)"
    using here(5,6) [OF typed2] by (simp add: get_remaining_points_def here(1,2) [OF typed2])
  have "ish_find (pr_globals p2) h = ish_find (pr_globals p) h" if "h \<notin> set (drop ?i (in_globals self))" for h
  proof -
    have len: "length (in_globals self) = ?i + 2"
      using typed transform num by (auto simp: globals_typed_def transform_module_info_eq)
    have "?h \<in> set (drop ?i (in_globals self))" "?h' \<in> set (drop ?i (in_globals self))"
      by (rule nth_in_drop; simp add: len)+
    then have "h \<noteq> ?h" "h \<noteq> ?h'" using that by auto
    with here(3,4) [OF typed] show ?thesis
      by (auto simp: p2_def p1_def ish_find_def ish_valid_def nth_list_update)
  qed
  with set get show ?thesis by blast
qed

text \<open>A module without globals, instantiated, with exhausted points.\<close>

definition example_metered :: VMInstance where
  "example_metered = example_instance\<lparr>in_globals := [2, 1], in_module := (module_new 0)\<lparr>
     mi_globals := [\<lparr>gt_ty = I64, gt_mutability = Var\<rparr>, \<lparr>gt_ty = I32, gt_mutability = Var\<rparr>],
     mi_global_initializers := [GI_I64Const 7, GI_I32Const 0],
     mi_exports := [(''wasmer_metering_remaining_points'', ExGlobal 0),
       (''wasmer_metering_points_exhausted'', ExGlobal 1)]\<rparr>\<rparr>"

definition example_exhausted :: process where
  "example_exhausted = pr_set_globals example_process
     [\<lparr>vg_ty = \<lparr>gt_ty = I32, gt_mutability = Var\<rparr>, vg_definition = Host 1\<rparr>,
      \<lparr>vg_ty = \<lparr>gt_ty = I64, gt_mutability = Var\<rparr>, vg_definition = Host 3\<rparr>]"

theorem metering_points_roundtrip_witness:
  "\<exists>p'. set_remaining_points example_exhausted example_metered 25 = Ok p' \<and>
    get_remaining_points p' example_metered = Ok (Remaining 25)"
proof -
  have transform: "transform_module_info (metering_new 7 (\<lambda>_. 1)) (module_new 0) =
      (Ok ((metering_new 7 (\<lambda>_. 1))\<lparr>me_global_indexes := Some \<lparr>mg_remaining_points = 0, mg_points_exhausted = 1\<rparr>\<rparr>,
        in_module example_metered) :: (_, unit) outcome)"
    by (simp add: transform_module_info_eq metering_new_def module_new_def pm_new_def example_metered_def as_u32_def)
  have typed: "globals_typed example_exhausted example_metered"
    by (simp add: globals_typed_def example_exhausted_def example_metered_def ish_valid_def nth_Cons' less_Suc_eq module_new_def)
  show ?thesis
    using metering_points_roundtrip [OF transform _ typed, of 25] by (auto simp: module_new_def pm_new_def)
qed

end
