(* ===== verification/Fd_List.thy ===== *)
theory Fd_List
  imports Metering
begin

text \<open>
  The list of file descriptors of a process (\<open>lib/wasix/src/fs/fd_list.rs\<close>, with the descriptors of
  \<open>fs/fd.rs\<close> and the counted handles of inodes of \<open>fs/mod.rs\<close>), and the operations of the file system
  that create, duplicate, renumber and close descriptors. The list keeps a hint for its first hole.
  The results are a refinement to a finite map in which a new descriptor takes the lowest free
  number, for all sequences of operations, and that a file stays open as long as a descriptor is on it.
  Flushing a file before its descriptor goes away is input and output and not modelled.
\<close>

section \<open>Inodes and their handles\<close>

text \<open>
  The parts of an inode that descriptors share: the number of open handles, and the resource that
  goes away with the last of them. Files and pipe ends are named by numbers.
\<close>

type_synonym WasiFd = u32

datatype Kind =
    KindFile "nat option"
  | KindSocket
  | KindPipeTx "nat option"
  | KindPipeRx "nat option"
  | KindDuplexPipe
  | KindEpoll
  | KindDir
  | KindRoot
  | KindSymlink
  | KindBuffer
  | KindEventNotifications

record inode =
  ino_open_handles :: i32
  ino_kind :: Kind
  ino_is_preopened :: bool

type_synonym inodes = "nat \<Rightarrow> inode"

definition acquire_handle :: "inodes \<Rightarrow> nat \<Rightarrow> inodes" where
  "acquire_handle ins n = ins(n := (ins n)\<lparr>ino_open_handles := ino_open_handles (ins n) + 1\<rparr>)"

fun close_kind :: "Kind \<Rightarrow> Kind" where
  "close_kind (KindFile (Some h)) = KindFile None"
| "close_kind (KindPipeRx rx) = KindPipeRx None"
| "close_kind (KindPipeTx tx) = KindPipeTx None"
| "close_kind k = k"

definition drop_one_handle :: "inodes \<Rightarrow> nat \<Rightarrow> (inodes, 'e) outcome" where
  "drop_one_handle ins n =
     (let prev_handles = ino_open_handles (ins n);
          ins1 = ins(n := (ins n)\<lparr>ino_open_handles := prev_handles - 1\<rparr>)
      in if 1 <s prev_handles then Ok ins1
         else bind_ok (assert_that (prev_handles = 1)) (\<lambda>_.
           if ino_open_handles (ins1 n) \<noteq> 0 then Ok ins1
           else Ok (ins1(n := (ins1 n)\<lparr>ino_kind := close_kind (ino_kind (ins1 n))\<rparr>))))"

section \<open>Descriptors\<close>

record FdInner =
  fdi_rights :: u64
  fdi_rights_inheriting :: u64
  fdi_flags :: "16 word"
  fdi_offset :: nat
  fdi_fd_flags :: "16 word"

record Fd =
  fd_inner :: FdInner
  fd_open_flags :: "16 word"
  fd_inode :: nat
  fd_is_stdio :: bool

record FdList =
  fl_fds :: "Fd option list"
  fl_first_free :: "usize option"

section \<open>The list\<close>

definition fl_new :: FdList where
  "fl_new = \<lparr>fl_fds = [], fl_first_free = None\<rparr>"

text \<open>\<open>Iterator::position\<close>.\<close>

fun position :: "('a \<Rightarrow> bool) \<Rightarrow> 'a list \<Rightarrow> usize option" where
  "position P [] = None"
| "position P (x # xs) = (if P x then Some 0 else map_option Suc (position P xs))"

definition last_fd :: "FdList \<Rightarrow> WasiFd option" where
  "last_fd self =
     map_option (\<lambda>idx. as_u32 (length (fl_fds self) - idx - 1)) (position (\<lambda>fd. fd \<noteq> None) (rev (fl_fds self)))"

definition next_free_fd :: "FdList \<Rightarrow> (WasiFd, 'e) outcome" where
  "next_free_fd self =
     (case fl_first_free self of
        Some i \<Rightarrow> Ok (as_u32 i)
      | None \<Rightarrow> (case last_fd self of Some i \<Rightarrow> unwrap (checked_add i 1) | None \<Rightarrow> Ok 0))"

definition fl_get :: "FdList \<Rightarrow> WasiFd \<Rightarrow> Fd option" where
  "fl_get self idx = Option.bind (nth_opt (fl_fds self) (unat idx)) (\<lambda>x. x)"

text \<open>\<open>get_mut\<close>, with the use that is made of the reference to the inner part.\<close>

definition fl_get_mut :: "FdList \<Rightarrow> WasiFd \<Rightarrow> (FdInner \<Rightarrow> FdInner) \<Rightarrow> FdList option" where
  "fl_get_mut self idx f =
     map_option (\<lambda>fd. self\<lparr>fl_fds := (fl_fds self)[unat idx := Some (fd\<lparr>fd_inner := f (fd_inner fd)\<rparr>)]\<rparr>)
       (fl_get self idx)"

definition first_free_after :: "FdList \<Rightarrow> WasiFd \<Rightarrow> usize option" where
  "first_free_after self after_or_equal =
     map_option (\<lambda>idx. idx + unat after_or_equal)
       (position (\<lambda>fd. fd = None) (drop (unat after_or_equal) (fl_fds self)))"

definition insert_first_free :: "FdList \<Rightarrow> inodes \<Rightarrow> Fd \<Rightarrow> (WasiFd \<times> FdList \<times> inodes, 'e) outcome" where
  "insert_first_free self ins fd =
     (let ins1 = acquire_handle ins (fd_inode fd) in
      case fl_first_free self of
        Some free \<Rightarrow>
          bind_ok (unwrap (nth_opt (fl_fds self) free)) (\<lambda>slot.
          bind_ok (assert_that (slot = None)) (\<lambda>_.
            let self1 = self\<lparr>fl_fds := (fl_fds self)[free := Some fd]\<rparr> in
            bind_ok (unwrap (checked_add (as_u32 free) 1)) (\<lambda>next.
              Ok (as_u32 free, self1\<lparr>fl_first_free := first_free_after self1 next\<rparr>, ins1))))
      | None \<Rightarrow>
          let fds = fl_fds self @ [Some fd] in
          Ok (as_u32 (length fds - 1), self\<lparr>fl_fds := fds\<rparr>, ins1))"

text \<open>The second half of \<open>insert\<close>, when the slot is known and its previous handle is gone.\<close>

definition fl_put :: "FdList \<Rightarrow> inodes \<Rightarrow> usize \<Rightarrow> Fd \<Rightarrow> (bool \<times> FdList \<times> inodes, 'e) outcome" where
  "fl_put self ins idx fd =
     (let ins1 = acquire_handle ins (fd_inode fd);
          self1 = self\<lparr>fl_fds := (fl_fds self)[idx := Some fd]\<rparr>
      in if fl_first_free self1 = Some idx
         then bind_ok (unwrap (checked_add (as_u32 idx) 1)) (\<lambda>next.
                Ok (True, self1\<lparr>fl_first_free := first_free_after self1 next\<rparr>, ins1))
         else Ok (True, self1, ins1))"

text \<open>\<open>insert\<close> first makes the list long enough, which may create the first hole.\<close>

definition fl_resize :: "FdList \<Rightarrow> usize \<Rightarrow> FdList" where
  "fl_resize self idx =
     (if length (fl_fds self) \<le> idx
      then \<lparr>fl_fds = fl_fds self @ replicate (idx + 1 - length (fl_fds self)) None,
            fl_first_free = (if fl_first_free self = None \<and> length (fl_fds self) < idx
              then Some (length (fl_fds self)) else fl_first_free self)\<rparr>
      else self)"

definition fl_insert ::
  "FdList \<Rightarrow> inodes \<Rightarrow> bool \<Rightarrow> WasiFd \<Rightarrow> Fd \<Rightarrow> (bool \<times> FdList \<times> inodes, 'e) outcome" where
  "fl_insert self ins exclusive idx fd =
     (let idx = unat idx; self1 = fl_resize self idx in
      bind_ok (unwrap (nth_opt (fl_fds self1) idx)) (\<lambda>slot.
        case slot of
          Some prev_fd \<Rightarrow>
            if exclusive then Ok (False, self1, ins)
            else bind_ok (drop_one_handle ins (fd_inode prev_fd)) (\<lambda>ins1. fl_put self1 ins1 idx fd)
        | None \<Rightarrow> fl_put self1 ins idx fd))"

definition insert_first_free_after ::
  "FdList \<Rightarrow> inodes \<Rightarrow> Fd \<Rightarrow> WasiFd \<Rightarrow> (WasiFd \<times> FdList \<times> inodes, 'e) outcome" where
  "insert_first_free_after self ins fd after_or_equal =
     (if length (fl_fds self) < unat after_or_equal then
        bind_ok (fl_insert self ins True after_or_equal fd) (\<lambda>(inserted, self1, ins1).
        bind_ok (assert_that inserted) (\<lambda>_. Ok (after_or_equal, self1, ins1)))
      else
        (case fl_first_free self of
           Some free \<Rightarrow>
             if unat after_or_equal \<le> free then insert_first_free self ins fd
             else
               (let ins1 = acquire_handle ins (fd_inode fd) in
                case first_free_after self after_or_equal of
                  Some free \<Rightarrow> Ok (as_u32 free, self\<lparr>fl_fds := (fl_fds self)[free := Some fd]\<rparr>, ins1)
                | None \<Rightarrow>
                    let fds = fl_fds self @ [Some fd] in
                    Ok (as_u32 (length fds - 1), self\<lparr>fl_fds := fds\<rparr>, ins1))
         | None \<Rightarrow> insert_first_free self ins fd))"

definition fl_remove :: "FdList \<Rightarrow> inodes \<Rightarrow> WasiFd \<Rightarrow> (Fd option \<times> FdList \<times> inodes, 'e) outcome" where
  "fl_remove self ins idx =
     (let idx = unat idx in
      case nth_opt (fl_fds self) idx of
        Some (Some fd) \<Rightarrow>
          let self1 = \<lparr>fl_fds = (fl_fds self)[idx := None],
                fl_first_free = (case fl_first_free self of
                    None \<Rightarrow> Some idx
                  | Some x \<Rightarrow> if idx < x then Some idx else fl_first_free self)\<rparr>
          in bind_ok (drop_one_handle ins (fd_inode fd)) (\<lambda>ins1. Ok (Some fd, self1, ins1))
      | _ \<Rightarrow> Ok (None, self, ins))"

fun drop_handles :: "inodes \<Rightarrow> Fd option list \<Rightarrow> (inodes, 'e) outcome" where
  "drop_handles ins [] = Ok ins"
| "drop_handles ins (None # fds) = drop_handles ins fds"
| "drop_handles ins (Some fd # fds) =
     bind_ok (drop_one_handle ins (fd_inode fd)) (\<lambda>ins1. drop_handles ins1 fds)"

definition fl_clear :: "FdList \<Rightarrow> inodes \<Rightarrow> (FdList \<times> inodes, 'e) outcome" where
  "fl_clear self ins =
     bind_ok (drop_handles ins (fl_fds self)) (\<lambda>ins1. Ok (\<lparr>fl_fds = [], fl_first_free = None\<rparr>, ins1))"

fun acquire_handles :: "inodes \<Rightarrow> Fd option list \<Rightarrow> inodes" where
  "acquire_handles ins [] = ins"
| "acquire_handles ins (None # fds) = acquire_handles ins fds"
| "acquire_handles ins (Some fd # fds) = acquire_handles (acquire_handle ins (fd_inode fd)) fds"

definition fl_clone :: "FdList \<Rightarrow> inodes \<Rightarrow> FdList \<times> inodes" where
  "fl_clone self ins = (self, acquire_handles ins (fl_fds self))"

text \<open>The iterator as the list of its items.\<close>

fun fl_iter_from :: "usize \<Rightarrow> Fd option list \<Rightarrow> (WasiFd \<times> Fd) list" where
  "fl_iter_from idx [] = []"
| "fl_iter_from idx (None # fds) = fl_iter_from (idx + 1) fds"
| "fl_iter_from idx (Some fd # fds) = (as_u32 idx, fd) # fl_iter_from (idx + 1) fds"

definition fl_iter :: "FdList \<Rightarrow> (WasiFd \<times> Fd) list" where
  "fl_iter self = fl_iter_from 0 (fl_fds self)"

definition fl_keys :: "FdList \<Rightarrow> WasiFd list" where
  "fl_keys self = map fst (fl_iter self)"

section \<open>The list as a map with the lowest free descriptor\<close>

lemma position_Some: "position P xs = Some i \<longleftrightarrow> i < length xs \<and> P (xs ! i) \<and> (\<forall>j < i. \<not> P (xs ! j))"
proof (induction xs arbitrary: i)
  case (Cons x xs)
  then show ?case by (cases i) (auto simp: All_less_Suc2)
qed simp

lemma position_None: "position P xs = None \<longleftrightarrow> (\<forall>j < length xs. \<not> P (xs ! j))"
  by (induction xs) (auto simp: All_less_Suc2 nth_Cons split: nat.splits)

lemma position_skip:
  "n \<le> length xs \<Longrightarrow> (\<And>j. j < n \<Longrightarrow> \<not> P (xs ! j)) \<Longrightarrow>
    position P xs = map_option (\<lambda>i. i + n) (position P (drop n xs))"
proof (induction n arbitrary: xs)
  case 0
  then show ?case by (simp add: option.map_ident)
next
  case (Suc n)
  then obtain x ys where xs: "xs = x # ys" by (cases xs) auto
  have "\<not> P x" "n \<le> length ys" using Suc.prems(2) [of 0] Suc.prems(1) xs by auto
  moreover have "position P ys = map_option (\<lambda>i. i + n) (position P (drop n ys))"
  proof (rule Suc.IH)
    show "n \<le> length ys" by fact
    show "\<not> P (ys ! j)" if "j < n" for j using Suc.prems(2) [of "Suc j"] that xs by simp
  qed
  ultimately show ?case by (simp add: xs option.map_comp comp_def)
qed

definition fl_wf :: "FdList \<Rightarrow> bool" where
  "fl_wf self = (position (\<lambda>fd. fd = None) (fl_fds self) = fl_first_free self)"

definition fd_abs :: "FdList \<Rightarrow> nat \<rightharpoonup> Fd" where
  "fd_abs self i = (if i < length (fl_fds self) then fl_fds self ! i else None)"

definition lowest_free :: "(nat \<rightharpoonup> Fd) \<Rightarrow> nat \<Rightarrow> nat \<Rightarrow> bool" where
  "lowest_free m from i = (from \<le> i \<and> m i = None \<and> (\<forall>j. from \<le> j \<and> j < i \<longrightarrow> m j \<noteq> None))"

lemma first_free_Some:
  assumes "fl_wf self" "fl_first_free self = Some free"
  shows "free < length (fl_fds self)" "fl_fds self ! free = None" "lowest_free (fd_abs self) 0 free"
  using assms by (auto simp: fl_wf_def position_Some lowest_free_def fd_abs_def)

lemma first_free_None:
  assumes "fl_wf self" "fl_first_free self = None"
  shows "j < length (fl_fds self) \<Longrightarrow> fl_fds self ! j \<noteq> None" "from \<le> length (fl_fds self) \<Longrightarrow> lowest_free (fd_abs self) from (length (fl_fds self))"
  using assms by (auto simp: fl_wf_def position_None lowest_free_def fd_abs_def)

lemma first_free_after_Some:
  assumes "first_free_after self a = Some i"
  shows "i < length (fl_fds self)" "unat a \<le> i" "lowest_free (fd_abs self) (unat a) i"
proof -
  from assms obtain k where k: "position (\<lambda>fd. fd = None) (drop (unat a) (fl_fds self)) = Some k" "i = k + unat a"
    by (auto simp: first_free_after_def)
  from k show "i < length (fl_fds self)" "unat a \<le> i" by (auto simp: position_Some)
  have "fl_fds self ! j \<noteq> None" if "unat a \<le> j" "j < i" for j
  proof -
    have "j - unat a < k" using that k(2) by simp
    with k(1) have "drop (unat a) (fl_fds self) ! (j - unat a) \<noteq> None" by (simp add: position_Some)
    then show ?thesis using that \<open>i < length (fl_fds self)\<close> by simp
  qed
  with k show "lowest_free (fd_abs self) (unat a) i"
    by (auto simp: position_Some lowest_free_def fd_abs_def add.commute)
qed

lemma first_free_after_None:
  assumes "first_free_after self a = None" "unat a \<le> length (fl_fds self)"
  shows "lowest_free (fd_abs self) (unat a) (length (fl_fds self))"
proof -
  have pos: "\<forall>j < length (fl_fds self) - unat a. drop (unat a) (fl_fds self) ! j \<noteq> None"
    using assms(1) by (simp add: first_free_after_def position_None)
  have "fl_fds self ! j \<noteq> None" if "unat a \<le> j" "j < length (fl_fds self)" for j
    using pos [rule_format, of "j - unat a"] that assms(2) by simp
  then show ?thesis using assms(2) by (auto simp: lowest_free_def fd_abs_def)
qed

text \<open>Filling the lowest hole moves the hint to the next one.\<close>

lemma refill_wf:
  fixes fd :: Fd
  assumes "fl_wf self" "fl_first_free self = Some free" "length (fl_fds self) < 2 ^ 32"
  defines "self1 \<equiv> self\<lparr>fl_fds := (fl_fds self)[free := Some fd]\<rparr>"
  shows "\<exists>next. checked_add (as_u32 free) 1 = Some next \<and> fl_wf (self1\<lparr>fl_first_free := first_free_after self1 next\<rparr>)"
proof -
  note free = first_free_Some [OF assms(1,2)]
  have succ: "checked_add (as_u32 free) 1 = Some (as_u32 (Suc free))" "unat (as_u32 (Suc free)) = Suc free"
    using free(1) assms(3) by (simp_all add: checked_add_def unat_as_u32_small) (simp add: as_u32_def)
  have "(fl_fds self)[free := Some fd] ! j \<noteq> None" if "j < Suc free" for j
    using that free assms(1,2) by (auto simp: fl_wf_def position_Some nth_list_update less_Suc_eq)
  then have "position (\<lambda>fd. fd = None) (fl_fds self1) = first_free_after self1 (as_u32 (Suc free))"
    using position_skip [of "Suc free" "fl_fds self1" "\<lambda>fd. fd = None"] free(1)
    by (auto simp: first_free_after_def self1_def succ(2))
  then show ?thesis using succ(1) by (simp add: fl_wf_def self1_def)
qed

text \<open>What an insertion at a position does to the list.\<close>

definition fl_filled :: "FdList \<Rightarrow> nat \<Rightarrow> Fd \<Rightarrow> FdList \<Rightarrow> bool" where
  "fl_filled self i fd self' =
     (fl_wf self' \<and> fd_abs self' = (fd_abs self)(i \<mapsto> fd) \<and>
      length (fl_fds self') = max (length (fl_fds self)) (Suc i))"

lemma fl_filled_update:
  assumes "i < length (fl_fds self)" "fl_wf self'" "fl_fds self' = (fl_fds self)[i := Some fd]"
  shows "fl_filled self i fd self'"
  using assms by (auto simp: fl_filled_def fd_abs_def fun_eq_iff nth_list_update)

lemma fl_filled_push:
  assumes "fl_wf self" "fl_fds self' = fl_fds self @ [Some fd]" "fl_first_free self' = fl_first_free self"
  shows "fl_filled self (length (fl_fds self)) fd self'"
proof -
  have "position P (xs @ [x]) = position P xs" if "\<not> P x" for P and xs and x :: "Fd option"
    using that by (induction xs) auto
  then show ?thesis using assms by (auto simp: fl_filled_def fl_wf_def fd_abs_def fun_eq_iff nth_append)
qed

lemma insert_first_free_ok:
  assumes "fl_wf self" "length (fl_fds self) < 2 ^ 32"
  shows "\<exists>i self'. insert_first_free self ins fd = Ok (as_u32 i, self', acquire_handle ins (fd_inode fd)) \<and>
    lowest_free (fd_abs self) 0 i \<and> fl_filled self i fd self' \<and> i \<le> length (fl_fds self) \<and>
    (fl_first_free self = Some i \<or> fl_first_free self = None \<and> i = length (fl_fds self))"
proof (cases "fl_first_free self")
  case None
  then show ?thesis
    using first_free_None [OF assms(1) None] fl_filled_push [OF assms(1)]
    by (simp add: insert_first_free_def Let_def)
next
  case (Some free)
  note free = first_free_Some [OF assms(1) Some]
  let ?self1 = "self\<lparr>fl_fds := (fl_fds self)[free := Some fd]\<rparr>"
  obtain n where n: "checked_add (as_u32 free) 1 = Some n"
      "fl_wf (?self1\<lparr>fl_first_free := first_free_after ?self1 n\<rparr>)"
    using refill_wf [OF assms(1) Some assms(2)] by blast
  have "fl_filled self free fd (?self1\<lparr>fl_first_free := first_free_after ?self1 n\<rparr>)"
    using free(1) n(2) by (intro fl_filled_update) simp_all
  then show ?thesis
    using free Some n(1) by (simp add: insert_first_free_def Let_def nth_opt_def)
qed

lemma insert_first_free_after_holes:
  assumes "fl_wf self" "first_free_after self a = Some i" "fl_first_free self = Some free" "free < unat a"
  shows "fl_filled self i fd (self\<lparr>fl_fds := (fl_fds self)[i := Some fd]\<rparr>)"
proof (rule fl_filled_update)
  note after = first_free_after_Some [OF assms(2)]
  show "i < length (fl_fds self)" by (rule after(1))
  have "position (\<lambda>fd. fd = None) ((fl_fds self)[i := Some fd]) = Some free"
    using assms(1,3,4) after(2) unfolding fl_wf_def position_Some by (auto simp: position_Some nth_list_update)
  then show "fl_wf (self\<lparr>fl_fds := (fl_fds self)[i := Some fd]\<rparr>)" using assms(3) by (simp add: fl_wf_def)
qed simp

lemma fl_put_ok:
  assumes "fl_wf self" "length (fl_fds self) < 2 ^ 32" "i < length (fl_fds self)"
  shows "\<exists>self'. fl_put self ins i fd = Ok (True, self', acquire_handle ins (fd_inode fd)) \<and> fl_filled self i fd self'"
proof (cases "fl_first_free self = Some i")
  case True
  let ?self1 = "self\<lparr>fl_fds := (fl_fds self)[i := Some fd]\<rparr>"
  obtain n where n: "checked_add (as_u32 i) 1 = Some n" "fl_wf (?self1\<lparr>fl_first_free := first_free_after ?self1 n\<rparr>)"
    using refill_wf [OF assms(1) True assms(2)] by blast
  have "fl_filled self i fd (?self1\<lparr>fl_first_free := first_free_after ?self1 n\<rparr>)"
    using assms(3) n(2) by (intro fl_filled_update) simp_all
  then show ?thesis using True n(1) by (simp add: fl_put_def Let_def)
next
  case False
  have "position (\<lambda>fd. fd = None) ((fl_fds self)[i := Some fd]) = fl_first_free self"
  proof (cases "fl_first_free self")
    case None
    then show ?thesis using assms(1,3) by (auto simp: fl_wf_def position_None nth_list_update)
  next
    case (Some free)
    then show ?thesis using assms(1,3) False by (auto simp: fl_wf_def position_Some nth_list_update)
  qed
  then have "fl_filled self i fd (self\<lparr>fl_fds := (fl_fds self)[i := Some fd]\<rparr>)"
    using assms(3) by (intro fl_filled_update) (simp_all add: fl_wf_def)
  then show ?thesis using False by (simp add: fl_put_def)
qed

lemma fl_resize_ok:
  assumes "fl_wf self"
  shows "fd_abs (fl_resize self i) = fd_abs self" "length (fl_fds (fl_resize self i)) = max (length (fl_fds self)) (Suc i)"
    and "i = length (fl_fds self) \<and> fl_first_free self = None \<or> fl_wf (fl_resize self i)"
proof -
  show "fd_abs (fl_resize self i) = fd_abs self" "length (fl_fds (fl_resize self i)) = max (length (fl_fds self)) (Suc i)"
    by (auto simp: fl_resize_def fd_abs_def fun_eq_iff nth_append)
  have holes: "position (\<lambda>fd. fd = None) (xs @ replicate (Suc n) None) =
      (case position (\<lambda>fd. fd = None) xs of Some j \<Rightarrow> Some j | None \<Rightarrow> Some (length xs))" for xs :: "Fd option list" and n
    by (induction xs) (auto split: option.splits)
  show "i = length (fl_fds self) \<and> fl_first_free self = None \<or> fl_wf (fl_resize self i)"
    using assms holes [of "fl_fds self" "i - length (fl_fds self)"]
    by (auto simp: fl_wf_def fl_resize_def Suc_diff_le split: option.splits)
qed

lemma fl_put_resized:
  assumes "fl_wf self" "length (fl_fds self) < 2 ^ 32" "Suc i < 2 ^ 32"
  shows "\<exists>self'. fl_put (fl_resize self i) ins i fd = Ok (True, self', acquire_handle ins (fd_inode fd)) \<and> fl_filled self i fd self'"
  using fl_resize_ok(3) [OF assms(1), of i]
proof
  assume wf: "fl_wf (fl_resize self i)"
  note resized = fl_resize_ok(1,2) [OF assms(1), of i]
  have "length (fl_fds (fl_resize self i)) < 2 ^ 32" "i < length (fl_fds (fl_resize self i))"
    using resized assms(2,3) by simp_all
  from fl_put_ok [OF wf this] resized show ?thesis by (auto simp: fl_filled_def max_def)
next
  assume i: "i = length (fl_fds self) \<and> fl_first_free self = None"
  then have "fl_put (fl_resize self i) ins i fd =
      Ok (True, \<lparr>fl_fds = fl_fds self @ [Some fd], fl_first_free = None\<rparr>, acquire_handle ins (fd_inode fd))"
    by (simp add: fl_put_def fl_resize_def)
  with i fl_filled_push [OF assms(1), of "\<lparr>fl_fds = fl_fds self @ [Some fd], fl_first_free = None\<rparr>" fd] show ?thesis by auto
qed

lemma fl_insert_eq:
  "fl_insert self ins exclusive idx fd =
     (case fd_abs self (unat idx) of
        None \<Rightarrow> fl_put (fl_resize self (unat idx)) ins (unat idx) fd
      | Some prev \<Rightarrow>
          if exclusive then Ok (False, self, ins)
          else bind_ok (drop_one_handle ins (fd_inode prev)) (\<lambda>ins1. fl_put (fl_resize self (unat idx)) ins1 (unat idx) fd))"
  by (auto simp: fl_insert_def fl_resize_def fd_abs_def nth_opt_def nth_append Let_def split: option.splits)

lemma insert_first_free_after_ok:
  assumes "fl_wf self" "length (fl_fds self) < 2 ^ 32" "Suc (unat a) < 2 ^ 32"
  shows "\<exists>i self'. insert_first_free_after self ins fd a = Ok (as_u32 i, self', acquire_handle ins (fd_inode fd)) \<and>
    lowest_free (fd_abs self) (unat a) i \<and> fl_filled self i fd self' \<and> i \<le> max (length (fl_fds self)) (unat a)"
proof (cases "length (fl_fds self) < unat a")
  case True
  then have "fd_abs self (unat a) = None" "lowest_free (fd_abs self) (unat a) (unat a)"
    by (auto simp: fd_abs_def lowest_free_def)
  moreover obtain self' where "fl_put (fl_resize self (unat a)) ins (unat a) fd = (Ok (True, self', acquire_handle ins (fd_inode fd)) :: (_, 'a) outcome)"
      "fl_filled self (unat a) fd self'"
    using fl_put_resized [OF assms] by blast
  ultimately show ?thesis using True
    by (auto simp: insert_first_free_after_def fl_insert_eq intro!: exI [of _ "unat a"])
next
  case False
  show ?thesis
  proof (cases "\<exists>free. fl_first_free self = Some free \<and> free < unat a")
    case True
    then obtain free where free: "fl_first_free self = Some free" "free < unat a" by blast
    show ?thesis
    proof (cases "first_free_after self a")
      case None
      then show ?thesis
        using False free first_free_after_None [OF None] fl_filled_push [OF assms(1)]
        by (auto simp: insert_first_free_after_def Let_def intro!: exI [of _ "length (fl_fds self)"])
    next
      case (Some i)
      then show ?thesis
        using False free first_free_after_Some [OF Some] insert_first_free_after_holes [OF assms(1) Some free]
        by (auto simp: insert_first_free_after_def Let_def)
    qed
  next
    case no: False
    then have "insert_first_free_after self ins fd a = (insert_first_free self ins fd :: (_, 'a) outcome)"
      using False by (auto simp: insert_first_free_after_def split: option.splits)
    moreover obtain i self' where i: "insert_first_free self ins fd = (Ok (as_u32 i, self', acquire_handle ins (fd_inode fd)) :: (_, 'a) outcome)"
        "lowest_free (fd_abs self) 0 i" "fl_filled self i fd self'" "i \<le> length (fl_fds self)"
        "fl_first_free self = Some i \<or> fl_first_free self = None \<and> i = length (fl_fds self)"
      using insert_first_free_ok [OF assms(1,2), where ins = ins and fd = fd] by blast
    moreover have "lowest_free (fd_abs self) (unat a) i" using i(2,5) no False by (auto simp: lowest_free_def)
    ultimately show ?thesis using False by auto
  qed
qed

lemma fl_remove_wf:
  assumes "fl_wf self" "i < length (fl_fds self)" "fl_fds self ! i \<noteq> None"
  shows "fl_wf \<lparr>fl_fds = (fl_fds self)[i := None],
    fl_first_free = (case fl_first_free self of None \<Rightarrow> Some i | Some x \<Rightarrow> if i < x then Some i else fl_first_free self)\<rparr>"
proof (cases "fl_first_free self")
  case None
  then show ?thesis using assms by (auto simp: fl_wf_def position_None position_Some nth_list_update)
next
  case (Some x)
  then show ?thesis using assms
    by (cases x i rule: linorder_cases) (auto simp: fl_wf_def position_Some nth_list_update)
qed

section \<open>Counting handles\<close>

definition refs :: "(nat \<rightharpoonup> Fd) \<Rightarrow> nat \<Rightarrow> nat" where
  "refs m n = card {i. \<exists>fd. m i = Some fd \<and> fd_inode fd = n}"

text \<open>
  Every inode counts the descriptors on it and the handles of other lists, with room for \<open>k\<close> more.
\<close>

definition handles_ok :: "nat \<Rightarrow> (nat \<rightharpoonup> Fd) \<Rightarrow> (nat \<Rightarrow> nat) \<Rightarrow> inodes \<Rightarrow> bool" where
  "handles_ok k m others ins =
     (finite (dom m) \<and>
      (\<forall>n. unat (ino_open_handles (ins n)) = refs m n + others n \<and> refs m n + others n + k < 2 ^ 31))"

lemma refs_finite: "finite (dom m) \<Longrightarrow> finite {i. \<exists>fd. m i = Some fd \<and> fd_inode fd = n}"
  by (rule finite_subset) auto

lemma refs_insert:
  assumes "finite (dom m)" "m i = None"
  shows "refs (m(i \<mapsto> fd)) n = refs m n + (if fd_inode fd = n then 1 else 0)"
proof -
  have "{j. \<exists>fd'. (m(i \<mapsto> fd)) j = Some fd' \<and> fd_inode fd' = n} =
      (if fd_inode fd = n then insert i else id) {j. \<exists>fd. m j = Some fd \<and> fd_inode fd = n}"
    using assms(2) by auto
  then show ?thesis using refs_finite [OF assms(1)] assms(2) by (simp add: refs_def)
qed

lemma refs_remove:
  assumes "finite (dom m)" "m i = Some fd"
  shows "refs m n = refs (m(i := None)) n + (if fd_inode fd = n then 1 else 0)"
  using refs_insert [of "m(i := None)" i fd n] assms by (simp add: map_upd_triv)

lemma unat_succ_handles: "unat (w :: i32) < 2 ^ 31 \<Longrightarrow> unat (w + 1) = Suc (unat w)"
  by (simp add: unat_word_ariths)

lemma acquire_handle_ok:
  assumes "handles_ok (Suc k) m others ins" "m i = None"
  shows "handles_ok k (m(i \<mapsto> fd)) others (acquire_handle ins (fd_inode fd))"
proof -
  have m: "finite (dom m)" using assms(1) by (simp add: handles_ok_def)
  have "unat (ino_open_handles (acquire_handle ins (fd_inode fd) n)) = refs (m(i \<mapsto> fd)) n + others n \<and>
      refs (m(i \<mapsto> fd)) n + others n + k < 2 ^ 31" for n
  proof -
    have "unat (ino_open_handles (ins n)) = refs m n + others n" "refs m n + others n + Suc k < 2 ^ 31"
      using assms(1) by (simp_all add: handles_ok_def)
    then show ?thesis
      using refs_insert [OF m assms(2), of fd n] unat_succ_handles [of "ino_open_handles (ins n)"]
      by (auto simp: acquire_handle_def)
  qed
  then show ?thesis using m by (auto simp: handles_ok_def)
qed

text \<open>The count of an inode after a handle is gone, and the resource if it was the last.\<close>

definition dropped :: "inode \<Rightarrow> inode" where
  "dropped v = v\<lparr>ino_open_handles := ino_open_handles v - 1,
     ino_kind := (if ino_open_handles v = 1 then close_kind (ino_kind v) else ino_kind v)\<rparr>"

lemma handles_sless: "unat (w :: i32) < 2 ^ 31 \<Longrightarrow> (1 <s w) = (1 < unat w)"
proof -
  assume w: "unat w < 2 ^ 31"
  have u: "uint w = int (unat w)" by simp
  have "int (unat w) < int (2 ^ 31)" using w by (simp only: of_nat_less_iff)
  then have "uint w < 2 ^ 31" by simp
  moreover have "- (2 ^ 31) \<le> uint w" by (rule order.trans [of _ 0]) simp_all
  ultimately have "sint w = int (unat w)"
    unfolding u [symmetric] using signed_take_bit_int_eq_self [of 31 "uint w"] by (simp add: sint_uint)
  then have "(1 <s w) = (1 < int (unat w))" unfolding word_sless_alt by simp
  then show ?thesis by linarith
qed

lemma drop_one_handle_eq:
  assumes "0 < unat (ino_open_handles (ins n))" "unat (ino_open_handles (ins n)) < 2 ^ 31"
  shows "drop_one_handle ins n = Ok (ins(n := dropped (ins n)))"
proof -
  have one: "unat (ino_open_handles (ins n)) = 1 \<longleftrightarrow> ino_open_handles (ins n) = 1"
    by (simp add: word_unat_eq_iff)
  show ?thesis
  proof (cases "ino_open_handles (ins n) = 1")
    case True
    then show ?thesis by (simp add: drop_one_handle_def dropped_def Let_def)
  next
    case False
    then have "1 <s ino_open_handles (ins n)" using one assms by (subst handles_sless) auto
    then show ?thesis using False by (simp add: drop_one_handle_def dropped_def Let_def)
  qed
qed

lemma unat_pred_handles: "0 < unat (w :: i32) \<Longrightarrow> unat (w - 1) = unat w - 1"
  by (metis One_nat_def Suc_leI unat_1 unat_sub word_le_nat_alt)

lemma drop_one_handle_ok:
  assumes "handles_ok k m others ins" "m i = Some fd"
  shows "drop_one_handle ins (fd_inode fd) = Ok (ins(fd_inode fd := dropped (ins (fd_inode fd))))"
    and "handles_ok k (m(i := None)) others (ins(fd_inode fd := dropped (ins (fd_inode fd))))"
proof -
  have m: "finite (dom m)" using assms(1) by (simp add: handles_ok_def)
  note refs = refs_remove [OF m assms(2)]
  have ins: "unat (ino_open_handles (ins n)) = refs m n + others n" "refs m n + others n + k < 2 ^ 31" for n
    using assms(1) by (simp_all add: handles_ok_def)
  show "drop_one_handle ins (fd_inode fd) = Ok (ins(fd_inode fd := dropped (ins (fd_inode fd))))"
    by (rule drop_one_handle_eq) (use ins [of "fd_inode fd"] refs [of "fd_inode fd"] in simp_all)
  have "unat (ino_open_handles ((ins(fd_inode fd := dropped (ins (fd_inode fd)))) n)) = refs (m(i := None)) n + others n \<and>
      refs (m(i := None)) n + others n + k < 2 ^ 31" for n
    using ins [of n] refs [of n] unat_pred_handles [of "ino_open_handles (ins n)"] by (auto simp: dropped_def)
  then show "handles_ok k (m(i := None)) others (ins(fd_inode fd := dropped (ins (fd_inode fd))))"
    using m by (auto simp: handles_ok_def)
qed

definition slots_on :: "Fd option list \<Rightarrow> nat \<Rightarrow> nat" where
  "slots_on fds n = length (filter (\<lambda>x. \<exists>fd. x = Some fd \<and> fd_inode fd = n) fds)"

lemma refs_slots: "refs (fd_abs self) n = slots_on (fl_fds self) n"
  unfolding refs_def slots_on_def length_filter_conv_card
  by (rule arg_cong [where f = card]) (auto simp: fd_abs_def split: if_splits)

lemma handles_slots:
  assumes "handles_ok k (fd_abs self) others ins"
  shows "unat (ino_open_handles (ins n)) = slots_on (fl_fds self) n + others n \<and> slots_on (fl_fds self) n + others n < 2 ^ 31"
    and "slots_on (fl_fds self) n + others n + k < 2 ^ 31"
proof -
  show less: "slots_on (fl_fds self) n + others n + k < 2 ^ 31" using assms by (simp add: handles_ok_def refs_slots)
  show "unat (ino_open_handles (ins n)) = slots_on (fl_fds self) n + others n \<and> slots_on (fl_fds self) n + others n < 2 ^ 31"
    using assms add_lessD1 [OF less] by (simp add: handles_ok_def refs_slots)
qed

lemma drop_handles_ok:
  assumes "\<And>n. unat (ino_open_handles (ins n)) = slots_on fds n + others n \<and> slots_on fds n + others n < 2 ^ 31"
  shows "\<exists>ins'. drop_handles ins fds = (Ok ins' :: (_, 'e) outcome) \<and> (\<forall>n. unat (ino_open_handles (ins' n)) = others n \<and>
    ino_kind (ins' n) = (if 0 < slots_on fds n \<and> others n = 0 then close_kind (ino_kind (ins n)) else ino_kind (ins n)))"
  using assms
proof (induction fds arbitrary: ins)
  case Nil
  then show ?case by (simp add: slots_on_def)
next
  case (Cons slot fds)
  show ?case
  proof (cases slot)
    case None
    then show ?thesis using Cons by (simp add: slots_on_def)
  next
    case (Some fd)
    let ?n = "fd_inode fd"
    let ?ins1 = "ins(?n := dropped (ins ?n))"
    have slots: "slots_on (slot # fds) n = slots_on fds n + (if n = ?n then 1 else 0)" for n
      using Some by (simp add: slots_on_def)
    have drop: "drop_one_handle ins ?n = (Ok ?ins1 :: (_, 'e) outcome)"
      by (rule drop_one_handle_eq) (use Cons.prems [of ?n] slots [of ?n] in simp_all)
    have "unat (ino_open_handles (?ins1 n)) = slots_on fds n + others n \<and> slots_on fds n + others n < 2 ^ 31" for n
      using Cons.prems [of n] slots [of n] unat_pred_handles [of "ino_open_handles (ins n)"]
      by (auto simp: dropped_def)
    from Cons.IH [OF this] obtain ins' where ins': "drop_handles ?ins1 fds = (Ok ins' :: (_, 'e) outcome)"
      "\<And>n. unat (ino_open_handles (ins' n)) = others n \<and>
        ino_kind (ins' n) = (if 0 < slots_on fds n \<and> others n = 0 then close_kind (ino_kind (?ins1 n)) else ino_kind (?ins1 n))"
      by blast
    have one: "ino_open_handles (ins ?n) = 1 \<longleftrightarrow> slots_on fds ?n + others ?n = 0"
      using Cons.prems [of ?n] slots [of ?n] by (simp add: word_unat_eq_iff)
    have "ino_kind (ins' n) =
        (if 0 < slots_on (slot # fds) n \<and> others n = 0 then close_kind (ino_kind (ins n)) else ino_kind (ins n))" for n
      using ins'(2) [of n] one by (auto simp: slots dropped_def)
    then show ?thesis using drop ins' Some by auto
  qed
qed

section \<open>Sequences of operations\<close>

text \<open>
  An implementation of operations by functions on a state that simulates a specification on an
  abstract state, as long as its invariant leaves room for them. Then every sequence of operations
  runs, and its results are possible results of the specification.
\<close>

fun run_each :: "('op \<Rightarrow> 's \<Rightarrow> ('r \<times> 's, 'e) outcome) \<Rightarrow> 'op list \<Rightarrow> 's \<Rightarrow> ('r list \<times> 's, 'e) outcome" where
  "run_each exec [] s = Ok ([], s)"
| "run_each exec (op # ops) s =
     bind_ok (exec op s) (\<lambda>(r, s'). bind_ok (run_each exec ops s') (\<lambda>(rs, s''). Ok (r # rs, s'')))"

fun traces :: "('op \<Rightarrow> 'a \<Rightarrow> 'r \<Rightarrow> 'a \<Rightarrow> bool) \<Rightarrow> 'op list \<Rightarrow> 'a \<Rightarrow> 'r list \<Rightarrow> 'a \<Rightarrow> bool" where
  "traces spec [] m rs m' = (rs = [] \<and> m' = m)"
| "traces spec (op # ops) m rs m' = (\<exists>r rs' m1. rs = r # rs' \<and> spec op m r m1 \<and> traces spec ops m1 rs' m')"

locale operation_refinement =
  fixes exec :: "'op \<Rightarrow> 's \<Rightarrow> ('r \<times> 's, 'e) outcome" and inv :: "nat \<Rightarrow> 's \<Rightarrow> bool"
    and abs :: "'s \<Rightarrow> 'a" and spec :: "'op \<Rightarrow> 'a \<Rightarrow> 'r \<Rightarrow> 'a \<Rightarrow> bool" and allowed :: "'op \<Rightarrow> bool"
  assumes step: "inv (Suc k) s \<Longrightarrow> allowed op \<Longrightarrow>
    \<exists>r s'. exec op s = Ok (r, s') \<and> spec op (abs s) r (abs s') \<and> inv k s'"
begin

lemma runs:
  "inv (length ops + k) s \<Longrightarrow> list_all allowed ops \<Longrightarrow>
    \<exists>rs s'. run_each exec ops s = Ok (rs, s') \<and> traces spec ops (abs s) rs (abs s') \<and> inv k s'"
proof (induction ops arbitrary: s)
  case (Cons op ops)
  then obtain r s1 where s1: "exec op s = Ok (r, s1)" "spec op (abs s) r (abs s1)" "inv (length ops + k) s1"
    using step [of "length ops + k" s op] by auto
  from Cons.IH [OF s1(3)] Cons.prems(2) s1(1,2) show ?case by fastforce
qed simp

end

datatype fd_op =
    InsertFirst Fd
  | InsertAfter Fd WasiFd
  | InsertAt bool WasiFd Fd
  | RemoveAt WasiFd
  | ClearAll

datatype fd_result = GotFd WasiFd | Inserted bool | Removed "Fd option" | Cleared

fun fd_exec :: "fd_op \<Rightarrow> FdList \<times> inodes \<Rightarrow> (fd_result \<times> FdList \<times> inodes, 'e) outcome" where
  "fd_exec (InsertFirst fd) (self, ins) = bind_ok (insert_first_free self ins fd) (\<lambda>(r, s). Ok (GotFd r, s))"
| "fd_exec (InsertAfter fd a) (self, ins) = bind_ok (insert_first_free_after self ins fd a) (\<lambda>(r, s). Ok (GotFd r, s))"
| "fd_exec (InsertAt ex idx fd) (self, ins) = bind_ok (fl_insert self ins ex idx fd) (\<lambda>(r, s). Ok (Inserted r, s))"
| "fd_exec (RemoveAt idx) (self, ins) = bind_ok (fl_remove self ins idx) (\<lambda>(r, s). Ok (Removed r, s))"
| "fd_exec ClearAll (self, ins) = bind_ok (fl_clear self ins) (\<lambda>s. Ok (Cleared, s))"

text \<open>A table of descriptors as POSIX has it: a finite map, with the lowest free number for a new one.\<close>

fun fd_spec :: "fd_op \<Rightarrow> (nat \<rightharpoonup> Fd) \<Rightarrow> fd_result \<Rightarrow> (nat \<rightharpoonup> Fd) \<Rightarrow> bool" where
  "fd_spec (InsertFirst fd) m r m' = (\<exists>i. r = GotFd i \<and> lowest_free m 0 (unat i) \<and> m' = m(unat i \<mapsto> fd))"
| "fd_spec (InsertAfter fd a) m r m' =
     (\<exists>i. r = GotFd i \<and> lowest_free m (unat a) (unat i) \<and> m' = m(unat i \<mapsto> fd))"
| "fd_spec (InsertAt ex idx fd) m r m' =
     (if ex \<and> m (unat idx) \<noteq> None then r = Inserted False \<and> m' = m
      else r = Inserted True \<and> m' = m(unat idx \<mapsto> fd))"
| "fd_spec (RemoveAt idx) m r m' = (r = Removed (m (unat idx)) \<and> m' = m(unat idx := None))"
| "fd_spec ClearAll m r m' = (r = Cleared \<and> m' = Map.empty)"

fun fd_below :: "nat \<Rightarrow> fd_op \<Rightarrow> bool" where
  "fd_below b (InsertAfter fd a) = (unat a \<le> b)"
| "fd_below b (InsertAt ex idx fd) = (unat idx \<le> b)"
| "fd_below b _ = True"

fun fd_inv :: "nat \<Rightarrow> (nat \<Rightarrow> nat) \<Rightarrow> nat \<Rightarrow> FdList \<times> inodes \<Rightarrow> bool" where
  "fd_inv b others k (self, ins) =
     (fl_wf self \<and> length (fl_fds self) + k < 2 ^ 32 \<and> b + k < 2 ^ 32 \<and> handles_ok k (fd_abs self) others ins)"

lemma handles_ok_less: "handles_ok (Suc k) m others ins \<Longrightarrow> handles_ok k m others ins"
  by (auto simp: handles_ok_def Suc_lessD)

lemma fl_filled_inv:
  assumes "fl_filled self i fd self'" "fd_abs self i = None" "i \<le> max (length (fl_fds self)) b"
    and "length (fl_fds self) + Suc k < 2 ^ 32" "b + Suc k < 2 ^ 32" "handles_ok (Suc k) (fd_abs self) others ins"
  shows "fd_inv b others k (self', acquire_handle ins (fd_inode fd))"
  using assms acquire_handle_ok [OF assms(6,2), of fd] by (auto simp: fl_filled_def max_def split: if_splits)

lemma fd_exec_insert_at:
  assumes inv: "fd_inv b others (Suc k) (self, ins)" and idx: "unat idx \<le> b"
  shows "\<exists>r s'. fd_exec (InsertAt ex idx fd) (self, ins) = (Ok (r, s') :: (_, 'e) outcome) \<and>
    fd_spec (InsertAt ex idx fd) (fd_abs self) r (fd_abs (fst s')) \<and> fd_inv b others k s'"
proof -
  have wf: "fl_wf self" "length (fl_fds self) < 2 ^ 32" "Suc (unat idx) < 2 ^ 32"
    and h: "handles_ok (Suc k) (fd_abs self) others ins"
    using inv idx by simp_all
  have put: "\<exists>self'. fl_put (fl_resize self (unat idx)) ins1 (unat idx) fd =
      (Ok (True, self', acquire_handle ins1 (fd_inode fd)) :: (_, 'e) outcome) \<and> fl_filled self (unat idx) fd self'" for ins1
    by (rule fl_put_resized [OF wf])
  show ?thesis
  proof (cases "fd_abs self (unat idx)")
    case None
    with put [of ins] obtain self' where self': "fl_insert self ins ex idx fd =
        (Ok (True, self', acquire_handle ins (fd_inode fd)) :: (_, 'e) outcome)" "fl_filled self (unat idx) fd self'"
      by (auto simp: fl_insert_eq)
    with fl_filled_inv [OF self'(2) None, of b k others ins] inv idx None show ?thesis
      by (auto simp: fl_filled_def max_def)
  next
    case (Some prev)
    show ?thesis
    proof (cases ex)
      case True
      with Some inv handles_ok_less [OF h] show ?thesis by (auto simp: fl_insert_eq)
    next
      case False
      let ?ins1 = "ins(fd_inode prev := dropped (ins (fd_inode prev)))"
      note drop = drop_one_handle_ok [OF h Some]
      obtain self' where self': "fl_put (fl_resize self (unat idx)) ?ins1 (unat idx) fd =
          (Ok (True, self', acquire_handle ?ins1 (fd_inode fd)) :: (_, 'e) outcome)" "fl_filled self (unat idx) fd self'"
        using put [of ?ins1] by blast
      have "handles_ok k ((fd_abs self)(unat idx := None, unat idx \<mapsto> fd)) others (acquire_handle ?ins1 (fd_inode fd))"
        by (rule acquire_handle_ok [OF drop(2)]) simp
      then show ?thesis
        using self' inv idx False Some by (auto simp: fl_insert_eq fl_filled_def max_def drop(1))
    qed
  qed
qed

lemma fd_exec_remove:
  assumes inv: "fd_inv b others (Suc k) (self, ins)"
  shows "\<exists>r s'. fd_exec (RemoveAt idx) (self, ins) = (Ok (r, s') :: (_, 'e) outcome) \<and>
    fd_spec (RemoveAt idx) (fd_abs self) r (fd_abs (fst s')) \<and> fd_inv b others k s'"
proof (cases "fd_abs self (unat idx)")
  case None
  then have "fl_remove self ins idx = (Ok (None, self, ins) :: (_, 'e) outcome)"
    by (auto simp: fl_remove_def fd_abs_def nth_opt_def split: if_splits)
  moreover have "fd_inv b others k (self, ins)" using inv handles_ok_less by auto
  ultimately show ?thesis using None by (auto simp: fun_upd_idem)
next
  case (Some fd)
  then have i: "unat idx < length (fl_fds self)" "fl_fds self ! unat idx = Some fd"
    by (auto simp: fd_abs_def split: if_splits)
  define self1 where "self1 = \<lparr>fl_fds = (fl_fds self)[unat idx := None],
    fl_first_free = (case fl_first_free self of None \<Rightarrow> Some (unat idx) | Some x \<Rightarrow> if unat idx < x then Some (unat idx) else fl_first_free self)\<rparr>"
  have h: "handles_ok (Suc k) (fd_abs self) others ins" "fl_wf self" using inv by simp_all
  note drop = drop_one_handle_ok [OF h(1) Some]
  have "fl_remove self ins idx = (Ok (Some fd, self1, ins(fd_inode fd := dropped (ins (fd_inode fd)))) :: (_, 'e) outcome)"
    using i by (simp add: fl_remove_def nth_opt_def self1_def Let_def drop(1))
  moreover have abs: "fd_abs self1 = (fd_abs self)(unat idx := None)"
    by (auto simp: fd_abs_def self1_def fun_eq_iff nth_list_update)
  moreover have "fl_wf self1" using fl_remove_wf [OF h(2) i(1)] i(2) by (simp add: self1_def)
  moreover have "length (fl_fds self1) = length (fl_fds self)" by (simp add: self1_def)
  ultimately show ?thesis using inv Some handles_ok_less [OF drop(2)] by simp
qed

lemma fd_exec_clear:
  assumes inv: "fd_inv b others (Suc k) (self, ins)"
  shows "\<exists>r s'. fd_exec ClearAll (self, ins) = (Ok (r, s') :: (_, 'e) outcome) \<and>
    fd_spec ClearAll (fd_abs self) r (fd_abs (fst s')) \<and> fd_inv b others k s'"
proof -
  have h: "handles_ok (Suc k) (fd_abs self) others ins" using inv by simp
  from drop_handles_ok [OF handles_slots(1) [OF h]] obtain ins' where ins': "drop_handles ins (fl_fds self) = (Ok ins' :: (_, 'e) outcome)"
    "\<And>n. unat (ino_open_handles (ins' n)) = others n" by blast
  let ?self = "\<lparr>fl_fds = [], fl_first_free = None\<rparr>"
  have abs: "fd_abs ?self = Map.empty" by (auto simp: fd_abs_def)
  have "others n + k < 2 ^ 31" for n using handles_slots(2) [OF h, of n] by linarith
  then have "handles_ok k (fd_abs ?self) others ins'" using ins'(2) by (simp add: abs handles_ok_def refs_def)
  then show ?thesis using ins'(1) inv by (auto simp: fl_clear_def abs fl_wf_def)
qed

lemma fd_exec_step:
  assumes inv: "fd_inv b others (Suc k) s" and below: "fd_below b op"
  shows "\<exists>r s'. fd_exec op s = (Ok (r, s') :: (_, 'e) outcome) \<and> fd_spec op (fd_abs (fst s)) r (fd_abs (fst s')) \<and> fd_inv b others k s'"
proof -
  obtain self ins where s: "s = (self, ins)" by (cases s)
  have wf: "fl_wf self" "length (fl_fds self) < 2 ^ 32" "b < 2 ^ 32 - 1" using inv s by simp_all
  show ?thesis
  proof (cases op)
    case (InsertFirst fd)
    obtain i self' where i: "insert_first_free self ins fd = (Ok (as_u32 i, self', acquire_handle ins (fd_inode fd)) :: (_, 'e) outcome)"
        "lowest_free (fd_abs self) 0 i" "fl_filled self i fd self'" "i \<le> length (fl_fds self)"
      using insert_first_free_ok [OF wf(1,2), where ins = ins and fd = fd] by blast
    moreover have "fd_inv b others k (self', acquire_handle ins (fd_inode fd))"
      by (rule fl_filled_inv [OF i(3)]) (use i inv s in \<open>auto simp: lowest_free_def\<close>)
    ultimately show ?thesis using wf(2) s InsertFirst by (auto simp: unat_as_u32_small fl_filled_def)
  next
    case (InsertAfter fd a)
    have a: "Suc (unat a) < 2 ^ 32" "unat a \<le> b" using below InsertAfter wf(3) by simp_all
    obtain i self' where i: "insert_first_free_after self ins fd a =
          (Ok (as_u32 i, self', acquire_handle ins (fd_inode fd)) :: (_, 'e) outcome)"
        "lowest_free (fd_abs self) (unat a) i" "fl_filled self i fd self'" "i \<le> max (length (fl_fds self)) (unat a)"
      using insert_first_free_after_ok [OF wf(1,2) a(1), where ins = ins and fd = fd] by blast
    moreover have "fd_inv b others k (self', acquire_handle ins (fd_inode fd))"
      by (rule fl_filled_inv [OF i(3)]) (use i inv s a in \<open>auto simp: lowest_free_def max_def split: if_splits\<close>)
    moreover have "i < 2 ^ 32" using i(4) wf(2) a(1) by simp
    ultimately show ?thesis using s InsertAfter by (auto simp: unat_as_u32_small fl_filled_def)
  next
    case (InsertAt ex idx fd)
    then show ?thesis using fd_exec_insert_at [of b others k self ins idx ex fd] inv below s by simp
  next
    case (RemoveAt idx)
    then show ?thesis using fd_exec_remove inv s by simp
  next
    case ClearAll
    then show ?thesis using fd_exec_clear inv s by simp
  qed
qed

interpretation fdl: operation_refinement fd_exec "fd_inv b others" "\<lambda>s. fd_abs (fst s)" fd_spec "fd_below b" for b others
  by unfold_locales (rule fd_exec_step)

text \<open>
  C22: A list of descriptors behaves as a POSIX table of descriptors. Any sequence of insertions (at
  the first free number, at the first free number from a bound, at a given number), removals and clearing runs without
  panic, with the results of a finite map in which a new descriptor takes the lowest free
  number. The hint for the first hole is exact throughout, and at the end every inode counts
  exactly the descriptors on it and the handles that others hold.
\<close>

theorem fd_list_refines:
  assumes "fl_wf self" and "handles_ok (length ops) (fd_abs self) others ins" and "list_all (fd_below b) ops"
    and "length (fl_fds self) + length ops < 2 ^ 32" and "b + length ops < 2 ^ 32"
  shows "\<exists>rs self' ins'. run_each fd_exec ops (self, ins) = (Ok (rs, self', ins') :: (_, 'e) outcome) \<and>
    traces fd_spec ops (fd_abs self) rs (fd_abs self') \<and>
    fl_first_free self' = position (\<lambda>fd. fd = None) (fl_fds self') \<and>
    (\<forall>n. unat (ino_open_handles (ins' n)) = refs (fd_abs self') n + others n)"
proof -
  have "\<exists>rs s'. run_each fd_exec ops (self, ins) = (Ok (rs, s') :: (_, 'e) outcome) \<and>
      traces fd_spec ops (fd_abs (fst (self, ins))) rs (fd_abs (fst s')) \<and> fd_inv b others 0 s'"
    by (rule fdl.runs) (use assms in simp_all)
  then show ?thesis by (auto simp: fl_wf_def handles_ok_def)
qed

definition example_fd :: "nat \<Rightarrow> Fd" where
  "example_fd n = \<lparr>fd_inner = \<lparr>fdi_rights = 64, fdi_rights_inheriting = 0, fdi_flags = 0, fdi_offset = n,
     fdi_fd_flags = 0\<rparr>, fd_open_flags = 0, fd_inode = n, fd_is_stdio = False\<rparr>"

definition example_inodes :: inodes where
  "example_inodes = (\<lambda>n. \<lparr>ino_open_handles = 0, ino_kind = KindFile (Some n), ino_is_preopened = False\<rparr>)"

definition example_ops :: "fd_op list" where
  "example_ops = [InsertFirst (example_fd 7), InsertAt True 3 (example_fd 8), InsertAfter (example_fd 7) 2,
     RemoveAt 0, InsertFirst (example_fd 9)]"

theorem fd_list_refines_witness:
  "\<exists>rs self' ins'. run_each fd_exec example_ops (fl_new, example_inodes) = (Ok (rs, self', ins') :: (_, unit) outcome) \<and>
     traces fd_spec example_ops Map.empty rs (fd_abs self') \<and>
     (\<forall>n. unat (ino_open_handles (ins' n)) = refs (fd_abs self') n)"
proof -
  have new: "fl_wf fl_new" "fd_abs fl_new = Map.empty" "length (fl_fds fl_new) = 0"
    by (auto simp: fl_wf_def fl_new_def fd_abs_def)
  have "handles_ok (length example_ops) (fd_abs fl_new) (\<lambda>_. 0) example_inodes"
    by (simp add: new handles_ok_def refs_def example_inodes_def example_ops_def)
  moreover have "list_all (fd_below 3) example_ops" "length (fl_fds fl_new) + length example_ops < 2 ^ 32"
      "3 + length example_ops < 2 ^ 32"
    by (simp_all add: new example_ops_def)
  ultimately show ?thesis using fd_list_refines [OF new(1)] unfolding new(2) by fastforce
qed

section \<open>Resources go with the last handle\<close>

fun is_open :: "Kind \<Rightarrow> bool" where
  "is_open (KindFile h) = (h \<noteq> None)"
| "is_open (KindPipeRx rx) = (rx \<noteq> None)"
| "is_open (KindPipeTx tx) = (tx \<noteq> None)"
| "is_open _ = True"

text \<open>The inodes whose last handle an operation drops.\<close>

fun released :: "fd_op \<Rightarrow> (nat \<rightharpoonup> Fd) \<Rightarrow> (nat \<Rightarrow> nat) \<Rightarrow> nat \<Rightarrow> bool" where
  "released (RemoveAt idx) m others n =
     (\<exists>fd. m (unat idx) = Some fd \<and> fd_inode fd = n \<and> refs m n + others n = 1)"
| "released (InsertAt ex idx fd') m others n =
     (\<not> ex \<and> (\<exists>fd. m (unat idx) = Some fd \<and> fd_inode fd = n \<and> refs m n + others n = 1))"
| "released ClearAll m others n = (0 < refs m n \<and> others n = 0)"
| "released _ m others n = False"

fun inserts :: "fd_op \<Rightarrow> Fd option" where
  "inserts (InsertFirst fd) = Some fd"
| "inserts (InsertAfter fd a) = Some fd"
| "inserts (InsertAt ex idx fd) = Some fd"
| "inserts _ = None"

lemma acquire_kind [simp]: "ino_kind (acquire_handle ins n k) = ino_kind (ins k)"
  by (simp add: acquire_handle_def)

lemma fl_put_kind: "fl_put self ins i fd = Ok (r, self', ins') \<Longrightarrow> ino_kind (ins' n) = ino_kind (ins n)"
  by (auto simp: fl_put_def Let_def outcome_simps split: if_splits)

lemma insert_first_free_kind:
  "insert_first_free self ins fd = Ok (r, self', ins') \<Longrightarrow> ino_kind (ins' n) = ino_kind (ins n)"
  by (auto simp: insert_first_free_def Let_def outcome_simps split: option.splits)

lemma insert_first_free_after_kind:
  assumes "insert_first_free_after self ins fd a = Ok (r, self', ins')"
  shows "ino_kind (ins' n) = ino_kind (ins n)"
proof (cases "length (fl_fds self) < unat a")
  case True
  then have "fd_abs self (unat a) = None" by (simp add: fd_abs_def)
  with assms True show ?thesis
    by (auto simp: insert_first_free_after_def fl_insert_eq outcome_simps dest: fl_put_kind)
next
  case False
  with assms show ?thesis
    by (auto simp: insert_first_free_after_def Let_def dest: insert_first_free_kind split: option.splits if_splits)
qed

lemma fd_exec_kinds:
  assumes inv: "fd_inv b others (Suc k) (self, ins)" and exec: "fd_exec op (self, ins) = (Ok (r, self', ins') :: (_, 'e) outcome)"
  shows "ino_kind (ins' n) =
    (if released op (fd_abs self) others n then close_kind (ino_kind (ins n)) else ino_kind (ins n))"
proof -
  have h: "handles_ok (Suc k) (fd_abs self) others ins" using inv by simp
  have count: "ino_open_handles (ins n) = 1 \<longleftrightarrow> refs (fd_abs self) n + others n = 1" for n
    using h by (simp add: handles_ok_def word_unat_eq_iff)
  have dropped_kind: "ino_kind ((ins(fd_inode fd := dropped (ins (fd_inode fd)))) n) =
      (if fd_inode fd = n \<and> refs (fd_abs self) n + others n = 1 then close_kind (ino_kind (ins n)) else ino_kind (ins n))" for fd
    by (auto simp: dropped_def count)
  show ?thesis
  proof (cases op)
    case (InsertFirst fd)
    then show ?thesis using exec by (auto simp: outcome_simps dest: insert_first_free_kind)
  next
    case (InsertAfter fd a)
    then show ?thesis using exec by (auto simp: outcome_simps dest: insert_first_free_after_kind)
  next
    case (InsertAt ex idx fd)
    show ?thesis
    proof (cases "ex \<or> fd_abs self (unat idx) = None")
      case True
      then show ?thesis using exec InsertAt
        by (auto simp: fl_insert_eq outcome_simps dest: fl_put_kind split: option.splits)
    next
      case False
      then obtain prev where prev: "fd_abs self (unat idx) = Some prev" "\<not> ex" by auto
      have "fl_put (fl_resize self (unat idx)) (ins(fd_inode prev := dropped (ins (fd_inode prev)))) (unat idx) fd =
          (Ok (r', self', ins') :: (_, 'e) outcome)" if "r = Inserted r'" for r'
        using exec InsertAt prev that by (auto simp: fl_insert_eq drop_one_handle_ok(1) [OF h prev(1)] outcome_simps)
      moreover obtain r' where "r = Inserted r'" using exec InsertAt by (auto simp: outcome_simps)
      ultimately show ?thesis using fl_put_kind dropped_kind [of prev] prev InsertAt by fastforce
    qed
  next
    case (RemoveAt idx)
    show ?thesis
    proof (cases "fd_abs self (unat idx)")
      case None
      then have "fl_remove self ins idx = (Ok (None, self, ins) :: (_, 'e) outcome)"
        by (auto simp: fl_remove_def fd_abs_def nth_opt_def split: if_splits)
      then show ?thesis using exec RemoveAt None by simp
    next
      case (Some fd)
      then have i: "nth_opt (fl_fds self) (unat idx) = Some (Some fd)"
        by (auto simp: fd_abs_def nth_opt_def split: if_splits)
      then have "ins' = ins(fd_inode fd := dropped (ins (fd_inode fd)))"
        using exec RemoveAt by (auto simp: fl_remove_def drop_one_handle_ok(1) [OF h Some] Let_def)
      then show ?thesis using dropped_kind [of fd] RemoveAt Some by auto
    qed
  next
    case ClearAll
    from drop_handles_ok [OF handles_slots(1) [OF h]] obtain ins1 where "drop_handles ins (fl_fds self) = (Ok ins1 :: (_, 'e) outcome)"
      "\<forall>n. ino_kind (ins1 n) = (if 0 < slots_on (fl_fds self) n \<and> others n = 0 then close_kind (ino_kind (ins n)) else ino_kind (ins n))"
      by blast
    then show ?thesis using exec ClearAll by (simp add: fl_clear_def refs_slots)
  qed
qed

lemma refs_pos: "finite (dom m) \<Longrightarrow> 0 < refs m n \<longleftrightarrow> (\<exists>i fd. m i = Some fd \<and> fd_inode fd = n)"
  using refs_finite [of m n] by (auto simp: refs_def card_gt_0_iff)

text \<open>Replacing a descriptor by one on the same inode, when it holds the only handle.\<close>

fun replaces_itself :: "fd_op \<Rightarrow> (nat \<rightharpoonup> Fd) \<Rightarrow> (nat \<Rightarrow> nat) \<Rightarrow> bool" where
  "replaces_itself (InsertAt ex idx fd) m others =
     (\<not> ex \<and> (\<exists>prev. m (unat idx) = Some prev \<and> fd_inode prev = fd_inode fd) \<and>
      refs m (fd_inode fd) + others (fd_inode fd) = 1)"
| "replaces_itself _ m others = False"

lemma refs_replace:
  assumes "finite (dom m)" "m i = Some prev"
  shows "refs (m(i \<mapsto> fd)) n + (if fd_inode prev = n then 1 else 0) = refs m n + (if fd_inode fd = n then 1 else 0)"
  using refs_insert [of "m(i := None)" i fd n] refs_remove [OF assms, of n] assms(1) by simp

lemma spec_refs:
  assumes m: "finite (dom m)" and spec: "fd_spec op m r m'" and other: "\<not> replaces_itself op m others"
  shows "(0 < refs m' n + others n \<longrightarrow> \<not> released op m others n \<and>
      (0 < refs m n + others n \<or> map_option fd_inode (inserts op) = Some n)) \<and>
    (0 < refs m n + others n \<and> refs m' n + others n = 0 \<longrightarrow> released op m others n)"
proof (cases op)
  case (InsertFirst fd)
  then show ?thesis using spec refs_insert [OF m, of _ fd n] by (auto simp: lowest_free_def)
next
  case (InsertAfter fd a)
  then show ?thesis using spec refs_insert [OF m, of _ fd n] by (auto simp: lowest_free_def)
next
  case (InsertAt ex idx fd)
  show ?thesis
  proof (cases "m (unat idx)")
    case None
    then show ?thesis using InsertAt spec refs_insert [OF m None, of fd n] by auto
  next
    case (Some prev)
    then show ?thesis using InsertAt spec other refs_replace [OF m Some, of fd n] refs_pos [OF m, of n]
      by (auto split: if_splits)
  qed
next
  case (RemoveAt idx)
  show ?thesis
  proof (cases "m (unat idx)")
    case None
    then show ?thesis using RemoveAt spec by (auto simp: fun_upd_idem)
  next
    case (Some fd)
    then show ?thesis using RemoveAt spec refs_remove [OF m Some, of n] by auto
  qed
next
  case ClearAll
  then show ?thesis using spec by (auto simp: refs_def)
qed

text \<open>
  C23: Files and pipe ends live exactly as long as there is a handle. Start in a state in which every
  inode with a handle is open, and let an operation insert only descriptors on open inodes. Then
  afterwards every inode with a handle is open again, and every inode that lost its last handle has been
  closed. The exception is the replacement of a descriptor by one on the same inode when it is the only
  handle there.
\<close>

theorem fd_handles_keep_open:
  assumes inv: "fd_inv b others (Suc k) (self, ins)" "fd_below b op"
    and exec: "fd_exec op (self, ins) = (Ok (r, self', ins') :: (_, 'e) outcome)"
    and op: "\<not> replaces_itself op (fd_abs self) others" "\<forall>fd. inserts op = Some fd \<longrightarrow> is_open (ino_kind (ins (fd_inode fd)))"
    and opened: "\<forall>n. 0 < refs (fd_abs self) n + others n \<longrightarrow> is_open (ino_kind (ins n))"
  shows "(0 < refs (fd_abs self') n + others n \<longrightarrow> is_open (ino_kind (ins' n))) \<and>
    (0 < refs (fd_abs self) n + others n \<and> refs (fd_abs self') n + others n = 0 \<longrightarrow>
      ino_kind (ins' n) = close_kind (ino_kind (ins n)))"
proof -
  have m: "finite (dom (fd_abs self))" using inv(1) by (simp add: handles_ok_def)
  have "\<exists>r s'. fd_exec op (self, ins) = (Ok (r, s') :: (_, 'e) outcome) \<and>
      fd_spec op (fd_abs (fst (self, ins))) r (fd_abs (fst s')) \<and> fd_inv b others k s'"
    by (rule fd_exec_step [OF inv])
  then have "fd_spec op (fd_abs self) r (fd_abs self')" using exec by auto
  from spec_refs [OF m this op(1), of n] fd_exec_kinds [OF inv(1) exec, of n] op(2) opened show ?thesis by auto
qed

text \<open>Two descriptors on one file; removing the first keeps the file, removing the second closes it.\<close>

definition example_list :: FdList where
  "example_list = \<lparr>fl_fds = [Some (example_fd 7)], fl_first_free = None\<rparr>"

definition example_opened :: inodes where
  "example_opened = acquire_handle example_inodes 7"

lemma example_list_abs: "fd_abs example_list = [0 \<mapsto> example_fd 7]"
  by (auto simp: fd_abs_def example_list_def fun_eq_iff)

lemma example_list_refs: "refs [0 \<mapsto> example_fd 7] n = (if n = 7 then 1 else 0)"
  using refs_insert [of Map.empty 0 "example_fd 7" n] by (simp add: refs_def example_fd_def)

lemma example_list_inv: "fd_inv 0 (\<lambda>_. 0) 1 (example_list, example_opened)"
  by (simp add: example_list_abs fl_wf_def handles_ok_def example_list_refs)
    (simp add: example_list_def example_opened_def acquire_handle_def example_inodes_def)

theorem fd_handles_keep_open_witness:
  "\<exists>r self' ins'. fd_exec (RemoveAt 0) (example_list, example_opened) = (Ok (r, self', ins') :: (_, unit) outcome) \<and>
    ino_kind (ins' 7) = KindFile None"
proof -
  have inv: "fd_inv 0 (\<lambda>_. 0) (Suc 0) (example_list, example_opened)" using example_list_inv by simp
  obtain r self' ins' where exec: "fd_exec (RemoveAt 0) (example_list, example_opened) = (Ok (r, self', ins') :: (_, unit) outcome)"
      "fd_spec (RemoveAt 0) (fd_abs example_list) r (fd_abs self')"
    using fd_exec_step [OF inv, of "RemoveAt 0"] by auto
  have "\<forall>n. 0 < refs (fd_abs example_list) n + 0 \<longrightarrow> is_open (ino_kind (example_opened n))"
    by (simp add: example_opened_def example_inodes_def)
  then have "ino_kind (ins' 7) = close_kind (ino_kind (example_opened 7))"
    using fd_handles_keep_open [OF inv _ exec(1), of 7] exec(2) by (simp add: example_list_abs example_list_refs) (simp add: refs_def)
  with exec(1) show ?thesis by (simp add: example_opened_def example_inodes_def)
qed

text \<open>
  The exception is real: the old handle is dropped before the new one is taken, so that the file is
  closed although a descriptor on it remains.
\<close>

lemma replace_same_inode_closes:
  "\<exists>self' ins'. fl_insert example_list example_opened False 0 (example_fd 7) = Ok (True, self', ins') \<and>
    fl_get self' 0 = Some (example_fd 7) \<and> ino_open_handles (ins' 7) = 1 \<and>
    is_open (ino_kind (example_opened 7)) \<and> \<not> is_open (ino_kind (ins' 7))"
  by (simp add: fl_insert_def fl_resize_def example_list_def nth_opt_def drop_one_handle_def example_opened_def
      acquire_handle_def example_inodes_def example_fd_def Let_def fl_put_def fl_get_def word_sless_alt)

unbundle bit_operations_syntax

section \<open>Descriptors of the file system\<close>

text \<open>
  The operations of the file system and of \<open>fd_renumber\<close> on descriptors. The fields are the list of
  descriptors, the inodes, and the number of shared offsets created so far, which name them.
  Of the error numbers those that occur here are listed.
\<close>

datatype Errno = Badf | Exist | Notsup

record WasiFs =
  fs_fd_map :: FdList
  fs_root_inode :: nat
  fs_inodes :: inodes
  fs_offsets :: usize

definition VIRTUAL_ROOT_FD :: WasiFd where
  "VIRTUAL_ROOT_FD = 3"

definition CLOEXEC :: "16 word" where
  "CLOEXEC = 1"

definition ALL_RIGHTS :: u64 where
  "ALL_RIGHTS = mask 39"

definition set_flag :: "16 word \<Rightarrow> 16 word \<Rightarrow> bool \<Rightarrow> 16 word" where
  "set_flag f flag on = (if on then f OR flag else f AND NOT flag)"

definition get_fd :: "WasiFs \<Rightarrow> WasiFd \<Rightarrow> (Fd \<times> WasiFs, Errno) outcome" where
  "get_fd self fd =
     (case fl_get (fs_fd_map self) fd of
        Some x \<Rightarrow> Ok (x, self)
      | None \<Rightarrow>
          if fd = VIRTUAL_ROOT_FD
          then Ok (\<lparr>fd_inner = \<lparr>fdi_rights = ALL_RIGHTS, fdi_rights_inheriting = ALL_RIGHTS, fdi_flags = 0,
                 fdi_offset = fs_offsets self, fdi_fd_flags = 0\<rparr>,
                 fd_open_flags = 0, fd_inode = fs_root_inode self, fd_is_stdio = False\<rparr>,
               self\<lparr>fs_offsets := fs_offsets self + 1\<rparr>)
          else Err Badf)"

definition create_fd_ext ::
  "WasiFs \<Rightarrow> u64 \<Rightarrow> u64 \<Rightarrow> 16 word \<Rightarrow> 16 word \<Rightarrow> 16 word \<Rightarrow> nat \<Rightarrow> WasiFd option \<Rightarrow> bool \<Rightarrow>
     (WasiFd \<times> WasiFs, Errno) outcome" where
  "create_fd_ext self rights rights_inheriting fs_flags fd_flags open_flags inode idx exclusive =
     (let fd = \<lparr>fd_inner = \<lparr>fdi_rights = rights, fdi_rights_inheriting = rights_inheriting, fdi_flags = fs_flags,
                fdi_offset = fs_offsets self, fdi_fd_flags = fd_flags\<rparr>,
                fd_open_flags = open_flags, fd_inode = inode, fd_is_stdio = (idx \<in> {Some 0, Some 1, Some 2})\<rparr>;
          self1 = self\<lparr>fs_offsets := fs_offsets self + 1\<rparr>
      in case idx of
           Some idx \<Rightarrow>
             bind_ok (fl_insert (fs_fd_map self) (fs_inodes self) exclusive idx fd) (\<lambda>(inserted, l, ins).
               if inserted then Ok (idx, self1\<lparr>fs_fd_map := l, fs_inodes := ins\<rparr>) else Err Exist)
         | None \<Rightarrow>
             bind_ok (insert_first_free (fs_fd_map self) (fs_inodes self) fd) (\<lambda>(i, l, ins).
               Ok (i, self1\<lparr>fs_fd_map := l, fs_inodes := ins\<rparr>)))"

definition clone_fd_ext ::
  "WasiFs \<Rightarrow> WasiFd \<Rightarrow> WasiFd \<Rightarrow> bool option \<Rightarrow> (WasiFd \<times> WasiFs, Errno) outcome" where
  "clone_fd_ext self fd min_result_fd cloexec =
     bind_ok (get_fd self fd) (\<lambda>(fd, self1).
     bind_ok (insert_first_free_after (fs_fd_map self1) (fs_inodes self1)
       (fd\<lparr>fd_inner := (fd_inner fd)\<lparr>fdi_fd_flags := (case cloexec of
            None \<Rightarrow> fdi_fd_flags (fd_inner fd)
          | Some cloexec \<Rightarrow> set_flag (fdi_fd_flags (fd_inner fd)) CLOEXEC cloexec)\<rparr>\<rparr>)
       min_result_fd) (\<lambda>(i, l, ins). Ok (i, self1\<lparr>fs_fd_map := l, fs_inodes := ins\<rparr>)))"

definition clone_fd :: "WasiFs \<Rightarrow> WasiFd \<Rightarrow> (WasiFd \<times> WasiFs, Errno) outcome" where
  "clone_fd self fd = clone_fd_ext self fd 0 None"

definition close_fd :: "WasiFs \<Rightarrow> WasiFd \<Rightarrow> (WasiFs, Errno) outcome" where
  "close_fd self fd =
     bind_ok (fl_remove (fs_fd_map self) (fs_inodes self) fd) (\<lambda>(_, l, ins).
       Ok (self\<lparr>fs_fd_map := l, fs_inodes := ins\<rparr>))"

text \<open>The new entry of \<open>fd_renumber\<close>.\<close>

definition renumbered :: "Fd \<Rightarrow> Fd" where
  "renumbered fd_entry = fd_entry\<lparr>fd_inner := (fd_inner fd_entry)\<lparr>
     fdi_rights := fdi_rights_inheriting (fd_inner fd_entry),
     fdi_fd_flags := set_flag (fdi_fd_flags (fd_inner fd_entry)) CLOEXEC False\<rparr>\<rparr>"

definition fd_renumber_internal :: "WasiFs \<Rightarrow> WasiFd \<Rightarrow> WasiFd \<Rightarrow> (WasiFs, Errno) outcome" where
  "fd_renumber_internal self src to =
     (if src = to then Ok self
      else
        bind_ok (ok_or Badf (fl_get (fs_fd_map self) src)) (\<lambda>fd_entry.
          if (case fl_get (fs_fd_map self) to of
                Some target_fd \<Rightarrow> \<not> fd_is_stdio target_fd \<and> ino_is_preopened (fs_inodes self (fd_inode target_fd))
              | None \<Rightarrow> False)
          then Err Notsup
          else
            bind_ok (fl_remove (fs_fd_map self) (fs_inodes self) to) (\<lambda>(old_fd, l, ins).
            bind_ok (fl_insert l ins True to (renumbered fd_entry)) (\<lambda>(inserted, l', ins').
            bind_ok (assert_that inserted) (\<lambda>_.
              Ok (self\<lparr>fs_fd_map := l', fs_inodes := ins'\<rparr>))))))"

lemma fl_get_abs: "fl_get self idx = fd_abs self (unat idx)"
  by (simp add: fl_get_def fd_abs_def nth_opt_def)

definition fs_ok :: "nat \<Rightarrow> (nat \<Rightarrow> nat) \<Rightarrow> nat \<Rightarrow> WasiFs \<Rightarrow> bool" where
  "fs_ok b others k fs = fd_inv b others k (fs_fd_map fs, fs_inodes fs)"


definition example_fs :: WasiFs where
  "example_fs = \<lparr>fs_fd_map = example_list, fs_root_inode = 0, fs_inodes = example_opened, fs_offsets = 8\<rparr>"


text \<open>
  Duplicating a descriptor keeps its rights, renumbering it does not: the copy has the rights that the
  source passes on, none at all for a file that was opened without such.
\<close>

lemma fd_renumber_drops_rights:
  "fdi_rights (fd_inner (renumbered fd)) = fdi_rights_inheriting (fd_inner fd)"
  "\<exists>fs'. fd_renumber_internal example_fs 0 1 = Ok fs' \<and>
    map_option (\<lambda>fd. fdi_rights (fd_inner fd)) (fl_get (fs_fd_map example_fs) 0) = Some 64 \<and>
    map_option (\<lambda>fd. fdi_rights (fd_inner fd)) (fl_get (fs_fd_map fs') 1) = Some 0"
proof -
  show "fdi_rights (fd_inner (renumbered fd)) = fdi_rights_inheriting (fd_inner fd)" by (simp add: renumbered_def)
  show "\<exists>fs'. fd_renumber_internal example_fs 0 1 = Ok fs' \<and>
    map_option (\<lambda>fd. fdi_rights (fd_inner fd)) (fl_get (fs_fd_map example_fs) 0) = Some 64 \<and>
    map_option (\<lambda>fd. fdi_rights (fd_inner fd)) (fl_get (fs_fd_map fs') 1) = Some 0"
    by (simp add: fd_renumber_internal_def example_fs_def fl_get_def example_list_def nth_opt_def fl_remove_def Let_def
        fl_insert_def fl_resize_def fl_put_def renumbered_def example_fd_def)
qed

lemma clone_fd_keeps_rights:
  assumes "fs_ok b others 1 fs" "unat min_fd \<le> b" "fl_get (fs_fd_map fs) fd = Some x"
  shows "\<exists>i fs'. clone_fd_ext fs fd min_fd None = Ok (i, fs') \<and> lowest_free (fd_abs (fs_fd_map fs)) (unat min_fd) (unat i) \<and>
    fd_abs (fs_fd_map fs') = (fd_abs (fs_fd_map fs))(unat i \<mapsto> x) \<and> fs_ok b others 0 fs'"
proof -
  have "\<exists>r s'. fd_exec (InsertAfter x min_fd) (fs_fd_map fs, fs_inodes fs) = (Ok (r, s') :: (_, Errno) outcome) \<and>
      fd_spec (InsertAfter x min_fd) (fd_abs (fst (fs_fd_map fs, fs_inodes fs))) r (fd_abs (fst s')) \<and> fd_inv b others 0 s'"
    by (rule fd_exec_step) (use assms in \<open>simp_all add: fs_ok_def\<close>)
  then show ?thesis using assms(3)
    by (fastforce simp: clone_fd_ext_def get_fd_def outcome_simps fs_ok_def)
qed

end
