(* ===== verification/Net_Rules.thy ===== *)
theory Net_Rules
  imports Prelude
begin

text \<open>
  The rules that control the traffic of a network (\<open>lib/virtual-net/src/ruleset.rs\<close>): their textual
  form, its parser, the decisions on connections and names, the expansion of a rule for names into rules for
  addresses, and the resolution of names of the host network (\<open>lib/virtual-net/src/host.rs\<close>) that
  uses it. The parsers of integers and addresses of the standard library are modelled; ranges of addresses
  belong to external crates and are a parameter, as is the lookup of a name.

  The results are that the text of segments parses back, that combined rules mean all combinations, and what
  expanding a name grants.
\<close>

section \<open>Text\<close>

text \<open>Text is ASCII. These are the methods of strings that the parser uses.\<close>

definition split_once :: "char \<Rightarrow> string \<Rightarrow> (string \<times> string) option" where
  "split_once c s = (if c \<in> set s then Some (takeWhile (\<lambda>x. x \<noteq> c) s, tl (dropWhile (\<lambda>x. x \<noteq> c) s)) else None)"

definition rsplit_once :: "char \<Rightarrow> string \<Rightarrow> (string \<times> string) option" where
  "rsplit_once c s = map_option (\<lambda>(a, b). (rev b, rev a)) (split_once c (rev s))"

definition strip_prefix :: "string \<Rightarrow> string \<Rightarrow> string option" where
  "strip_prefix p s = (if take (length p) s = p then Some (drop (length p) s) else None)"

fun find_str :: "string \<Rightarrow> string \<Rightarrow> nat option" where
  "find_str p [] = (if p = [] then Some 0 else None)"
| "find_str p (c # s) = (if take (length p) (c # s) = p then Some 0 else map_option Suc (find_str p s))"

fun split_on :: "char \<Rightarrow> string \<Rightarrow> string list" where
  "split_on c [] = [[]]"
| "split_on c (x # s) =
     (if x = c then [] # split_on c s
      else case split_on c s of [] \<Rightarrow> [[x]] | part # parts \<Rightarrow> (x # part) # parts)"

definition is_whitespace :: "char \<Rightarrow> bool" where
  "is_whitespace c = (c \<in> {CHR '' '', CHR 0x09, CHR 0x0A, CHR 0x0B, CHR 0x0C, CHR 0x0D})"

definition trim :: "string \<Rightarrow> string" where
  "trim s = rev (dropWhile is_whitespace (rev (dropWhile is_whitespace s)))"

definition ends_with :: "string \<Rightarrow> string \<Rightarrow> bool" where
  "ends_with s t = (length t \<le> length s \<and> drop (length s - length t) s = t)"

section \<open>Numbers and addresses\<close>

type_synonym u16 = "16 word"

datatype IntError = IntEmpty | InvalidDigit | PosOverflow

definition digit :: "nat \<Rightarrow> char \<Rightarrow> nat option" where
  "digit radix c =
     (let n = of_char c :: nat;
          d = (if 48 \<le> n \<and> n \<le> 57 then n - 48 else if 97 \<le> n \<and> n \<le> 122 then n - 87
               else if 65 \<le> n \<and> n \<le> 90 then n - 55 else radix)
      in if d < radix then Some d else None)"

fun u16_digits :: "nat \<Rightarrow> string \<Rightarrow> (u16, IntError) outcome" where
  "u16_digits acc [] = Ok (of_nat acc)"
| "u16_digits acc (c # s) =
     (case digit 10 c of
        None \<Rightarrow> Err InvalidDigit
      | Some d \<Rightarrow> if 65535 < acc * 10 + d then Err PosOverflow else u16_digits (acc * 10 + d) s)"

text \<open>\<open>u16::from_str\<close>: digits with an optional plus sign.\<close>

definition u16_from_str :: "string \<Rightarrow> (u16, IntError) outcome" where
  "u16_from_str s =
     (if s = [] then Err IntEmpty
      else if s = ''+'' \<or> s = ''-'' then Err InvalidDigit
      else u16_digits 0 (if hd s = CHR ''+'' then tl s else s))"

text \<open>
  The parser of the standard library for addresses. A number has a bounded count of digits, in
  version 4 without a leading zero.
\<close>

fun read_digits :: "nat \<Rightarrow> nat \<Rightarrow> nat \<Rightarrow> string \<Rightarrow> nat \<times> nat \<times> string" where
  "read_digits radix n acc [] = (n, acc, [])"
| "read_digits radix n acc (c # s) =
     (case digit radix c of
        None \<Rightarrow> (n, acc, c # s)
      | Some d \<Rightarrow> read_digits radix (Suc n) (acc * radix + d) s)"

definition read_number :: "nat \<Rightarrow> nat \<Rightarrow> bool \<Rightarrow> string \<Rightarrow> (nat \<times> string) option" where
  "read_number radix max_digits allow_zero_prefix s =
     (case read_digits radix 0 0 s of (n, v, rest) \<Rightarrow>
        if n = 0 \<or> max_digits < n then None
        else if \<not> allow_zero_prefix \<and> hd s = CHR ''0'' \<and> 1 < n then None
        else Some (v, rest))"

definition read_char :: "char \<Rightarrow> string \<Rightarrow> string option" where
  "read_char c s = (case s of x # rest \<Rightarrow> if x = c then Some rest else None | [] \<Rightarrow> None)"

definition read_octet :: "string \<Rightarrow> (nat \<times> string) option" where
  "read_octet s =
     (case read_number 10 3 False s of Some (v, rest) \<Rightarrow> if v \<le> 255 then Some (v, rest) else None | None \<Rightarrow> None)"

definition read_ipv4_addr :: "string \<Rightarrow> (32 word \<times> string) option" where
  "read_ipv4_addr s =
     Option.bind (read_octet s) (\<lambda>(a, s). Option.bind (read_char CHR ''.'' s) (\<lambda>s.
     Option.bind (read_octet s) (\<lambda>(b, s). Option.bind (read_char CHR ''.'' s) (\<lambda>s.
     Option.bind (read_octet s) (\<lambda>(c, s). Option.bind (read_char CHR ''.'' s) (\<lambda>s.
     Option.bind (read_octet s) (\<lambda>(d, s).
       Some (of_nat (((a * 256 + b) * 256 + c) * 256 + d), s))))))))"

definition ipv4_addr :: "string \<Rightarrow> 32 word option" where
  "ipv4_addr s = (case read_ipv4_addr s of Some (a, []) \<Rightarrow> Some a | _ \<Rightarrow> None)"

text \<open>
  Groups of an address of version 6, at most \<open>limit\<close> of them; an embedded address of version 4 ends
  the groups and counts as two.
\<close>

fun read_groups :: "nat \<Rightarrow> nat \<Rightarrow> string \<Rightarrow> nat list \<times> bool \<times> string" where
  "read_groups i 0 s = ([], False, s)"
| "read_groups i (Suc limit) s =
     (let start = (if i = 0 then Some s else read_char CHR '':'' s);
          v4 = (if 0 < limit then Option.bind start read_ipv4_addr else None)
      in case v4 of
           Some (a, rest) \<Rightarrow> ([unat a div 65536, unat a mod 65536], True, rest)
         | None \<Rightarrow>
             (case Option.bind start (read_number 16 4 True) of
                None \<Rightarrow> ([], False, s)
              | Some (g, rest) \<Rightarrow>
                  (case read_groups (Suc i) limit rest of (gs, v4, rest') \<Rightarrow> (g # gs, v4, rest'))))"

definition of_groups :: "nat list \<Rightarrow> 128 word" where
  "of_groups gs = of_nat (foldl (\<lambda>a g. a * 65536 + g) 0 gs)"

definition ipv6_addr :: "string \<Rightarrow> 128 word option" where
  "ipv6_addr s =
     (case read_groups 0 8 s of (head, head_v4, rest) \<Rightarrow>
        if length head = 8 then (if rest = [] then Some (of_groups head) else None)
        else if head_v4 then None
        else Option.bind (Option.bind (read_char CHR '':'' rest) (read_char CHR '':'')) (\<lambda>rest.
          case read_groups 0 (7 - length head) rest of (tail, _, rest') \<Rightarrow>
            if rest' = []
            then Some (of_groups (head @ replicate (8 - length head - length tail) 0 @ tail)) else None))"

section \<open>Rules\<close>

datatype RuleParseError =
    ErrDirection string
  | InvalidInteger IntError
  | InvalidIpRange
  | InvalidIpAddr
  | MissingColon string
  | MalformedIpv6 string
  | InvalidRuleType string
  | InvalidRuleAction string
  | DomainRuleNotFound string
  | DomainAlreadyExpanded string

type_synonym 'a parsed = "('a, RuleParseError) outcome"

datatype Direction = Inbound | Outbound | Bidirectional

definition direction_matches :: "Direction \<Rightarrow> Direction \<Rightarrow> bool" where
  "direction_matches self direction = (self = Bidirectional \<or> self = direction)"

definition direction_from_str :: "string \<Rightarrow> Direction parsed" where
  "direction_from_str s =
     (if s = ''in'' then Ok Inbound else if s = ''out'' then Ok Outbound else Err (ErrDirection s))"

datatype PortSpec = PortAll | Port u16 | PortRange u16 u16

fun port_matches :: "PortSpec \<Rightarrow> u16 \<Rightarrow> bool" where
  "port_matches PortAll port = True"
| "port_matches (Port allowed_port) port = (allowed_port = port)"
| "port_matches (PortRange start stop) port = (start \<le> port \<and> port \<le> stop)"

definition port_from_str :: "string \<Rightarrow> PortSpec parsed" where
  "port_from_str s =
     (if s = ''*'' then Ok PortAll
      else if CHR ''-'' \<in> set s then
        bind_ok (unwrap (split_once CHR ''-'' s)) (\<lambda>(start, stop).
        bind_ok (map_err InvalidInteger (u16_from_str start)) (\<lambda>start.
        bind_ok (map_err InvalidInteger (u16_from_str stop)) (\<lambda>stop. Ok (PortRange start stop))))
      else bind_ok (map_err InvalidInteger (u16_from_str s)) (\<lambda>port. Ok (Port port)))"

datatype DomainSpec = DomainAll | Domain string | DomainGlob string

fun domain_matches :: "DomainSpec \<Rightarrow> string \<Rightarrow> bool" where
  "domain_matches DomainAll domain = True"
| "domain_matches (Domain allowed_domain) domain = (allowed_domain = domain)"
| "domain_matches (DomainGlob domain_glob) domain = ends_with domain domain_glob"

definition domain_from_str :: "string \<Rightarrow> DomainSpec parsed" where
  "domain_from_str s =
     (if s = ''*'' then Ok DomainAll
      else case strip_prefix ''*'' s of
             Some glob \<Rightarrow> Ok (DomainGlob glob)
           | None \<Rightarrow> Ok (Domain s))"

record DNSRule =
  dn_domain :: DomainSpec
  dn_port :: PortSpec
  dn_expanded :: bool

definition dns_allows :: "DNSRule \<Rightarrow> string \<Rightarrow> bool" where
  "dns_allows self domain = domain_matches (dn_domain self) domain"

text \<open>
  Addresses of both versions are words. A range of addresses belongs to external crates and is
  only asked whether it contains an address; it is given by that answer.
\<close>

datatype 'ip IPSpec = IPAll | IP 'ip | IPRange "'ip \<Rightarrow> bool"

fun ip_matches :: "'ip IPSpec \<Rightarrow> 'ip \<Rightarrow> bool" where
  "ip_matches IPAll ip = True"
| "ip_matches (IP allowed_ip) ip = (allowed_ip = ip)"
| "ip_matches (IPRange allowed_ip_range) ip = allowed_ip_range ip"

text \<open>The parsers of ranges in the notation of an address and the length of a prefix.\<close>

record net_parsers =
  np_ipv4 :: "string \<Rightarrow> (32 word \<Rightarrow> bool) option"
  np_ipv6 :: "string \<Rightarrow> (128 word \<Rightarrow> bool) option"

definition ipv4_from_str :: "net_parsers \<Rightarrow> string \<Rightarrow> 32 word IPSpec parsed" where
  "ipv4_from_str nets s =
     (if s = ''*'' then Ok IPAll
      else if CHR ''/'' \<in> set s then bind_ok (ok_or InvalidIpRange (np_ipv4 nets s)) (\<lambda>range. Ok (IPRange range))
      else bind_ok (ok_or InvalidIpAddr (ipv4_addr s)) (\<lambda>ip. Ok (IP ip)))"

definition ipv6_from_str :: "net_parsers \<Rightarrow> string \<Rightarrow> 128 word IPSpec parsed" where
  "ipv6_from_str nets s =
     (if s = ''*'' then Ok IPAll
      else if CHR ''/'' \<in> set s then bind_ok (ok_or InvalidIpRange (np_ipv6 nets s)) (\<lambda>range. Ok (IPRange range))
      else bind_ok (ok_or InvalidIpAddr (ipv6_addr s)) (\<lambda>ip. Ok (IP ip)))"

record 'ip IPRule =
  ir_ip_spec :: "'ip IPSpec"
  ir_port_spec :: PortSpec
  ir_direction :: Direction

definition ip_is_allowed :: "'ip IPRule \<Rightarrow> 'ip \<Rightarrow> u16 \<Rightarrow> Direction \<Rightarrow> bool" where
  "ip_is_allowed self ip port dir =
     (ip_matches (ir_ip_spec self) ip \<and> port_matches (ir_port_spec self) port \<and>
      direction_matches (ir_direction self) dir)"

datatype Rule = RIPV4 "32 word IPRule" | RIPV6 "128 word IPRule" | RDNS DNSRule | Neg Rule

datatype IpAddr = V4 "32 word" | V6 "128 word"

type_synonym SocketAddr = "IpAddr \<times> u16"

fun rule_allows_socket :: "Rule \<Rightarrow> SocketAddr \<Rightarrow> Direction \<Rightarrow> bool" where
  "rule_allows_socket (RIPV4 rule) (V4 ip, port) direction = ip_is_allowed rule ip port direction"
| "rule_allows_socket (RIPV6 rule) (V6 ip, port) direction = ip_is_allowed rule ip port direction"
| "rule_allows_socket _ _ direction = False"

fun rule_allows_domain :: "Rule \<Rightarrow> string \<Rightarrow> bool" where
  "rule_allows_domain (RDNS rule) domain = dns_allows rule domain"
| "rule_allows_domain _ domain = False"

fun blocks_socket :: "Rule \<Rightarrow> SocketAddr \<Rightarrow> Direction \<Rightarrow> bool" where
  "blocks_socket (Neg rule) addr direction = rule_allows_socket rule addr direction"
| "blocks_socket _ addr direction = False"

fun blocks_domain :: "Rule \<Rightarrow> string \<Rightarrow> bool" where
  "blocks_domain (Neg rule) domain = rule_allows_domain rule domain"
| "blocks_domain _ domain = False"

fun port_spec_of_domain :: "Rule \<Rightarrow> string \<Rightarrow> PortSpec option" where
  "port_spec_of_domain (RDNS rule) domain = (if dns_allows rule domain then Some (dn_port rule) else None)"
| "port_spec_of_domain _ domain = None"

fun is_expandable :: "Rule \<Rightarrow> bool" where
  "is_expandable (RDNS rule) = (\<not> dn_expanded rule)"
| "is_expandable _ = False"

fun set_expanded :: "Rule \<Rightarrow> bool \<Rightarrow> Rule" where
  "set_expanded (RDNS rule) expanded = RDNS (rule\<lparr>dn_expanded := expanded\<rparr>)"
| "set_expanded r expanded = r"

section \<open>Parsing rules\<close>

definition parse_enclosed :: "string \<Rightarrow> char \<Rightarrow> char \<Rightarrow> string option" where
  "parse_enclosed s left right =
     (case (split_once left s, rsplit_once right s) of
        (Some (before, _), Some (until, _)) \<Rightarrow>
          if length before < length until then Some (drop (length before + 1) until) else None
      | _ \<Rightarrow> None)"

text \<open>The positions of the first and the last character are the lengths of the parts in front of them.\<close>

definition parse_as_list :: "(string \<Rightarrow> 'a parsed) \<Rightarrow> string \<Rightarrow> 'a list parsed" where
  "parse_as_list parse s =
     (case parse_enclosed s CHR ''{'' CHR ''}'' of
        Some entries \<Rightarrow> map_ok (\<lambda>s. parse (trim s)) (split_on CHR '','' entries)
      | None \<Rightarrow> bind_ok (parse s) (\<lambda>entry. Ok [entry]))"

text \<open>The optional direction behind the ports.\<close>

definition parse_direction :: "string \<Rightarrow> (string \<times> Direction) parsed" where
  "parse_direction ports_and_direction =
     (case split_once CHR ''/'' ports_and_direction of
        Some (ports, dir) \<Rightarrow> bind_ok (direction_from_str dir) (\<lambda>direction. Ok (ports, direction))
      | None \<Rightarrow> Ok (ports_and_direction, Bidirectional))"

definition parse_ipv4_rule :: "net_parsers \<Rightarrow> string \<Rightarrow> 32 word IPRule list parsed" where
  "parse_ipv4_rule nets s =
     bind_ok (ok_or (MissingColon s) (split_once CHR '':'' s)) (\<lambda>(ips, ports_and_direction).
     bind_ok (parse_direction ports_and_direction) (\<lambda>(ports, direction).
     bind_ok (parse_as_list (ipv4_from_str nets) ips) (\<lambda>ips.
     bind_ok (parse_as_list port_from_str ports) (\<lambda>ports.
       Ok [\<lparr>ir_ip_spec = ip, ir_port_spec = port, ir_direction = direction\<rparr>. ip \<leftarrow> ips, port \<leftarrow> ports]))))"

definition parse_ipv6_rule :: "net_parsers \<Rightarrow> string \<Rightarrow> 128 word IPRule list parsed" where
  "parse_ipv6_rule nets s =
     bind_ok (ok_or (MissingColon s) (rsplit_once CHR '':'' s)) (\<lambda>(ips, ports_and_direction).
     bind_ok (parse_direction ports_and_direction) (\<lambda>(ports, direction).
     bind_ok (if CHR ''['' \<in> set ips
              then bind_ok (ok_or (MalformedIpv6 ips) (parse_enclosed ips CHR ''['' CHR '']'')) (\<lambda>ip.
                   bind_ok (ipv6_from_str nets ip) (\<lambda>spec. Ok [spec]))
              else parse_as_list (ipv6_from_str nets) ips) (\<lambda>ips.
     bind_ok (parse_as_list port_from_str ports) (\<lambda>ports.
       Ok [\<lparr>ir_ip_spec = ip, ir_port_spec = port, ir_direction = direction\<rparr>. ip \<leftarrow> ips, port \<leftarrow> ports]))))"

definition parse_dns_rule :: "string \<Rightarrow> DNSRule list parsed" where
  "parse_dns_rule s =
     bind_ok (ok_or (MissingColon s) (split_once CHR '':'' s)) (\<lambda>(domains, ports).
     bind_ok (parse_as_list domain_from_str domains) (\<lambda>domains.
     bind_ok (parse_as_list port_from_str ports) (\<lambda>ports.
       Ok [\<lparr>dn_domain = domain, dn_port = port, dn_expanded = False\<rparr>. domain \<leftarrow> domains, port \<leftarrow> ports])))"

section \<open>Segments of a ruleset\<close>

datatype RuleType = RtDns | RtIPV4 | RtIPV6

datatype RuleAction = Allow | Deny

definition type_consume_input :: "string \<Rightarrow> (RuleType \<times> string) parsed" where
  "type_consume_input input =
     (case strip_prefix ''dns:'' input of
        Some rem \<Rightarrow> Ok (RtDns, rem)
      | None \<Rightarrow>
          (case strip_prefix ''ipv4:'' input of
             Some rem \<Rightarrow> Ok (RtIPV4, rem)
           | None \<Rightarrow>
               (case strip_prefix ''ipv6:'' input of
                  Some rem \<Rightarrow> Ok (RtIPV6, rem)
                | None \<Rightarrow> Err (InvalidRuleType input))))"

definition action_consume_input :: "string \<Rightarrow> (RuleAction \<times> string) parsed" where
  "action_consume_input input =
     (case strip_prefix ''allow='' input of
        Some rem \<Rightarrow> Ok (Allow, rem)
      | None \<Rightarrow>
          (case strip_prefix ''deny='' input of
             Some rem \<Rightarrow> Ok (Deny, rem)
           | None \<Rightarrow> Err (InvalidRuleAction input)))"

definition expr_consume_input :: "string \<Rightarrow> (string \<times> string) parsed" where
  "expr_consume_input input =
     (let next_dns_entry = (case find_str '',dns:'' input of Some idx \<Rightarrow> idx | None \<Rightarrow> usize_limit - 1);
          next_ipv4_entry = (case find_str '',ipv4:'' input of Some idx \<Rightarrow> idx | None \<Rightarrow> usize_limit - 1);
          next_ipv6_entry = (case find_str '',ipv6:'' input of Some idx \<Rightarrow> idx | None \<Rightarrow> usize_limit - 1);
          next_entry = min (min (min next_dns_entry next_ipv4_entry) next_ipv6_entry) (length input);
          rem = drop next_entry input
      in Ok (take next_entry input, case strip_prefix '','' rem of Some r \<Rightarrow> r | None \<Rightarrow> rem))"

record RulesetSegment =
  sg_ty :: RuleType
  sg_action :: RuleAction
  sg_expr :: string

lemma strip_prefix_length: "strip_prefix p s = Some r \<Longrightarrow> length s = length p + length r"
proof -
  assume "strip_prefix p s = Some r"
  then have s: "take (length p) s = p" "r = drop (length p) s" by (auto simp: strip_prefix_def split: if_splits)
  have "length (take (length p) s) + length (drop (length p) s) = length s" by simp
  then show ?thesis unfolding s(1) s(2) [symmetric] by simp
qed

lemma type_consume_input_shorter:
  "type_consume_input s = Ok (t, r) \<Longrightarrow> length r < length s"
  by (auto simp: type_consume_input_def dest!: strip_prefix_length split: option.splits)

lemma action_consume_input_shorter: "action_consume_input s = Ok (a, r) \<Longrightarrow> length r < length s"
  by (auto simp: action_consume_input_def dest!: strip_prefix_length split: option.splits)

lemma expr_consume_input_shorter: "expr_consume_input s = Ok (e, r) \<Longrightarrow> length r \<le> length s"
proof -
  assume "expr_consume_input s = Ok (e, r)"
  then obtain n where r: "r = (case strip_prefix '','' (drop n s) of Some r \<Rightarrow> r | None \<Rightarrow> drop n s)"
    unfolding expr_consume_input_def Let_def by blast
  then show ?thesis by (cases "strip_prefix '','' (drop n s)") (auto dest: strip_prefix_length)
qed

function parse_ruleset_segments :: "string \<Rightarrow> RulesetSegment list parsed" where
  "parse_ruleset_segments input =
     (if input = [] then Ok []
      else
        (case type_consume_input input of
           Err e \<Rightarrow> Err e | Panic \<Rightarrow> Panic
         | Ok (ty, remaining) \<Rightarrow>
             (case action_consume_input remaining of
                Err e \<Rightarrow> Err e | Panic \<Rightarrow> Panic
              | Ok (action, remaining) \<Rightarrow>
                  (case expr_consume_input remaining of
                     Err e \<Rightarrow> Err e | Panic \<Rightarrow> Panic
                   | Ok (expr, remaining) \<Rightarrow>
                       bind_ok (parse_ruleset_segments remaining) (\<lambda>segments.
                         Ok (\<lparr>sg_ty = ty, sg_action = action, sg_expr = expr\<rparr> # segments))))))"
  by pat_completeness auto
termination
proof (relation "measure length")
qed (simp_all, meson action_consume_input_shorter expr_consume_input_shorter le_less_trans less_trans type_consume_input_shorter)

section \<open>Rulesets\<close>

type_synonym Ruleset = "Rule list"

definition rs_allows_socket :: "Ruleset \<Rightarrow> SocketAddr \<Rightarrow> Direction \<Rightarrow> bool" where
  "rs_allows_socket self addr dir =
     (if list_ex (\<lambda>r. blocks_socket r addr dir) self then False
      else list_ex (\<lambda>r. rule_allows_socket r addr dir) self)"

definition rs_allows_domain :: "Ruleset \<Rightarrow> string \<Rightarrow> bool" where
  "rs_allows_domain self domain =
     (if list_ex (\<lambda>r. blocks_domain r domain) self then False
      else list_ex (\<lambda>r. rule_allows_domain r domain) self)"

text \<open>
  The search of \<open>expand_domain\<close>: the ports of the first matching rule that is not expanded, which is marked;
  otherwise whether there is a matching rule.
\<close>

fun find_expandable :: "Ruleset \<Rightarrow> string \<Rightarrow> bool \<Rightarrow> (PortSpec \<times> Ruleset) option \<times> bool" where
  "find_expandable [] domain already_expanded = (None, already_expanded)"
| "find_expandable (rule # rules) domain already_expanded =
     (case port_spec_of_domain rule domain of
        Some port_spec \<Rightarrow>
          if is_expandable rule then (Some (port_spec, set_expanded rule True # rules), already_expanded)
          else (case find_expandable rules domain True of
                  (r, ae) \<Rightarrow> (map_option (\<lambda>(ps, rs). (ps, rule # rs)) r, ae))
      | None \<Rightarrow>
          (case find_expandable rules domain already_expanded of
             (r, ae) \<Rightarrow> (map_option (\<lambda>(ps, rs). (ps, rule # rs)) r, ae)))"

fun expanded_rule :: "PortSpec \<Rightarrow> IpAddr \<Rightarrow> Rule" where
  "expanded_rule port_spec (V4 ip) =
     RIPV4 \<lparr>ir_ip_spec = IP ip, ir_port_spec = port_spec, ir_direction = Outbound\<rparr>"
| "expanded_rule port_spec (V6 ip) =
     RIPV6 \<lparr>ir_ip_spec = IP ip, ir_port_spec = port_spec, ir_direction = Outbound\<rparr>"

definition expand_domain :: "Ruleset \<Rightarrow> string \<Rightarrow> IpAddr list \<Rightarrow> Ruleset parsed" where
  "expand_domain self domain addrs =
     (case find_expandable self domain False of
        (Some (port_spec, ruleset), _) \<Rightarrow> Ok (ruleset @ map (expanded_rule port_spec) addrs)
      | (None, already_expanded) \<Rightarrow>
          if already_expanded then Err (DomainAlreadyExpanded domain) else Err (DomainRuleNotFound domain))"

definition segment_rules :: "net_parsers \<Rightarrow> RulesetSegment \<Rightarrow> Rule list parsed" where
  "segment_rules nets seg =
     bind_ok (case sg_ty seg of
         RtDns \<Rightarrow> bind_ok (parse_dns_rule (sg_expr seg)) (\<lambda>rs. Ok (map RDNS rs))
       | RtIPV4 \<Rightarrow> bind_ok (parse_ipv4_rule nets (sg_expr seg)) (\<lambda>rs. Ok (map RIPV4 rs))
       | RtIPV6 \<Rightarrow> bind_ok (parse_ipv6_rule nets (sg_expr seg)) (\<lambda>rs. Ok (map RIPV6 rs))) (\<lambda>parsed_rules.
     Ok (case sg_action seg of Allow \<Rightarrow> parsed_rules | Deny \<Rightarrow> map Neg parsed_rules))"

definition ruleset_from_str :: "net_parsers \<Rightarrow> string \<Rightarrow> Ruleset parsed" where
  "ruleset_from_str nets s =
     bind_ok (parse_ruleset_segments (filter (\<lambda>c. \<not> is_whitespace c) s)) (\<lambda>segments.
     bind_ok (map_ok (segment_rules nets) segments) (\<lambda>rules. Ok (concat rules)))"

section \<open>Resolving names\<close>

datatype NetworkError = PermissionDenied | IOError

text \<open>
  \<open>resolve\<close> of the host network. The lookup of a name is a parameter, as is the error of a failed
  one; the outcome of expanding the rules only goes to the log.
\<close>

definition net_resolve ::
  "(string \<Rightarrow> (IpAddr list, NetworkError) outcome) \<Rightarrow> Ruleset option \<Rightarrow> string \<Rightarrow>
     (IpAddr list \<times> Ruleset option, NetworkError) outcome" where
  "net_resolve lookup ruleset host =
     (if (case ruleset of Some rs \<Rightarrow> \<not> rs_allows_domain rs host | None \<Rightarrow> False) then Err PermissionDenied
      else bind_ok (lookup host) (\<lambda>addrs.
        Ok (addrs, map_option (\<lambda>rs. case expand_domain rs host addrs of Ok rs' \<Rightarrow> rs' | _ \<Rightarrow> rs) ruleset)))"

declare parse_ruleset_segments.simps [simp del]

section \<open>Searching and splitting text\<close>

text \<open>A text occurs at a position.\<close>

definition occurs_at :: "string \<Rightarrow> string \<Rightarrow> nat \<Rightarrow> bool" where
  "occurs_at p s i = (take (length p) (drop i s) = p)"

lemma find_str_Some: "find_str p s = Some i \<longleftrightarrow> i \<le> length s \<and> occurs_at p s i \<and> (\<forall>j < i. \<not> occurs_at p s j)"
proof (induction s arbitrary: i)
  case Nil
  then show ?case by (auto simp: occurs_at_def)
next
  case (Cons c s)
  show ?case
  proof (cases i)
    case 0
    then show ?thesis by (auto simp: occurs_at_def)
  next
    case (Suc k)
    then show ?thesis using Cons.IH [of k] by (auto simp: occurs_at_def All_less_Suc2)
  qed
qed

lemma find_str_None: "find_str p s = None \<longleftrightarrow> (\<forall>i \<le> length s. \<not> occurs_at p s i)"
proof (induction s)
  case Nil
  then show ?case by (auto simp: occurs_at_def)
next
  case (Cons c s)
  have "(\<forall>i \<le> Suc (length s). P i) \<longleftrightarrow> P 0 \<and> (\<forall>i \<le> length s. P (Suc i))" for P
    by (metis Suc_le_mono le0 not0_implies_Suc)
  with Cons show ?case by (auto simp: occurs_at_def)
qed

lemma occurs_at_nth:
  "occurs_at p s i \<Longrightarrow> k < length p \<Longrightarrow> i + k < length s \<and> s ! (i + k) = p ! k"
proof -
  assume occ: "occurs_at p s i" and k: "k < length p"
  then have take: "take (length p) (drop i s) = p" by (simp add: occurs_at_def)
  then have len: "length p \<le> length s - i" by (metis length_drop length_take min.cobounded1 min.cobounded2)
  have "p ! k = take (length p) (drop i s) ! k" by (simp only: take)
  also have "\<dots> = s ! (i + k)" using k len by simp
  finally show ?thesis using k len by simp
qed

lemma occurs_atI: "(\<And>k. k < length p \<Longrightarrow> i + k < length s \<and> s ! (i + k) = p ! k) \<Longrightarrow> i \<le> length s \<Longrightarrow> occurs_at p s i"
proof -
  assume *: "\<And>k. k < length p \<Longrightarrow> i + k < length s \<and> s ! (i + k) = p ! k" and i: "i \<le> length s"
  have len: "length p \<le> length s - i"
  proof (cases "length p")
    case (Suc n)
    then show ?thesis using * [of n] by auto
  qed simp
  show ?thesis unfolding occurs_at_def
    by (rule nth_equalityI) (use * len i in \<open>auto simp: nth_append\<close>)
qed

text \<open>A text with a comma only in front cannot reach over a comma.\<close>

lemma occurs_at_comma:
  assumes "occurs_at (CHR '','' # p) (e @ CHR '','' # rest) i" "CHR '','' \<notin> set p" "i < length e"
  shows "occurs_at (CHR '','' # p) e i"
proof -
  note nth = occurs_at_nth [OF assms(1)]
  have within: "i + k < length e" if "k < length (CHR '','' # p)" for k
  proof (rule ccontr)
    assume "\<not> i + k < length e"
    then have j: "0 < length e - i" "length e - i \<le> k" using assms(3) by auto
    then have "length e - i < length (CHR '','' # p)" using that by auto
    from nth [OF this] have "(CHR '','' # p) ! (length e - i) = CHR '',''" using assms(3) by (simp add: nth_append)
    moreover have "(CHR '','' # p) ! (length e - i) = p ! (length e - i - 1)" using j(1) by (simp add: nth_Cons')
    moreover have "length e - i - 1 < length p" using j that by auto
    ultimately show False using assms(2) by (metis nth_mem)
  qed
  show ?thesis
  proof (rule occurs_atI)
    fix k assume k: "k < length (CHR '','' # p)"
    from nth [OF k] within [OF k] show "i + k < length e \<and> e ! (i + k) = (CHR '','' # p) ! k" by (simp add: nth_append)
  qed (use assms(3) in simp)
qed

definition marker_free :: "string \<Rightarrow> bool" where
  "marker_free e =
     (find_str '',dns:'' e = None \<and> find_str '',ipv4:'' e = None \<and> find_str '',ipv6:'' e = None)"

lemma comma_free_marker_free: "CHR '','' \<notin> set e \<Longrightarrow> marker_free e"
proof -
  assume e: "CHR '','' \<notin> set e"
  have "find_str (CHR '','' # p) e = None" for p
    unfolding find_str_None
  proof (intro allI impI notI)
    fix i assume "occurs_at (CHR '','' # p) e i"
    from occurs_at_nth [OF this, of 0] show False using e by (metis length_greater_0_conv list.distinct(1) nth_Cons_0 nth_mem)
  qed
  then show ?thesis by (simp add: marker_free_def)
qed

lemma find_str_behind:
  assumes "find_str (CHR '','' # p) e = None" "CHR '','' \<notin> set p"
  shows "find_str (CHR '','' # p) (e @ CHR '','' # rest) = Some j \<Longrightarrow> length e \<le> j"
    and "take (length p) rest = p \<Longrightarrow> find_str (CHR '','' # p) (e @ CHR '','' # rest) = Some (length e)"
proof -
  have early: "\<not> occurs_at (CHR '','' # p) (e @ CHR '','' # rest) i" if "i < length e" for i
    using occurs_at_comma [OF _ assms(2) that] assms(1) that by (auto simp: find_str_None)
  show "length e \<le> j" if "find_str (CHR '','' # p) (e @ CHR '','' # rest) = Some j"
    using early [of j] that by (force simp: find_str_Some)
  show "find_str (CHR '','' # p) (e @ CHR '','' # rest) = Some (length e)" if "take (length p) rest = p"
    unfolding find_str_Some using early that by (simp add: occurs_at_def)
qed

section \<open>Segments and their text\<close>

fun type_text :: "RuleType \<Rightarrow> string" where
  "type_text RtDns = ''dns:''"
| "type_text RtIPV4 = ''ipv4:''"
| "type_text RtIPV6 = ''ipv6:''"

fun action_text :: "RuleAction \<Rightarrow> string" where
  "action_text Allow = ''allow=''"
| "action_text Deny = ''deny=''"

definition segment_text :: "RulesetSegment \<Rightarrow> string" where
  "segment_text seg = type_text (sg_ty seg) @ action_text (sg_action seg) @ sg_expr seg"

fun comma_separated :: "string list \<Rightarrow> string" where
  "comma_separated [] = []"
| "comma_separated [x] = x"
| "comma_separated (x # y # ys) = x @ CHR '','' # comma_separated (y # ys)"

lemma strip_prefix_append [simp]: "strip_prefix p (p @ s) = Some s"
  by (simp add: strip_prefix_def)

lemma type_consume_text [simp]: "type_consume_input (type_text t @ s) = Ok (t, s)"
  by (cases t) (simp_all add: type_consume_input_def strip_prefix_def)

lemma action_consume_text [simp]: "action_consume_input (action_text a @ s) = Ok (a, s)"
  by (cases a) (simp_all add: action_consume_input_def strip_prefix_def)

lemma expr_consume_last:
  assumes "marker_free e" "length e < usize_limit"
  shows "expr_consume_input e = Ok (e, [])"
proof -
  have "min (min (min (usize_limit - 1) (usize_limit - 1)) (usize_limit - 1)) (length e) = length e"
    using assms(2) by linarith
  then show ?thesis using assms(1)
    by (simp add: expr_consume_input_def marker_free_def Let_def strip_prefix_def del: min.idem)
qed

lemma min_of_four:
  fixes n :: nat
  assumes "n \<le> a" "n \<le> b" "n \<le> c" "n \<le> l" "n \<in> {a, b, c}"
  shows "min (min (min a b) c) l = n"
  using assms by auto

lemma expr_consume_next:
  assumes e: "marker_free e" and len: "length (e @ CHR '','' # type_text t @ s) < usize_limit"
  shows "expr_consume_input (e @ CHR '','' # type_text t @ s) = Ok (e, type_text t @ s)"
proof -
  let ?s = "e @ CHR '','' # type_text t @ s"
  let ?next = "\<lambda>m. case find_str m ?s of Some idx \<Rightarrow> idx | None \<Rightarrow> usize_limit - 1"
  have free: "find_str (CHR '','' # p) e = None" "CHR '','' \<notin> set p" if "p \<in> {''dns:'', ''ipv4:'', ''ipv6:''}" for p
    using e that by (auto simp: marker_free_def)
  have le: "length e \<le> ?next (CHR '','' # p)" if "p \<in> {''dns:'', ''ipv4:'', ''ipv6:''}" for p
    using find_str_behind(1) [OF free [OF that]] len by (auto split: option.splits)
  have hit: "?next (CHR '','' # type_text t) = length e"
    using find_str_behind(2) [OF free, of "type_text t" "type_text t @ s"] by (cases t) simp_all
  have "min (min (min (?next '',dns:'') (?next '',ipv4:'')) (?next '',ipv6:'')) (length ?s) = length e"
  proof (rule min_of_four)
    show "length e \<in> {?next '',dns:'', ?next '',ipv4:'', ?next '',ipv6:''}"
      using hit by (cases t) (simp_all only: type_text.simps insert_iff simp_thms)
  qed ((rule le, simp)+, simp)
  then show ?thesis unfolding expr_consume_input_def Let_def by (simp only: append_eq_conv_conj) (simp add: strip_prefix_def)
qed

lemma parse_segments_Nil [simp]: "parse_ruleset_segments [] = Ok []"
  by (subst parse_ruleset_segments.simps) simp

lemma segments_of_text:
  assumes "list_all (\<lambda>seg. marker_free (sg_expr seg)) segs"
    and "length (comma_separated (map segment_text segs)) < usize_limit"
  shows "parse_ruleset_segments (comma_separated (map segment_text segs)) = Ok segs"
  using assms
proof (induction segs rule: induct_list012)
  case 1
  then show ?case by simp
next
  case (2 seg)
  have "segment_text seg \<noteq> []" by (cases "sg_ty seg") (simp_all add: segment_text_def)
  moreover have "expr_consume_input (sg_expr seg) = Ok (sg_expr seg, [])"
    using 2 by (intro expr_consume_last) (simp_all add: segment_text_def)
  ultimately show ?case
    by (subst parse_ruleset_segments.simps) (simp add: segment_text_def)
next
  case (3 seg seg' segs)
  define rest where "rest = comma_separated (map segment_text (seg' # segs))"
  have whole: "comma_separated (map segment_text (seg # seg' # segs)) =
      type_text (sg_ty seg) @ action_text (sg_action seg) @ sg_expr seg @ CHR '','' # rest"
    by (simp add: rest_def segment_text_def [of seg])
  obtain s where s: "rest = type_text (sg_ty seg') @ s"
    by (cases segs) (simp_all add: rest_def segment_text_def)
  have len: "length (sg_expr seg @ CHR '','' # rest) < usize_limit" using "3.prems"(2) unfolding whole by simp
  have "expr_consume_input (sg_expr seg @ CHR '','' # rest) = Ok (sg_expr seg, rest)"
    using expr_consume_next [of "sg_expr seg" "sg_ty seg'" s] "3.prems"(1) len s by simp
  moreover have "parse_ruleset_segments rest = Ok (seg' # segs)"
    unfolding rest_def by (rule "3.IH"(2)) (use "3.prems"(1) len in \<open>simp_all add: rest_def\<close>)
  ultimately show ?case
    unfolding whole by (subst parse_ruleset_segments.simps) simp
qed

text \<open>
  C39: Writing the segments of a ruleset and parsing the text gives the segments back, for expressions in
  which no segment begins; the parser of segments terminates on every text.
\<close>

theorem ruleset_segments_roundtrip:
  assumes "list_all (\<lambda>seg. marker_free (sg_expr seg)) segs"
    and "length (comma_separated (map segment_text segs)) < usize_limit"
  shows "parse_ruleset_segments (comma_separated (map segment_text segs)) = Ok segs"
  by (rule segments_of_text [OF assms])

theorem ruleset_segments_roundtrip_witness:
  "parse_ruleset_segments ''dns:allow=*.org:443,ipv4:deny={10.0.0.0/8,10.1.2.3}:*'' =
    Ok [\<lparr>sg_ty = RtDns, sg_action = Allow, sg_expr = ''*.org:443''\<rparr>,
        \<lparr>sg_ty = RtIPV4, sg_action = Deny, sg_expr = ''{10.0.0.0/8,10.1.2.3}:*''\<rparr>]"
  using ruleset_segments_roundtrip [of "[\<lparr>sg_ty = RtDns, sg_action = Allow, sg_expr = ''*.org:443''\<rparr>,
        \<lparr>sg_ty = RtIPV4, sg_action = Deny, sg_expr = ''{10.0.0.0/8,10.1.2.3}:*''\<rparr>]"]
  by (simp add: segment_text_def marker_free_def)

section \<open>Combined rules\<close>

definition braced :: "string list \<Rightarrow> string" where
  "braced es = CHR ''{'' # comma_separated es @ ''}''"

text \<open>Text of an address or a port, without the signs that separate entries.\<close>

definition entry_text :: "string \<Rightarrow> bool" where
  "entry_text s = list_all (\<lambda>c. c \<notin> set ''{},:'' \<and> \<not> is_whitespace c) s"

lemma entry_text_chars: "entry_text s \<Longrightarrow> c \<in> set s \<Longrightarrow> c \<notin> set ''{},:'' \<and> \<not> is_whitespace c"
  by (simp add: entry_text_def list_all_iff)

lemma entry_free: "entry_text s \<Longrightarrow> c \<in> set ''{},:'' \<Longrightarrow> c \<notin> set s"
  using entry_text_chars by blast

lemma set_comma_separated: "set (comma_separated es) \<subseteq> insert CHR '','' (\<Union> (set ` set es))"
  by (induction es rule: comma_separated.induct) auto

lemma split_once_append: "c \<notin> set a \<Longrightarrow> split_once c (a @ c # b) = Some (a, b)"
  by (simp add: split_once_def takeWhile_append dropWhile_append)

lemma split_once_None: "c \<notin> set s \<Longrightarrow> split_once c s = None"
  by (simp add: split_once_def)

lemma split_on_free: "c \<notin> set a \<Longrightarrow> split_on c a = [a]"
  by (induction a) auto

lemma split_on_append: "c \<notin> set a \<Longrightarrow> split_on c (a @ c # s) = a # split_on c s"
  by (induction a) auto

lemma split_comma_separated:
  "es \<noteq> [] \<Longrightarrow> list_all entry_text es \<Longrightarrow> split_on CHR '','' (comma_separated es) = es"
proof (induction es rule: comma_separated.induct)
  case (2 x)
  then show ?case by (simp add: split_on_free entry_free)
next
  case (3 x y ys)
  then show ?case by (simp add: split_on_append entry_free)
qed simp

lemma parse_enclosed_braced: "parse_enclosed (braced es) CHR ''{'' CHR ''}'' = Some (comma_separated es)"
  using split_once_append [of "CHR ''{''" "[]" "comma_separated es @ ''}''"]
    split_once_append [of "CHR ''}''" "[]" "rev (CHR ''{'' # comma_separated es)"]
  by (simp add: parse_enclosed_def braced_def rsplit_once_def)

lemma dropWhile_clean: "\<forall>c \<in> set s. \<not> P c \<Longrightarrow> dropWhile P s = s"
  by (cases s) auto

lemma trim_entry: "entry_text s \<Longrightarrow> trim s = s"
proof -
  assume "entry_text s"
  then have "\<forall>c \<in> set s. \<not> is_whitespace c" using entry_text_chars by blast
  then show ?thesis using dropWhile_clean [of s is_whitespace] dropWhile_clean [of "rev s" is_whitespace]
    by (simp add: trim_def)
qed

lemma parse_as_list_braced:
  assumes "es \<noteq> []" "list_all entry_text es"
  shows "parse_as_list parse (braced es) = map_ok parse es"
proof -
  have "map_ok (\<lambda>s. parse (trim s)) es = map_ok parse es"
    using assms(2) by (induction es) (auto simp: trim_entry)
  then show ?thesis
    by (simp add: parse_as_list_def parse_enclosed_braced split_comma_separated [OF assms])
qed

lemma parse_as_list_entry:
  "entry_text e \<Longrightarrow> parse_as_list parse e = bind_ok (parse e) (\<lambda>x. Ok [x])"
  by (simp add: parse_as_list_def parse_enclosed_def split_once_None entry_free)

lemma braced_chars:
  assumes "list_all entry_text es" "c \<in> set (braced es)"
  shows "c \<noteq> CHR '':'' \<and> \<not> is_whitespace c \<and> (c \<in> set ''{},'' \<or> (\<exists>e \<in> set es. c \<in> set e))"
proof -
  have "c \<in> set ''{},'' \<or> (\<exists>e \<in> set es. c \<in> set e)"
    using assms(2) set_comma_separated [of es] by (auto simp: braced_def)
  moreover have "c \<noteq> CHR '':'' \<and> \<not> is_whitespace c" if "e \<in> set es" "c \<in> set e" for e
    using assms(1) that entry_text_chars [of e c] by (auto simp: list_all_iff)
  ultimately show ?thesis by (auto simp: is_whitespace_def)
qed

lemma parse_direction_none: "CHR ''/'' \<notin> set s \<Longrightarrow> parse_direction s = Ok (s, Bidirectional)"
  by (simp add: parse_direction_def split_once_None)

text \<open>The rules of combined text are those of all combinations, in order.\<close>

definition combined_rules ::
  "(string \<times> 32 word IPSpec) list \<Rightarrow> (string \<times> PortSpec) list \<Rightarrow> 32 word IPRule list" where
  "combined_rules ips ports =
     [\<lparr>ir_ip_spec = snd ip, ir_port_spec = snd port, ir_direction = Bidirectional\<rparr>. ip \<leftarrow> ips, port \<leftarrow> ports]"

lemma map_ok_pairs: "\<forall>(t, v) \<in> set xs. f t = Ok v \<Longrightarrow> map_ok f (map fst xs) = Ok (map snd xs)"
  by (induction xs) auto

lemma parse_combined:
  assumes "ips \<noteq> []" "ports \<noteq> []" "list_all entry_text (map fst ips)" "list_all entry_text (map fst ports)"
    and "\<forall>(t, v) \<in> set ips. ipv4_from_str nets t = Ok v"
    and "\<forall>(t, v) \<in> set ports. port_from_str t = Ok v \<and> CHR ''/'' \<notin> set t"
  shows "parse_ipv4_rule nets (braced (map fst ips) @ CHR '':'' # braced (map fst ports)) = Ok (combined_rules ips ports)"
proof -
  have "CHR '':'' \<notin> set (braced (map fst ips))" "CHR ''/'' \<notin> set (braced (map fst ports))"
    using braced_chars [OF assms(3)] braced_chars [OF assms(4)] assms(6) by fastforce+
  moreover have "map_ok port_from_str (map fst ports) = Ok (map snd ports)" using assms(6) by (intro map_ok_pairs) auto
  ultimately show ?thesis
    using assms(1-4) map_ok_pairs [OF assms(5)]
    by (simp add: parse_ipv4_rule_def split_once_append parse_direction_none parse_as_list_braced combined_rules_def
        comp_def)
qed

lemma parse_single:
  assumes "entry_text t" "entry_text u" "ipv4_from_str nets t = Ok v" "port_from_str u = Ok w" "CHR ''/'' \<notin> set u"
  shows "parse_ipv4_rule nets (t @ CHR '':'' # u) = Ok (combined_rules [(t, v)] [(u, w)])"
  using assms by (simp add: parse_ipv4_rule_def split_once_append parse_direction_none parse_as_list_entry
      entry_free combined_rules_def)

lemma marker_free_combined:
  assumes "list_all entry_text es" "list_all entry_text fs"
  shows "marker_free (braced es @ CHR '':'' # braced fs)"
proof -
  let ?s = "braced es @ CHR '':'' # braced fs"
  have none: "find_str (p @ [x, CHR '':'']) ?s = None" if "x \<noteq> CHR ''}''" for p x
    unfolding find_str_None
  proof (intro allI impI notI)
    fix i assume occ: "occurs_at (p @ [x, CHR '':'']) ?s i"
    let ?j = "i + length p"
    have x: "?s ! ?j = x" "?j < length ?s" using occurs_at_nth [OF occ, of "length p"] by simp_all
    have colon: "?s ! Suc ?j = CHR '':''" "Suc ?j < length ?s"
      using occurs_at_nth [OF occ, of "Suc (length p)"] by (simp_all add: nth_append)
    have "Suc ?j = length (braced es)"
    proof (rule ccontr)
      assume ne: "Suc ?j \<noteq> length (braced es)"
      have "CHR '':'' \<in> set (braced es) \<or> CHR '':'' \<in> set (braced fs)"
      proof (cases "Suc ?j < length (braced es)")
        case True
        then have "braced es ! Suc ?j = CHR '':''" using colon(1) by (simp add: nth_append)
        then show ?thesis using True by (metis nth_mem)
      next
        case False
        let ?k = "Suc ?j - length (braced es) - 1"
        have "braced fs ! ?k = CHR '':''" "?k < length (braced fs)"
          using colon False ne by (auto simp: nth_append nth_Cons')
        then show ?thesis by (metis nth_mem)
      qed
      then show False using braced_chars assms by blast
    qed
    then have "x = last (braced es)" using x(1) by (simp add: nth_append last_conv_nth braced_def)
    then show False using that by (simp add: braced_def)
  qed
  show ?thesis
    using none [of "CHR ''s''" "'',dn''"] none [of "CHR ''4''" "'',ipv''"] none [of "CHR ''6''" "'',ipv''"]
    by (simp add: marker_free_def)
qed

lemma segment_rules_ipv4:
  "parse_ipv4_rule nets e = Ok rs \<Longrightarrow> segment_rules nets \<lparr>sg_ty = RtIPV4, sg_action = a, sg_expr = e\<rparr> =
    Ok (map (\<lambda>r. case a of Allow \<Rightarrow> RIPV4 r | Deny \<Rightarrow> Neg (RIPV4 r)) rs)"
  by (cases a) (simp_all add: segment_rules_def)

lemma segment_text_clean:
  "\<forall>c \<in> set e. \<not> is_whitespace c \<Longrightarrow> c \<in> set (segment_text \<lparr>sg_ty = t, sg_action = a, sg_expr = e\<rparr>) \<Longrightarrow> \<not> is_whitespace c"
  by (cases t; cases a) (auto simp: segment_text_def is_whitespace_def)

lemma clean_text: "\<forall>c \<in> set s. \<not> is_whitespace c \<Longrightarrow> filter (\<lambda>c. \<not> is_whitespace c) s = s"
  by (simp add: filter_id_conv)

definition ipv4_segment :: "RuleAction \<Rightarrow> string \<Rightarrow> RulesetSegment" where
  "ipv4_segment a e = \<lparr>sg_ty = RtIPV4, sg_action = a, sg_expr = e\<rparr>"

lemma segment_rules_all:
  "map_ok (parse_ipv4_rule nets) es = Ok rss \<Longrightarrow> map_ok (segment_rules nets) (map (ipv4_segment a) es) =
    Ok (map (map (\<lambda>r. case a of Allow \<Rightarrow> RIPV4 r | Deny \<Rightarrow> Neg (RIPV4 r))) rss)"
proof (induction es arbitrary: rss)
  case (Cons e es)
  then obtain rs rss' where rs: "parse_ipv4_rule nets e = Ok rs" "map_ok (parse_ipv4_rule nets) es = Ok rss'" "rss = rs # rss'"
    by (auto simp: bind_ok_eq_Ok)
  then show ?case using Cons.IH [OF rs(2)] segment_rules_ipv4 [OF rs(1)] by (simp add: ipv4_segment_def)
qed simp

text \<open>Parsing a list of segments whose rules are known.\<close>

lemma ruleset_of_segments:
  assumes "list_all (\<lambda>e. marker_free e \<and> (\<forall>c \<in> set e. \<not> is_whitespace c)) es"
    and "length (comma_separated (map (segment_text \<circ> ipv4_segment a) es)) < usize_limit"
    and "map_ok (parse_ipv4_rule nets) es = Ok rss"
  shows "ruleset_from_str nets (comma_separated (map (segment_text \<circ> ipv4_segment a) es)) =
    Ok (map (\<lambda>r. case a of Allow \<Rightarrow> RIPV4 r | Deny \<Rightarrow> Neg (RIPV4 r)) (concat rss))"
proof -
  let ?s = "comma_separated (map (segment_text \<circ> ipv4_segment a) es)"
  have "\<forall>c \<in> set ?s. \<not> is_whitespace c"
  proof
    fix c assume "c \<in> set ?s"
    then consider "c = CHR '',''" | e where "e \<in> set es" "c \<in> set (segment_text (ipv4_segment a e))"
      using set_comma_separated [of "map (segment_text \<circ> ipv4_segment a) es"] by auto
    then show "\<not> is_whitespace c"
    proof cases
      case 1
      then show ?thesis by (simp add: is_whitespace_def)
    next
      case (2 e)
      then show ?thesis using assms(1) segment_text_clean [of e c RtIPV4 a] by (simp add: ipv4_segment_def list_all_iff)
    qed
  qed
  then have clean: "filter (\<lambda>c. \<not> is_whitespace c) ?s = ?s" by (rule clean_text)
  have parsed: "parse_ruleset_segments ?s = Ok (map (ipv4_segment a) es)"
    using segments_of_text [of "map (ipv4_segment a) es"] assms(1,2)
    by (simp add: list_all_iff ipv4_segment_def comp_def)
  have "map_ok (segment_rules nets) (map (ipv4_segment a) es) =
      Ok (map (map (\<lambda>r. case a of Allow \<Rightarrow> RIPV4 r | Deny \<Rightarrow> Neg (RIPV4 r))) rss)"
    by (rule segment_rules_all [OF assms(3)])
  then show ?thesis
    by (simp add: ruleset_from_str_def clean parsed map_concat)
qed

lemma map_ok_comprehension:
  assumes "\<And>i p. i \<in> set ips \<Longrightarrow> p \<in> set ports \<Longrightarrow> f (text i p) = Ok (v i p)"
  shows "map_ok f [text i p. i \<leftarrow> ips, p \<leftarrow> ports] = Ok [v i p. i \<leftarrow> ips, p \<leftarrow> ports]"
proof -
  have app: "map_ok f (xs @ ys) = bind_ok (map_ok f xs) (\<lambda>as. bind_ok (map_ok f ys) (\<lambda>bs. Ok (as @ bs)))" for xs ys
  proof (induction xs)
    case Nil
    show ?case by (cases "map_ok f ys") simp_all
  qed (simp add: bind_ok_assoc)
  have inner: "map_ok f (map (text i) ports) = Ok (map (v i) ports)" if "i \<in> set ips" for i
    using assms [OF that] by (induction ports) auto
  have "map_ok f (concat (map (\<lambda>i. map (text i) ports) js)) = Ok (concat (map (\<lambda>i. map (v i) ports) js))" if "set js \<subseteq> set ips" for js
    using that by (induction js) (auto simp: app inner)
  then show ?thesis by simp
qed

lemma single_text:
  assumes "entry_text t" "entry_text u"
  shows "marker_free (t @ CHR '':'' # u)" "\<forall>c \<in> set (t @ CHR '':'' # u). \<not> is_whitespace c"
proof -
  show "marker_free (t @ CHR '':'' # u)"
    using entry_free [OF assms(1)] entry_free [OF assms(2)] by (intro comma_free_marker_free) simp
  have "\<not> is_whitespace CHR '':''" by (simp add: is_whitespace_def)
  then show "\<forall>c \<in> set (t @ CHR '':'' # u). \<not> is_whitespace c"
    using entry_text_chars [OF assms(1)] entry_text_chars [OF assms(2)] by (metis Un_iff set_ConsD set_append)
qed

lemma combined_rules_single:
  "concat [combined_rules [i] [p]. i \<leftarrow> ips, p \<leftarrow> ports] = combined_rules ips ports"
  by (induction ips) (simp_all add: combined_rules_def concat_map_singleton comp_def)

text \<open>
  C26: The combination of rules means what the documentation says. An IPv4 rule with a list of
  addresses and a list of ports, and the list of rules with one address and one port each, parse to the
  same ruleset, for either action, and its rules are all combinations in order.
\<close>

theorem rule_combination:
  fixes a :: RuleAction and nets :: net_parsers and ips :: "(string \<times> 32 word IPSpec) list" and ports :: "(string \<times> PortSpec) list"
  assumes lists: "ips \<noteq> []" "ports \<noteq> []"
    and texts: "list_all entry_text (map fst ips)" "list_all entry_text (map fst ports)"
    and ips: "\<forall>(t, v) \<in> set ips. ipv4_from_str nets t = Ok v"
    and ports: "\<forall>(t, v) \<in> set ports. port_from_str t = Ok v \<and> CHR ''/'' \<notin> set t"
  defines "combined \<equiv> ''ipv4:'' @ action_text a @ braced (map fst ips) @ CHR '':'' # braced (map fst ports)"
    and "expanded \<equiv> comma_separated [''ipv4:'' @ action_text a @ fst ip @ CHR '':'' # fst port. ip \<leftarrow> ips, port \<leftarrow> ports]"
  assumes len: "length combined < usize_limit" "length expanded < usize_limit"
  shows "ruleset_from_str nets combined = ruleset_from_str nets expanded \<and>
    ruleset_from_str nets combined =
      Ok (map (\<lambda>r. case a of Allow \<Rightarrow> RIPV4 r | Deny \<Rightarrow> Neg (RIPV4 r)) (combined_rules ips ports))"
proof -
  let ?e = "braced (map fst ips) @ CHR '':'' # braced (map fst ports)"
  let ?es = "[fst ip @ CHR '':'' # fst port. ip \<leftarrow> ips, port \<leftarrow> ports]"
  have combined: "combined = comma_separated (map (segment_text \<circ> ipv4_segment a) [?e])"
    by (simp add: combined_def segment_text_def ipv4_segment_def)
  have expanded: "expanded = comma_separated (map (segment_text \<circ> ipv4_segment a) ?es)"
    by (simp add: expanded_def segment_text_def ipv4_segment_def map_concat comp_def)
  have "\<forall>c \<in> set ?e. \<not> is_whitespace c"
  proof -
    have "\<not> is_whitespace CHR '':''" by (simp add: is_whitespace_def)
    then show ?thesis using braced_chars [OF texts(1)] braced_chars [OF texts(2)] by (metis Un_iff set_ConsD set_append)
  qed
  then have r1: "ruleset_from_str nets combined =
      Ok (map (\<lambda>r. case a of Allow \<Rightarrow> RIPV4 r | Deny \<Rightarrow> Neg (RIPV4 r)) (concat [combined_rules ips ports]))"
    unfolding combined using marker_free_combined [OF texts] parse_combined [OF lists texts ips ports] len(1) [unfolded combined]
    by (intro ruleset_of_segments) simp_all
  have entry: "entry_text (fst i)" "entry_text (fst p)" if "i \<in> set ips" "p \<in> set ports" for i p
    using texts that by (simp_all add: list_all_iff)
  have "map_ok (parse_ipv4_rule nets) ?es = Ok [combined_rules [i] [p]. i \<leftarrow> ips, p \<leftarrow> ports]"
  proof (rule map_ok_comprehension)
    fix i p assume i: "i \<in> set ips" and p: "p \<in> set ports"
    with ips ports have "ipv4_from_str nets (fst i) = Ok (snd i)" "port_from_str (fst p) = Ok (snd p)" "CHR ''/'' \<notin> set (fst p)"
      by (auto simp: split_beta)
    with parse_single [OF entry [OF i p]] show "parse_ipv4_rule nets (fst i @ CHR '':'' # fst p) = Ok (combined_rules [i] [p])"
      by simp
  qed
  moreover have "list_all (\<lambda>e. marker_free e \<and> (\<forall>c \<in> set e. \<not> is_whitespace c)) ?es"
  proof -
    have "marker_free (fst i @ CHR '':'' # fst p)" "\<forall>c \<in> set (fst i @ CHR '':'' # fst p). \<not> is_whitespace c"
      if "i \<in> set ips" "p \<in> set ports" for i p
      using single_text [OF entry [OF that]] by blast+
    then show ?thesis by (auto simp: list_all_iff)
  qed
  ultimately have "ruleset_from_str nets expanded =
      Ok (map (\<lambda>r. case a of Allow \<Rightarrow> RIPV4 r | Deny \<Rightarrow> Neg (RIPV4 r)) (concat [combined_rules [i] [p]. i \<leftarrow> ips, p \<leftarrow> ports]))"
    unfolding expanded using len(2) [unfolded expanded] by (intro ruleset_of_segments)
  moreover have "concat [combined_rules [i] [p]. i \<leftarrow> ips, p \<leftarrow> ports] = combined_rules ips ports"
    by (rule combined_rules_single)
  ultimately show ?thesis using r1 by simp
qed

text \<open>Two addresses, of which one is a range, and two ports, with the parser of ranges instantiated.\<close>

definition example_nets :: net_parsers where
  "example_nets = \<lparr>np_ipv4 = (\<lambda>s. if s = ''10.0.0.0/8'' then Some (\<lambda>ip. drop_bit 24 ip = 10) else None),
     np_ipv6 = (\<lambda>_. None)\<rparr>"

lemma example_nets_parse:
  "ipv4_from_str example_nets ''10.0.0.0/8'' = Ok (IPRange (\<lambda>ip. drop_bit 24 ip = 10))"
  "ipv4_from_str example_nets ''1.2.3.4'' = Ok (IP 16909060)"
  "port_from_str ''80'' = Ok (Port 80)" "port_from_str ''8000-8080'' = Ok (PortRange 8000 8080)"
  by (simp_all add: ipv4_from_str_def example_nets_def ipv4_addr_def read_ipv4_addr_def read_octet_def read_number_def
      read_char_def digit_def port_from_str_def split_once_def u16_from_str_def)

definition example_ips :: "(string \<times> 32 word IPSpec) list" where
  "example_ips = [(''10.0.0.0/8'', IPRange (\<lambda>ip. drop_bit 24 ip = 10)), (''1.2.3.4'', IP 16909060)]"

definition example_ports :: "(string \<times> PortSpec) list" where
  "example_ports = [(''80'', Port 80), (''8000-8080'', PortRange 8000 8080)]"

theorem rule_combination_witness:
  "ruleset_from_str example_nets ''ipv4:deny={10.0.0.0/8,1.2.3.4}:{80,8000-8080}'' =
    ruleset_from_str example_nets
      ''ipv4:deny=10.0.0.0/8:80,ipv4:deny=10.0.0.0/8:8000-8080,ipv4:deny=1.2.3.4:80,ipv4:deny=1.2.3.4:8000-8080''"
proof -
  have "ruleset_from_str example_nets (''ipv4:'' @ action_text Deny @
        braced (map fst example_ips) @ CHR '':'' # braced (map fst example_ports)) =
      ruleset_from_str example_nets (comma_separated [''ipv4:'' @ action_text Deny @ fst ip @ CHR '':'' # fst port.
        ip \<leftarrow> example_ips, port \<leftarrow> example_ports])"
    by (rule rule_combination [THEN conjunct1])
      (simp_all add: example_nets_parse entry_text_def is_whitespace_def braced_def example_ips_def example_ports_def)
  then show ?thesis by (simp add: braced_def example_ips_def example_ports_def)
qed

section \<open>Expanding the rules of a name\<close>

text \<open>A rule for names that matches and has not been expanded.\<close>

definition pending :: "Rule \<Rightarrow> string \<Rightarrow> bool" where
  "pending r domain = (rule_allows_domain r domain \<and> is_expandable r)"

lemma port_spec_None: "port_spec_of_domain r domain = None \<longleftrightarrow> \<not> rule_allows_domain r domain"
  by (cases r) auto

lemma find_expandable_cases:
  "case find_expandable rs domain ae of
     (Some (ps, rs'), _) \<Rightarrow> \<exists>i < length rs. pending (rs ! i) domain \<and> (\<forall>j < i. \<not> pending (rs ! j) domain) \<and>
       port_spec_of_domain (rs ! i) domain = Some ps \<and> rs' = rs[i := set_expanded (rs ! i) True]
   | (None, ae') \<Rightarrow> (\<forall>r \<in> set rs. \<not> pending r domain) \<and> ae' = (ae \<or> (\<exists>r \<in> set rs. rule_allows_domain r domain))"
proof (induction rs arbitrary: ae)
  case (Cons r rs)
  have tail: "case (case find_expandable rs domain b of (x, y) \<Rightarrow> (map_option (\<lambda>(ps, rs). (ps, r # rs)) x, y)) of
       (Some (ps, rs'), _) \<Rightarrow> \<exists>i < length (r # rs). pending ((r # rs) ! i) domain \<and> (\<forall>j < i. \<not> pending ((r # rs) ! j) domain) \<and>
         port_spec_of_domain ((r # rs) ! i) domain = Some ps \<and> rs' = (r # rs)[i := set_expanded ((r # rs) ! i) True]
     | (None, ae') \<Rightarrow> (\<forall>q \<in> set (r # rs). \<not> pending q domain) \<and> ae' = (b \<or> (\<exists>q \<in> set rs. rule_allows_domain q domain))"
    if "\<not> pending r domain" for b
  proof (cases "find_expandable rs domain b")
    case (Pair x y)
    show ?thesis
    proof (cases x)
      case None
      then show ?thesis using Cons.IH [of b] Pair that by simp
    next
      case (Some pr)
      obtain ps rs' where pr: "pr = (ps, rs')" by (cases pr)
      obtain i where i: "i < length rs" "pending (rs ! i) domain" "\<forall>j < i. \<not> pending (rs ! j) domain"
          "port_spec_of_domain (rs ! i) domain = Some ps" "rs' = rs[i := set_expanded (rs ! i) True]"
        using Cons.IH [of b] Pair Some pr by auto
      have "\<forall>j < Suc i. \<not> pending ((r # rs) ! j) domain" using i(3) that by (auto simp: less_Suc_eq_0_disj)
      with i show ?thesis using Pair Some pr by (intro case_prodI2) (auto intro!: exI [of _ "Suc i"])
    qed
  qed
  show ?case
  proof (cases "port_spec_of_domain r domain")
    case None
    then have no: "\<not> rule_allows_domain r domain" by (simp add: port_spec_None)
    then have "\<not> pending r domain" by (simp add: pending_def)
    from tail [OF this, of ae] no None show ?thesis
      by (cases "find_expandable rs domain ae") (auto split: option.splits prod.splits)
  next
    case (Some ps)
    then have yes: "rule_allows_domain r domain" using port_spec_None [of r domain] by auto
    show ?thesis
    proof (cases "is_expandable r")
      case True
      then show ?thesis using Some yes by (auto simp: pending_def intro!: exI [of _ 0])
    next
      case False
      then have "\<not> pending r domain" by (simp add: pending_def)
      from tail [OF this, of True] yes Some False show ?thesis
        by (cases "find_expandable rs domain True") (auto split: option.splits prod.splits)
    qed
  qed
qed simp

lemma set_expanded_same:
  "rule_allows_socket (set_expanded r b) a d = rule_allows_socket r a d"
  "blocks_socket (set_expanded r b) a d = blocks_socket r a d"
  "rule_allows_domain (set_expanded r b) s = rule_allows_domain r s"
  "blocks_domain (set_expanded r b) s = blocks_domain r s"
  by (cases r; simp add: dns_allows_def)+

lemma list_ex_update: "i < length xs \<Longrightarrow> P x = P (xs ! i) \<Longrightarrow> list_ex P (xs[i := x]) = list_ex P xs"
  by (force simp: list_ex_length nth_list_update)

lemma expanded_rule_allows:
  "(rule_allows_socket (expanded_rule ps a) addr dir \<longleftrightarrow> fst addr = a \<and> port_matches ps (snd addr) \<and> dir = Outbound) \<and>
   \<not> blocks_socket (expanded_rule ps a) addr dir \<and> \<not> rule_allows_domain (expanded_rule ps a) s \<and>
   \<not> blocks_domain (expanded_rule ps a) s"
  by (cases a; cases addr; cases "fst addr"; auto simp: ip_is_allowed_def direction_matches_def)

lemma expand_domain_cases:
  "case expand_domain rs domain addrs of
     Ok rs' \<Rightarrow> \<exists>i < length rs. pending (rs ! i) domain
   | Err e \<Rightarrow> \<forall>r \<in> set rs. \<not> pending r domain
   | Panic \<Rightarrow> False"
  using find_expandable_cases [of rs domain False]
  by (cases "find_expandable rs domain False") (auto simp: expand_domain_def split: option.splits)

text \<open>
  C25: What the expansion of a name grants. It succeeds exactly if some rule for the name has not been
  expanded. Then exactly the outbound connections to the given addresses at the ports of the first such rule
  become allowed, unless a rule blocks them; nothing that was blocked becomes allowed, nothing is lost, and the
  names that may be resolved stay the same. Otherwise the error says whether there was a rule at all.
\<close>

theorem expand_domain_grants:
  "case expand_domain rs domain addrs of
     Ok rs' \<Rightarrow> \<exists>i < length rs. pending (rs ! i) domain \<and> (\<forall>j < i. \<not> pending (rs ! j) domain) \<and>
       (\<forall>addr dir. rs_allows_socket rs' addr dir \<longleftrightarrow> rs_allows_socket rs addr dir \<or>
          \<not> list_ex (\<lambda>r. blocks_socket r addr dir) rs \<and> dir = Outbound \<and> fst addr \<in> set addrs \<and>
          (\<exists>ps. port_spec_of_domain (rs ! i) domain = Some ps \<and> port_matches ps (snd addr))) \<and>
       (\<forall>name. rs_allows_domain rs' name = rs_allows_domain rs name)
   | Err e \<Rightarrow> (\<forall>r \<in> set rs. \<not> pending r domain) \<and>
       e = (if \<exists>r \<in> set rs. rule_allows_domain r domain then DomainAlreadyExpanded domain else DomainRuleNotFound domain)
   | Panic \<Rightarrow> False"
proof (cases "find_expandable rs domain False")
  case (Pair found ae)
  show ?thesis
  proof (cases found)
    case None
    then show ?thesis using find_expandable_cases [of rs domain False] Pair by (simp add: expand_domain_def)
  next
    case (Some pr)
    obtain ps rs1 where pr: "pr = (ps, rs1)" by (cases pr)
    obtain i where i: "i < length rs" "pending (rs ! i) domain" "\<forall>j < i. \<not> pending (rs ! j) domain"
        "port_spec_of_domain (rs ! i) domain = Some ps" "rs1 = rs[i := set_expanded (rs ! i) True]"
      using find_expandable_cases [of rs domain False] Pair Some pr by auto
    have ex: "expand_domain rs domain addrs = Ok (rs1 @ map (expanded_rule ps) addrs)"
      using Pair Some pr by (simp add: expand_domain_def)
    have same: "list_ex (\<lambda>r. blocks_socket r a d) rs1 = list_ex (\<lambda>r. blocks_socket r a d) rs"
        "list_ex (\<lambda>r. rule_allows_socket r a d) rs1 = list_ex (\<lambda>r. rule_allows_socket r a d) rs"
        "list_ex (\<lambda>r. blocks_domain r s) rs1 = list_ex (\<lambda>r. blocks_domain r s) rs"
        "list_ex (\<lambda>r. rule_allows_domain r s) rs1 = list_ex (\<lambda>r. rule_allows_domain r s) rs" for a d s
      unfolding i(5) by (rule list_ex_update [OF i(1)], simp add: set_expanded_same)+
    have new: "list_ex (\<lambda>r. rule_allows_socket r a d) (map (expanded_rule ps) addrs) \<longleftrightarrow>
        d = Outbound \<and> fst a \<in> set addrs \<and> port_matches ps (snd a)"
      "\<not> list_ex (\<lambda>r. blocks_socket r a d) (map (expanded_rule ps) addrs)"
      "\<not> list_ex (\<lambda>r. blocks_domain r s) (map (expanded_rule ps) addrs)"
      "\<not> list_ex (\<lambda>r. rule_allows_domain r s) (map (expanded_rule ps) addrs)" for a d s
      by (auto simp: list_ex_iff expanded_rule_allows)
    show ?thesis
      unfolding ex outcome.case rs_allows_socket_def rs_allows_domain_def
      using i(1-4) by (intro exI [of _ i]) (simp add: same new)
  qed
qed

theorem expand_domain_grants_witness:
  "\<exists>rs'. expand_domain [RDNS \<lparr>dn_domain = DomainAll, dn_port = Port 443, dn_expanded = False\<rparr>] ''a.org'' [V4 1] = Ok rs' \<and>
    rs_allows_socket rs' (V4 1, 443) Outbound \<and> \<not> rs_allows_socket rs' (V4 1, 443) Inbound \<and>
    \<not> rs_allows_socket rs' (V4 2, 443) Outbound"
proof -
  let ?rs = "[RDNS \<lparr>dn_domain = DomainAll, dn_port = Port 443, dn_expanded = False\<rparr>]"
  obtain rs' where rs': "expand_domain ?rs ''a.org'' [V4 1] = Ok rs'"
    by (simp add: expand_domain_def dns_allows_def)
  have before: "\<not> rs_allows_socket ?rs (ip, port) dir" for ip port dir by (simp add: rs_allows_socket_def)
  have "rs_allows_socket rs' (ip, port) dir \<longleftrightarrow> dir = Outbound \<and> ip = V4 1 \<and> port = 443" for ip port dir
    using expand_domain_grants [of ?rs "''a.org''" "[V4 1]"] rs' before by (auto simp: dns_allows_def)
  with rs' show ?thesis by simp
qed

text \<open>
  C32: A rule for many names works for one of them only. If the only rule is a rule for names that matches
  two names, for instance a glob, then after both names have been resolved, successfully, no connection is allowed to an
  address that only the second one has.
\<close>

theorem second_name_unreachable:
  assumes "\<not> dn_expanded d" "dns_allows d first" "dns_allows d second"
    and "lookup first = Ok addrs" "lookup second = Ok addrs'" "ip \<in> set addrs'" "ip \<notin> set addrs"
  shows "\<exists>rs1 rs2. net_resolve lookup (Some [RDNS d]) first = Ok (addrs, Some rs1) \<and>
    net_resolve lookup (Some rs1) second = Ok (addrs', Some rs2) \<and> (\<forall>port dir. \<not> rs_allows_socket rs2 (ip, port) dir)"
proof -
  let ?d = "d\<lparr>dn_expanded := True\<rparr>"
  let ?rs = "RDNS ?d # map (expanded_rule (dn_port d)) addrs"
  have allows: "dns_allows ?d name = dns_allows d name" for name by (simp add: dns_allows_def)
  have first: "net_resolve lookup (Some [RDNS d]) first = Ok (addrs, Some ?rs)"
    using assms(1,2,4) by (simp add: net_resolve_def rs_allows_domain_def expand_domain_def)
  have none: "\<forall>r \<in> set ?rs. \<not> pending r second"
    by (auto simp: pending_def expanded_rule_allows)
  have failed: "\<exists>e. expand_domain ?rs second addrs' = Err e"
  proof (cases "expand_domain ?rs second addrs'")
    case (Ok rs')
    then obtain i where "i < length ?rs" "pending (?rs ! i) second"
      using expand_domain_cases [of ?rs second addrs'] by auto
    then show ?thesis using none by (meson nth_mem)
  next
    case Panic
    then show ?thesis using expand_domain_cases [of ?rs second addrs'] by simp
  qed simp
  have "rs_allows_domain ?rs second"
    using assms(3) allows by (simp add: rs_allows_domain_def list_ex_iff expanded_rule_allows)
  with failed have second: "net_resolve lookup (Some ?rs) second = Ok (addrs', Some ?rs)"
    using assms(5) by (auto simp: net_resolve_def)
  have "\<not> rs_allows_socket ?rs (ip, port) dir" for port dir
    using assms(7) by (auto simp: rs_allows_socket_def list_ex_iff expanded_rule_allows)
  with first second show ?thesis by blast
qed

text \<open>The rule of all subdomains, and two of them.\<close>

definition example_lookup :: "string \<Rightarrow> (IpAddr list, NetworkError) outcome" where
  "example_lookup name = (if name = ''a.example.com'' then Ok [V4 1] else if name = ''b.example.com'' then Ok [V4 2] else Err IOError)"

theorem second_name_unreachable_witness:
  "ruleset_from_str example_nets ''dns:allow=*.example.com:443'' =
     Ok [RDNS \<lparr>dn_domain = DomainGlob ''.example.com'', dn_port = Port 443, dn_expanded = False\<rparr>] \<and>
   (\<exists>rs1 rs2. net_resolve example_lookup (Some [RDNS \<lparr>dn_domain = DomainGlob ''.example.com'', dn_port = Port 443,
        dn_expanded = False\<rparr>]) ''a.example.com'' = Ok ([V4 1], Some rs1) \<and>
      net_resolve example_lookup (Some rs1) ''b.example.com'' = Ok ([V4 2], Some rs2) \<and>
      \<not> rs_allows_socket rs2 (V4 2, 443) Outbound)"
proof
  have "parse_ruleset_segments (comma_separated (map segment_text [\<lparr>sg_ty = RtDns, sg_action = Allow, sg_expr = ''*.example.com:443''\<rparr>])) =
      Ok [\<lparr>sg_ty = RtDns, sg_action = Allow, sg_expr = ''*.example.com:443''\<rparr>]"
    by (rule segments_of_text) (simp_all add: marker_free_def segment_text_def)
  then show "ruleset_from_str example_nets ''dns:allow=*.example.com:443'' =
     Ok [RDNS \<lparr>dn_domain = DomainGlob ''.example.com'', dn_port = Port 443, dn_expanded = False\<rparr>]"
    by (simp add: ruleset_from_str_def is_whitespace_def segment_text_def segment_rules_def parse_dns_rule_def
        split_once_def parse_as_list_def parse_enclosed_def domain_from_str_def strip_prefix_def port_from_str_def
        u16_from_str_def digit_def)
  show "\<exists>rs1 rs2. net_resolve example_lookup (Some [RDNS \<lparr>dn_domain = DomainGlob ''.example.com'', dn_port = Port 443,
        dn_expanded = False\<rparr>]) ''a.example.com'' = Ok ([V4 1], Some rs1) \<and>
      net_resolve example_lookup (Some rs1) ''b.example.com'' = Ok ([V4 2], Some rs2) \<and>
      \<not> rs_allows_socket rs2 (V4 2, 443) Outbound"
    using second_name_unreachable [of "\<lparr>dn_domain = DomainGlob ''.example.com'', dn_port = Port 443, dn_expanded = False\<rparr>"
        "''a.example.com''" "''b.example.com''" example_lookup "[V4 1]" "[V4 2]" "V4 2"]
    by (auto simp: dns_allows_def ends_with_def example_lookup_def)
qed

end
